(* ===== verification/Prelude.thy ===== *)
theory Prelude
  imports Main
begin

text \<open>
  Shared vocabulary of the development. The program is TypeScript: its strings are
  sequences of UTF-16 code units, its numbers are IEEE doubles that the code only ever
  uses at integral values, and its missing values are \<open>undefined\<close>. Here a string is
  a \<open>char list\<close> (a code unit below 256 per \<open>char\<close>), an integral number is an
  \<open>int\<close>, and a value that may be \<open>undefined\<close> or \<open>NaN\<close> is an \<open>option\<close>.
  The theory also holds the decimal rendering of integers that \<open>Number.prototype.toString\<close>
  and the template literals of the program perform, with its read-back, and a few
  arithmetic facts on floor division that the calendar and the decimal theories share.
\<close>

named_theorems js_eval \<open>equations that evaluate the modelled JavaScript builtins\<close>

type_synonym js_string = string

text \<open>A JavaScript number that is integral or \<open>NaN\<close> (\<open>None\<close>).\<close>

type_synonym js_int = "int option"

subsection \<open>Decimal digits\<close>

definition digit_char :: "nat \<Rightarrow> char" where
  "digit_char d = ''0123456789'' ! d"

definition digit_val :: "char \<Rightarrow> nat" where
  "digit_val c = of_char c - 48"

definition is_digit :: "char \<Rightarrow> bool" where
  "is_digit c \<longleftrightarrow> 48 \<le> (of_char c :: nat) \<and> (of_char c :: nat) \<le> 57"

text \<open>The shortest decimal numeral of a natural number (no leading zeros).\<close>

fun digits_of_nat :: "nat \<Rightarrow> string" where
  "digits_of_nat n =
     (if n < 10 then [digit_char n] else digits_of_nat (n div 10) @ [digit_char (n mod 10)])"

declare digits_of_nat.simps [simp del]

text \<open>
  \<open>Number.prototype.toString()\<close> and \<open>${n}\<close> on an integral number of magnitude below
  \<open>10^21\<close>: an optional minus sign and the decimal digits. \<open>NaN\<close> prints as \<open>NaN\<close>.
\<close>

definition int_str :: "int \<Rightarrow> string" where
  "int_str i = (if i < 0 then ''-'' @ digits_of_nat (nat (- i)) else digits_of_nat (nat i))"

definition js_num_str :: "js_int \<Rightarrow> string" where
  "js_num_str v = (case v of None \<Rightarrow> ''NaN'' | Some i \<Rightarrow> int_str i)"

text \<open>Reading a digit string back, most significant digit first.\<close>

definition read_digits :: "string \<Rightarrow> nat" where
  "read_digits s = foldl (\<lambda>acc c. 10 * acc + digit_val c) 0 s"

subsection \<open>Lemmas on digits\<close>

lemma less_10_cases:
  assumes "d < (10::nat)"
  shows "d \<in> {0, 1, 2, 3, 4, 5, 6, 7, 8, 9}"
  using assms by auto

lemma digit_val_digit_char [simp]: "d < 10 \<Longrightarrow> digit_val (digit_char d) = d"
  using less_10_cases [of d] by (auto simp: digit_val_def digit_char_def)

lemma is_digit_digit_char [simp]: "d < 10 \<Longrightarrow> is_digit (digit_char d)"
  using less_10_cases [of d] by (auto simp: is_digit_def digit_char_def)

lemma digit_char_inj:
  "d < 10 \<Longrightarrow> e < 10 \<Longrightarrow> digit_char d = digit_char e \<longleftrightarrow> d = e"
  by (metis digit_val_digit_char)

lemma read_digits_snoc [simp]:
  "read_digits (s @ [c]) = 10 * read_digits s + digit_val c"
  by (simp add: read_digits_def)

lemma read_digits_Nil [simp]: "read_digits [] = 0"
  by (simp add: read_digits_def)

lemma read_digits_of_nat [simp]: "read_digits (digits_of_nat n) = n"
proof (induction n rule: digits_of_nat.induct)
  case (1 n)
  show ?case
  proof (cases "n < 10")
    case True
    then show ?thesis
      by (simp add: digits_of_nat.simps [of n] read_digits_def)
  next
    case False
    with "1.IH" show ?thesis
      by (simp add: digits_of_nat.simps [of n])
  qed
qed

lemma digits_of_nat_digits: "c \<in> set (digits_of_nat n) \<Longrightarrow> is_digit c"
proof (induction n rule: digits_of_nat.induct)
  case (1 n)
  then show ?case
    by (cases "n < 10") (auto simp: digits_of_nat.simps [of n])
qed

lemma digits_of_nat_nonempty [simp]: "digits_of_nat n \<noteq> []"
  by (simp add: digits_of_nat.simps [of n])

lemma digits_of_nat_inj: "digits_of_nat m = digits_of_nat n \<longleftrightarrow> m = n"
  by (metis read_digits_of_nat)

lemma digits_of_nat_hd_nonzero:
  "0 < n \<Longrightarrow> hd (digits_of_nat n) \<noteq> CHR ''0''"
proof (induction n rule: digits_of_nat.induct)
  case (1 n)
  show ?case
  proof (cases "n < 10")
    case True
    with "1.prems" have "digit_char n \<noteq> digit_char 0"
      using digit_char_inj [of n 0] by simp
    with True show ?thesis
      by (simp add: digits_of_nat.simps [of n] digit_char_def)
  next
    case False
    with "1.IH" show ?thesis
      by (simp add: digits_of_nat.simps [of n])
  qed
qed

lemma length_digits_of_nat:
  "length (digits_of_nat n) = (if n < 10 then 1 else Suc (length (digits_of_nat (n div 10))))"
  by (simp add: digits_of_nat.simps [of n])

subsection \<open>Floor division\<close>

text \<open>
  Stepping the dividend by one raises a floor quotient by one exactly when the new dividend
  is a multiple of the divisor; the leap-year counts of the calendar rest on it.
\<close>

lemma div_succ_int:
  assumes k: "1 < (k::int)"
  shows "(a + 1) div k = a div k + (if (a + 1) mod k = 0 then 1 else 0)"
proof -
  have m: "0 \<le> a mod k" "a mod k < k" using k by simp_all
  have d: "(a + 1) div k = a div k + (a mod k + 1) div k"
    using div_add1_eq [of a 1 k] k by simp
  have r: "(a + 1) mod k = (a mod k + 1) mod k"
    using mod_add_eq [of a k 1] k by simp
  show ?thesis
  proof (cases "a mod k + 1 = k")
    case True
    then show ?thesis using d r k by simp
  next
    case False
    then have "a mod k + 1 < k" using m by simp
    then show ?thesis using d r m by simp
  qed
qed

subsection \<open>Ceiling division\<close>

text \<open>\<open>Math.ceil(n / d)\<close> for integers \<open>n\<close> and a positive integer \<open>d\<close>.\<close>

definition js_ceil_div :: "int \<Rightarrow> int \<Rightarrow> int" where
  "js_ceil_div n d = - ((- n) div d)"

lemma js_ceil_div_bounds:
  assumes "0 < d"
  shows "n \<le> d * js_ceil_div n d \<and> d * js_ceil_div n d < n + d"
proof -
  have e: "d * ((- n) div d) + (- n) mod d = - n" by (rule mult_div_mod_eq)
  have "0 \<le> (- n) mod d" "(- n) mod d < d" using assms by simp_all
  with e show ?thesis unfolding js_ceil_div_def mult_minus_right by linarith
qed

lemma js_ceil_div_unique:
  assumes "0 < d" "n \<le> d * c" "d * c < n + d"
  shows "js_ceil_div n d = c"
proof -
  have b: "n \<le> d * js_ceil_div n d" "d * js_ceil_div n d < n + d"
    using js_ceil_div_bounds [OF assms(1)] by simp_all
  have "d * js_ceil_div n d < d * (c + 1)" "d * c < d * (js_ceil_div n d + 1)"
    using assms b by (simp_all add: algebra_simps)
  then have "js_ceil_div n d < c + 1" "c < js_ceil_div n d + 1"
    using assms(1) by (simp_all add: mult_less_cancel_left)
  then show ?thesis by simp
qed

text \<open>A floor quotient is the largest multiplier that stays below the dividend.\<close>

lemma mult_le_iff_le_div_int:
  assumes k: "0 < (k::int)"
  shows "k * a \<le> t \<longleftrightarrow> a \<le> t div k"
proof
  have e: "k * (t div k) + t mod k = t" by (rule mult_div_mod_eq)
  have m: "0 \<le> t mod k" "t mod k < k" using k by simp_all
  {
    assume "k * a \<le> t"
    show "a \<le> t div k"
    proof (rule ccontr)
      assume "\<not> a \<le> t div k"
      then have "t div k + 1 \<le> a" by simp
      then have "k * (t div k + 1) \<le> k * a" using k by (simp add: mult_left_mono)
      moreover have "k * (t div k + 1) = k * (t div k) + k" by (simp add: algebra_simps)
      ultimately show False using e m \<open>k * a \<le> t\<close> by linarith
    qed
  }
  {
    assume "a \<le> t div k"
    then have "k * a \<le> k * (t div k)" using k by (simp add: mult_left_mono)
    with e m show "k * a \<le> t" by linarith
  }
qed


lemma replicate_numeral_Cons: "replicate (numeral k) x = x # replicate (pred_numeral k) x"
  by (simp add: numeral_eq_Suc)

declare replicate_numeral_Cons [js_eval] digit_char_def [js_eval] int_str_def [js_eval]
  js_num_str_def [js_eval] digits_of_nat.simps [js_eval]

end
