(* ===== verification/JsString.thy ===== *)
theory JsString
  imports Prelude
begin

text \<open>
  The three \<open>String.prototype\<close> methods the program calls, modelled from ECMA-262
  (they are builtins, not code of the repository):
  \<^item> \<open>js_slice\<close> is \<open>str.slice(start, end)\<close> (\<section>22.1.3.21): negative positions count
    from the end and every position is clamped to \<open>[0, length]\<close>; \<open>ellipsify\<close> relies
    on it for both halves of the shortened hash;
  \<^item> \<open>js_split\<close> is \<open>str.split(sep)\<close> for a one-character separator (\<section>22.1.3.23):
    the empty string gives one empty piece, and adjacent separators give empty pieces;
  \<^item> \<open>js_trim\<close> is \<open>str.trim()\<close> (\<section>22.1.3.32), removing white space and line
    terminators at both ends. Of the code points ECMA-262 counts as white space, those
    representable in a \<open>char\<close> are tab, line feed, vertical tab, form feed, carriage
    return, space and no-break space.
\<close>

definition js_rel_index :: "int \<Rightarrow> nat \<Rightarrow> nat" where
  "js_rel_index k len =
     (if k < 0 then nat (max (int len + k) 0) else nat (min k (int len)))"

definition js_slice :: "'a list \<Rightarrow> int \<Rightarrow> int \<Rightarrow> 'a list" where
  "js_slice s b e =
     (let len = length s; f = js_rel_index b len; t = js_rel_index e len
      in take (t - f) (drop f s))"

fun js_split :: "char \<Rightarrow> js_string \<Rightarrow> js_string list" where
  "js_split c [] = [[]]"
| "js_split c (x # xs) =
     (let ws = js_split c xs in if x = c then [] # ws else (x # hd ws) # tl ws)"

text \<open>\<open>Array.prototype.join(sep)\<close> on strings, the inverse of \<open>js_split\<close>.\<close>

fun js_join :: "char \<Rightarrow> js_string list \<Rightarrow> js_string" where
  "js_join c [] = []"
| "js_join c [w] = w"
| "js_join c (w # v # vs) = w @ c # js_join c (v # vs)"

definition is_js_space :: "char \<Rightarrow> bool" where
  "is_js_space ch \<longleftrightarrow> (of_char ch :: nat) \<in> {9, 10, 11, 12, 13, 32, 160}"

definition js_trim :: "js_string \<Rightarrow> js_string" where
  "js_trim s = rev (dropWhile is_js_space (rev (dropWhile is_js_space s)))"


text \<open>
  \<open>JSON.stringify\<close> of a string (ECMA-262 \<section>25.5.2.3, \<open>QuoteJSONString\<close>): quote and
  backslash are escaped, the short escapes are used for backspace, tab, line feed, form
  feed and carriage return, other control characters become a \<open>u00xx\<close> escape in
  lower-case hex, and every other character is copied.
\<close>

definition dquote :: char where "dquote = char_of (34::nat)"
definition bslash :: char where "bslash = char_of (92::nat)"

definition hex_char :: "nat \<Rightarrow> char" where
  "hex_char d = ''0123456789abcdef'' ! d"

definition json_escape_char :: "char \<Rightarrow> js_string" where
  "json_escape_char c =
     (let n = (of_char c :: nat)
      in if n = 34 then [bslash, dquote] else if n = 92 then [bslash, bslash]
         else if n = 8 then [bslash, CHR ''b''] else if n = 9 then [bslash, CHR ''t'']
         else if n = 10 then [bslash, CHR ''n''] else if n = 12 then [bslash, CHR ''f'']
         else if n = 13 then [bslash, CHR ''r'']
         else if n < 32 then [bslash, CHR ''u'', CHR ''0'', CHR ''0'', hex_char (n div 16), hex_char (n mod 16)]
         else [c])"

definition json_quote :: "js_string \<Rightarrow> js_string" where
  "json_quote s = [dquote] @ concat (map json_escape_char s) @ [dquote]"

text \<open>
  A reader for the JSON the program writes: the string grammar of RFC 8259 (escaped
  quote, backslash and slash, the short escapes \<open>b f n r t\<close>, and \<open>u\<close> with four
  hex digits; no raw control character), and the one object the request body is,
  \<open>{"value": <string>}\<close> without white space. It is the reference against which
  \<open>json_quote\<close> is checked.
\<close>

definition hex_val :: "char \<Rightarrow> nat option" where
  "hex_val c =
     (let n = (of_char c :: nat)
      in if 48 \<le> n \<and> n \<le> 57 then Some (n - 48)
         else if 97 \<le> n \<and> n \<le> 102 then Some (n - 87)
         else if 65 \<le> n \<and> n \<le> 70 then Some (n - 55) else None)"

definition json_unescape :: "char \<Rightarrow> char option" where
  "json_unescape e =
     (if e = dquote then Some dquote else if e = bslash then Some bslash
      else if e = CHR ''/'' then Some CHR ''/'' else if e = CHR ''b'' then Some CHR 0x08
      else if e = CHR ''f'' then Some CHR 0x0C else if e = CHR ''n'' then Some CHR 0x0A
      else if e = CHR ''r'' then Some CHR 0x0D else if e = CHR ''t'' then Some CHR 0x09
      else None)"

fun json_str_body :: "js_string \<Rightarrow> (js_string \<times> js_string) option" where
  "json_str_body [] = None"
| "json_str_body (c # cs) =
     (if c = dquote then Some ([], cs)
      else if c = bslash then
        (case cs of
           [] \<Rightarrow> None
         | e # cs' \<Rightarrow>
             if e = CHR ''u'' then
               (case cs' of
                  h1 # h2 # h3 # h4 # r \<Rightarrow>
                    (case (hex_val h1, hex_val h2, hex_val h3, hex_val h4) of
                       (Some a, Some b, Some d, Some f) \<Rightarrow>
                         let n = ((a * 16 + b) * 16 + d) * 16 + f
                         in if n < 256 then map_option (\<lambda>(s, r'). (char_of n # s, r')) (json_str_body r)
                            else None
                     | _ \<Rightarrow> None)
                | _ \<Rightarrow> None)
             else (case json_unescape e of
                     None \<Rightarrow> None
                   | Some c' \<Rightarrow> map_option (\<lambda>(s, r). (c' # s, r)) (json_str_body cs')))
      else if (of_char c :: nat) < 32 then None
      else map_option (\<lambda>(s, r). (c # s, r)) (json_str_body cs))"


definition json_string :: "js_string \<Rightarrow> (js_string \<times> js_string) option" where
  "json_string s = (case s of [] \<Rightarrow> None | c # cs \<Rightarrow> if c = dquote then json_str_body cs else None)"

definition read_value_object :: "js_string \<Rightarrow> js_string option" where
  "read_value_object s =
     (case s of
        [] \<Rightarrow> None
      | c # r0 \<Rightarrow>
          if c \<noteq> CHR ''{'' then None
          else (case json_string r0 of
                  None \<Rightarrow> None
                | Some (k, r1) \<Rightarrow>
                    if k \<noteq> ''value'' then None
                    else (case r1 of
                            [] \<Rightarrow> None
                          | c1 # r2 \<Rightarrow>
                              if c1 \<noteq> CHR '':'' then None
                              else (case json_string r2 of
                                      None \<Rightarrow> None
                                    | Some (v, r3) \<Rightarrow> if r3 = ''}'' then Some v else None))))"

subsection \<open>slice\<close>

lemma js_rel_index_le [simp]: "js_rel_index k len \<le> len"
  unfolding js_rel_index_def by (cases "k < 0") (simp_all add: nat_le_iff)

lemma js_rel_index_nonneg [simp]: "0 \<le> k \<Longrightarrow> js_rel_index k len = nat (min k (int len))"
  by (simp add: js_rel_index_def)

lemma js_slice_to_end [js_eval]:
  "js_slice s k (int (length s)) = drop (js_rel_index k (length s)) s"
  by (simp add: js_slice_def js_rel_index_def min_def)

lemma js_slice_prefix [js_eval]:
  "0 \<le> p \<Longrightarrow> js_slice s 0 p = take (nat p) s"
  by (simp add: js_slice_def js_rel_index_def min_def Let_def)

lemma js_slice_suffix:
  assumes "0 \<le> p" "p \<le> int (length s)"
  shows "js_slice s (int (length s) - p) (int (length s)) = drop (length s - nat p) s"
  using assms by (simp add: js_slice_to_end js_rel_index_def nat_diff_distrib)

text \<open>A start position before the beginning counts from the end a second time.\<close>

lemma js_slice_suffix_wrap:
  assumes "int (length s) < p"
  shows "js_slice s (int (length s) - p) (int (length s)) =
           drop (nat (max (2 * int (length s) - p) 0)) s"
  using assms by (simp add: js_slice_to_end js_rel_index_def)

subsection \<open>split and join\<close>

lemma js_split_nonempty [simp]: "js_split c s \<noteq> []"
  by (induction s) (auto simp: Let_def)

lemma js_split_Cons_sep [simp]: "js_split c (c # xs) = [] # js_split c xs"
  by simp

lemma js_split_pieces: "w \<in> set (js_split c s) \<Longrightarrow> c \<notin> set w"
proof (induction s arbitrary: w)
  case Nil
  then show ?case by simp
next
  case (Cons x xs)
  obtain v vs where v: "js_split c xs = v # vs"
    using js_split_nonempty by (cases "js_split c xs") auto
  with Cons show ?case
    by (cases "x = c") (auto simp: Let_def)
qed

lemma length_js_split: "length (js_split c s) = Suc (count_list s c)"
proof (induction s)
  case Nil
  then show ?case by simp
next
  case (Cons x xs)
  obtain v vs where "js_split c xs = v # vs"
    using js_split_nonempty by (cases "js_split c xs") auto
  with Cons show ?case by (auto simp: Let_def)
qed

lemma js_join_split: "js_join c (js_split c s) = s"
proof (induction s)
  case Nil
  then show ?case by simp
next
  case (Cons x xs)
  obtain v vs where v: "js_split c xs = v # vs"
    using js_split_nonempty by (cases "js_split c xs") auto
  show ?case
  proof (cases "x = c")
    case True
    with Cons.IH v show ?thesis by simp
  next
    case False
    with Cons.IH v show ?thesis by (cases vs) simp_all
  qed
qed

lemma js_split_append_sep:
  "c \<notin> set w \<Longrightarrow> js_split c (w @ c # s) = w # js_split c s"
proof (induction w)
  case Nil
  then show ?case by simp
next
  case (Cons x w)
  then show ?case by (auto simp: Let_def)
qed

lemma js_split_no_sep: "c \<notin> set w \<Longrightarrow> js_split c w = [w]"
proof (induction w)
  case Nil
  then show ?case by simp
next
  case (Cons x w)
  then show ?case by (auto simp: Let_def)
qed

lemma js_split_join:
  "ws \<noteq> [] \<Longrightarrow> (\<forall>w \<in> set ws. c \<notin> set w) \<Longrightarrow> js_split c (js_join c ws) = ws"
proof (induction ws rule: induct_list012)
  case 1
  then show ?case by simp
next
  case (2 w)
  then show ?case by (simp add: js_split_no_sep)
next
  case (3 w v vs)
  then show ?case by (simp add: js_split_append_sep)
qed

subsection \<open>trim\<close>

lemma js_trim_empty_iff: "js_trim s = [] \<longleftrightarrow> (\<forall>ch \<in> set s. is_js_space ch)"
proof (cases "dropWhile is_js_space s")
  case Nil
  then show ?thesis
    by (auto simp: js_trim_def dest: set_dropWhileD)
next
  case (Cons a l)
  then have "\<not> is_js_space a"
    using hd_dropWhile [of is_js_space s] by simp
  moreover have "a \<in> set s"
    using Cons set_dropWhileD [of a is_js_space s] by simp
  ultimately show ?thesis
    using Cons by (auto simp: js_trim_def)
qed

subsection \<open>JSON strings read back\<close>

lemma hex_val_hex_char: "d < 16 \<Longrightarrow> hex_val (hex_char d) = Some d"
  by (auto simp: less_Suc_eq numeral_eq_Suc hex_val_def hex_char_def)

lemma hex_val_zero: "hex_val CHR ''0'' = Some 0"
  by (simp add: hex_val_def)

lemma char_by_code: "(of_char c :: nat) = of_char d \<Longrightarrow> c = d"
  by (simp add: of_char_eq_iff)

lemma json_str_body_escape:
  "json_str_body (json_escape_char c @ rest) = map_option (\<lambda>(s, r). (c # s, r)) (json_str_body rest)"
proof -
  define n where "n = (of_char c :: nat)"
  have q: "dquote = CHR 0x22" "bslash = CHR 0x5C"
    by (simp_all add: dquote_def bslash_def char_by_code)
  have lit: "\<And>d. n = of_char d \<Longrightarrow> c = d" by (simp add: n_def char_by_code)
  consider "c = CHR 0x22" | "c = CHR 0x5C" | "c = CHR 0x08" | "c = CHR 0x09" | "c = CHR 0x0A"
    | "c = CHR 0x0C" | "c = CHR 0x0D"
    | "n < 32" "n \<notin> {8, 9, 10, 12, 13}" | "32 \<le> n" "n \<noteq> 34" "n \<noteq> 92"
    using lit [of "CHR 0x22"] lit [of "CHR 0x5C"] lit [of "CHR 0x08"] lit [of "CHR 0x09"]
      lit [of "CHR 0x0A"] lit [of "CHR 0x0C"] lit [of "CHR 0x0D"]
    by fastforce
  then show ?thesis
  proof cases
    case 8
    have c: "c = char_of n" by (simp add: n_def)
    have "n div 16 < 16" "n mod 16 < 16" "n div 16 * 16 + n mod 16 = n" using 8 by simp_all
    then show ?thesis using 8
      by (simp add: json_escape_char_def c hex_val_hex_char hex_val_zero q Let_def)
  next
    case 9
    have "c \<noteq> CHR 0x22" "c \<noteq> CHR 0x5C"
      using 9 by (auto simp: n_def dest: arg_cong [of _ _ "of_char :: char \<Rightarrow> nat"])
    then show ?thesis using 9 by (simp add: json_escape_char_def q n_def [symmetric])
  qed (simp_all add: json_escape_char_def json_unescape_def q)
qed

lemma json_str_body_quoted:
  "json_str_body (concat (map json_escape_char s) @ dquote # r) = Some (s, r)"
  by (induction s) (simp_all add: json_str_body_escape)

lemma json_string_quote: "json_string (json_quote s @ r) = Some (s, r)"
  by (simp add: json_string_def json_quote_def json_str_body_quoted)

end
