(* ===== verification/Ellipsify.thy ===== *)
theory Ellipsify
  imports JsString
begin

text \<open>
  \<open>ellipsify\<close> of \<^verbatim>\<open>src/src/index.ts\<close> (lines 27--32) shortens the transaction hash
  for display: the first and the last \<open>strPad\<close> characters around a literal
  \<open>...\<close>. The pad is the caller's \<open>strPad\<close> when it is truthy (a number other than
  \<open>0\<close> and \<open>NaN\<close>), otherwise \<open>Math.ceil(len / 3)\<close>; a pad above 8 is then lowered by 3.
  Both halves are taken with \<open>String.prototype.slice\<close> (\<open>js_slice\<close>), so a pad
  longer than the string wraps around at the tail. The theory proves the shape and the
  length of the result, the default pad's bounds, the effect of the soft cap, and what the
  slicing gives for an explicit pad longer than the string.
\<close>

definition ellipsify_pad :: "int \<Rightarrow> js_int \<Rightarrow> int" where
  "ellipsify_pad len strPad =
     (let p = (case strPad of None \<Rightarrow> js_ceil_div len 3
                | Some q \<Rightarrow> if q = 0 then js_ceil_div len 3 else q)
      in if 8 < p then p - 3 else p)"

definition ellipsify :: "js_string \<Rightarrow> js_int \<Rightarrow> js_string" where
  "ellipsify str strPad =
     (let len = int (length str);
          pad = ellipsify_pad len strPad
      in js_slice str 0 pad @ ''...'' @ js_slice str (len - pad) len)"

subsection \<open>The pad\<close>

text \<open>\<open>Math.ceil(len / 3)\<close> for a string length.\<close>

lemma default_pad_bounds:
  assumes "0 \<le> len"
  shows "0 \<le> js_ceil_div len 3 \<and> js_ceil_div len 3 \<le> len"
  using js_ceil_div_bounds [of 3 len] assms by linarith

lemma ellipsify_pad_default_range:
  assumes "0 \<le> len"
  shows "0 \<le> ellipsify_pad len None \<and> ellipsify_pad len None \<le> len"
  using default_pad_bounds [OF assms] by (simp add: ellipsify_pad_def Let_def)

lemma ellipsify_pad_zero [simp]: "ellipsify_pad len (Some 0) = ellipsify_pad len None"
  by (simp add: ellipsify_pad_def)

lemma ellipsify_pad_Some:
  "q \<noteq> 0 \<Longrightarrow> ellipsify_pad len (Some q) = (if 8 < q then q - 3 else q)"
  by (simp add: ellipsify_pad_def)

text \<open>The default pad of a string whose length is a multiple of three.\<close>

lemma js_ceil_div_3_mult [simp]: "js_ceil_div (3 * k) 3 = k"
  by (rule js_ceil_div_unique) simp_all

subsection \<open>Shape of the result\<close>

text \<open>With a pad between \<open>0\<close> and the length, both slices are ordinary prefix and suffix.\<close>

lemma ellipsify_in_range:
  assumes "0 \<le> ellipsify_pad (int (length s)) p"
    and "ellipsify_pad (int (length s)) p \<le> int (length s)"
  shows "ellipsify s p =
           take (nat (ellipsify_pad (int (length s)) p)) s @ ''...'' @
           drop (length s - nat (ellipsify_pad (int (length s)) p)) s"
  using assms by (simp add: ellipsify_def Let_def js_slice_prefix js_slice_suffix)

lemma ellipsify_default_shape:
  "ellipsify s None =
     take (nat (ellipsify_pad (int (length s)) None)) s @ ''...'' @
     drop (length s - nat (ellipsify_pad (int (length s)) None)) s"
  using ellipsify_pad_default_range [of "int (length s)"]
  by (simp add: ellipsify_in_range)

lemma length_ellipsify_default:
  "length (ellipsify s None) = 2 * nat (ellipsify_pad (int (length s)) None) + 3"
proof -
  have "nat (ellipsify_pad (int (length s)) None) \<le> length s"
    using ellipsify_pad_default_range [of "int (length s)"] by (simp add: nat_le_iff)
  then show ?thesis by (simp add: ellipsify_default_shape min_def)
qed

lemma ellipsify_beyond:
  assumes "int (length s) < ellipsify_pad (int (length s)) p"
  shows "ellipsify s p =
           s @ ''...'' @ drop (nat (max (2 * int (length s) - ellipsify_pad (int (length s)) p) 0)) s"
proof -
  have "0 \<le> ellipsify_pad (int (length s)) p" using assms by linarith
  then show ?thesis
    using assms by (simp add: ellipsify_def Let_def js_slice_prefix js_slice_suffix_wrap)
qed

subsection \<open>Properties\<close>

text \<open>
  C20. With the default pad \<open>p\<close> (\<open>ceil(len/3)\<close>, less 3 when above 8), which lies
  between 0 and the length of the string, the result is the first \<open>p\<close> characters,
  \<open>...\<close>, and the last \<open>p\<close> characters, \<open>2p + 3\<close> characters in all.
\<close>

theorem ellipsify_default_result:
  "0 \<le> ellipsify_pad (int (length s)) None \<and> ellipsify_pad (int (length s)) None \<le> int (length s) \<and>
   ellipsify s None =
     take (nat (ellipsify_pad (int (length s)) None)) s @ ''...'' @
     drop (length s - nat (ellipsify_pad (int (length s)) None)) s \<and>
   length (ellipsify s None) = 2 * nat (ellipsify_pad (int (length s)) None) + 3"
  using ellipsify_pad_default_range [of "int (length s)"] ellipsify_default_shape [of s]
    length_ellipsify_default [of s]
  by simp

text \<open>The example of the specification: fifteen characters keep five on each side.\<close>

theorem ellipsify_spec_example: "ellipsify ''abcdefghijklmno'' None = ''abcde...klmno''"
  by (simp add: ellipsify_default_shape ellipsify_pad_def js_ceil_div_def)

text \<open>
  C21. The cap on the pad is soft: above 8 the pad is only lowered by 3, so a 64-character
  transaction hash keeps 19 characters on each side (41 in all), not the 8 the comment
  of the code promises, and longer strings give longer results without bound.
\<close>

theorem ellipsify_soft_cap:
  assumes "8 < js_ceil_div (int (length s)) 3"
  shows "length (ellipsify s None) = 2 * nat (js_ceil_div (int (length s)) 3 - 3) + 3"
  using assms length_ellipsify_default [of s] by (simp add: ellipsify_pad_def)

theorem ellipsify_soft_cap_witness:
  "length (ellipsify (replicate 64 CHR ''a'') None) = 41"
proof -
  have c: "js_ceil_div (int (length (replicate 64 CHR ''a''))) 3 = 22"
    by (simp add: js_ceil_div_def)
  show ?thesis using ellipsify_soft_cap [of "replicate 64 CHR ''a''"] c by simp
qed

text \<open>
  C22. An explicit pad longer than the string takes the whole string as head, and the tail
  slice starts at \<open>2 len - pad\<close> (\<open>slice\<close> counts a negative start from the end), so
  it is not the whole string: \<open>ellipsify("abcd", 7)\<close> is \<open>"abcd...bcd"\<close>.
\<close>

theorem ellipsify_explicit_pad_beyond:
  assumes "q \<noteq> 0" and "int (length s) < (if 8 < q then q - 3 else q)"
  shows "ellipsify s (Some q) =
           s @ ''...'' @ drop (nat (max (2 * int (length s) - (if 8 < q then q - 3 else q)) 0)) s"
  using assms ellipsify_beyond [of s "Some q"] by (simp add: ellipsify_pad_Some)

theorem ellipsify_explicit_pad_beyond_witness:
  "ellipsify ''abcd'' (Some 7) = ''abcd...bcd''"
  using ellipsify_explicit_pad_beyond [of 7 "''abcd''"] by simp


text \<open>
  C23. An explicit pad of \<open>0\<close> is not used, although the comment on line 29 says
  "if pad is specified, then use pad": \<open>strPad || Math.ceil(len / 3)\<close> treats \<open>0\<close>
  as absent, so \<open>ellipsify(s, 0)\<close> is \<open>ellipsify(s)\<close>, not \<open>"..."\<close>.
\<close>

theorem ellipsify_zero_pad:
  "ellipsify s (Some 0) = ellipsify s None \<and> ellipsify ''abcdefghijklmno'' (Some 0) = ''abcde...klmno''"
proof -
  have z: "\<And>s. ellipsify s (Some 0) = ellipsify s None" by (simp add: ellipsify_def)
  show ?thesis
    by (simp add: z ellipsify_default_shape ellipsify_pad_def js_ceil_div_def)
qed

text \<open>
  C24. A negative pad is kept (it is truthy and not above 8): the head slice drops that
  many characters from the end and the tail slice, starting past the end, is empty.
\<close>

theorem ellipsify_negative_pad:
  assumes "q < 0"
  shows "ellipsify s (Some q) = take (nat (int (length s) + q)) s @ ''...''"
  using assms
  by (simp add: ellipsify_def ellipsify_pad_Some js_slice_def js_rel_index_def Let_def max_def)

theorem ellipsify_negative_pad_witness: "ellipsify ''abcdef'' (Some (-2)) = ''abcd...''"
  using ellipsify_negative_pad [of "-2" "''abcdef''"] by simp

end
