(* ===== verification/Calendar.thy ===== *)
theory Calendar
  imports Prelude
begin

text \<open>
  The calendar arithmetic behind the \<open>Date\<close> getters that \<open>formatDate\<close> calls
  (\<open>getDay\<close>, \<open>getMonth\<close>, \<open>getDate\<close>, \<open>getFullYear\<close>), modelled from ECMA-262
  \<section>21.4.1 (it is part of the JavaScript engine, not of the repository). A time value is
  an integer number of milliseconds since 1970-01-01T00:00Z; the getters read it in local
  time. ECMA-262 defines the year of a time value as the largest \<open>y\<close> with
  \<open>TimeFromYear(y) \<le> t\<close>; \<open>YearFromDay\<close> computes it by a bounded scan over one
  400-year cycle, and the theory proves that the scan yields exactly that year. Month and
  day of the month follow the specification's tables; \<open>MakeDay\<close> rebuilds the day
  number from the three components, and the round trip through it is proved.
\<close>

definition msPerDay :: int where
  "msPerDay = 86400000"

definition Day :: "int \<Rightarrow> int" where
  "Day t = t div msPerDay"

definition DaysInYear :: "int \<Rightarrow> int" where
  "DaysInYear y =
     (if y mod 4 \<noteq> 0 then 365 else if y mod 100 \<noteq> 0 then 366
      else if y mod 400 \<noteq> 0 then 365 else 366)"

definition DayFromYear :: "int \<Rightarrow> int" where
  "DayFromYear y =
     365 * (y - 1970) + (y - 1969) div 4 - (y - 1901) div 100 + (y - 1601) div 400"

definition TimeFromYear :: "int \<Rightarrow> int" where
  "TimeFromYear y = msPerDay * DayFromYear y"

text \<open>
  The scan: from a year whose first day is not after day \<open>d\<close>, step to the next year
  while that one starts no later than \<open>d\<close>, for at most \<open>n\<close> steps.
\<close>

fun year_scan :: "int \<Rightarrow> int \<Rightarrow> nat \<Rightarrow> int" where
  "year_scan d y 0 = y"
| "year_scan d y (Suc n) = (if DayFromYear (y + 1) \<le> d then year_scan d (y + 1) n else y)"

definition YearFromDay :: "int \<Rightarrow> int" where
  "YearFromDay d = year_scan d (1970 + 400 * (d div 146097)) 400"

definition YearFromTime :: "int \<Rightarrow> int" where
  "YearFromTime t = YearFromDay (Day t)"

definition InLeapYear :: "int \<Rightarrow> int" where
  "InLeapYear t = (if DaysInYear (YearFromTime t) = 366 then 1 else 0)"

definition DayWithinYear :: "int \<Rightarrow> int" where
  "DayWithinYear t = Day t - DayFromYear (YearFromTime t)"

text \<open>
  The month of a day of the year (\<open>d\<close>, from \<open>0\<close>) in a year with \<open>l\<close> leap
  days, as the table of \<open>MonthFromTime\<close> in ECMA-262 \<section>21.4.1.8, and the first day of
  each month, from which \<open>DateFromTime\<close> (\<section>21.4.1.9) counts.
\<close>

definition month_of_dwy :: "int \<Rightarrow> int \<Rightarrow> int" where
  "month_of_dwy l d =
     (if d < 31 then 0 else if d < 59 + l then 1 else if d < 90 + l then 2
      else if d < 120 + l then 3 else if d < 151 + l then 4 else if d < 181 + l then 5
      else if d < 212 + l then 6 else if d < 243 + l then 7 else if d < 273 + l then 8
      else if d < 304 + l then 9 else if d < 334 + l then 10 else 11)"

definition month_start :: "int \<Rightarrow> int \<Rightarrow> int" where
  "month_start l m =
     [0, 31, 59 + l, 90 + l, 120 + l, 151 + l, 181 + l, 212 + l, 243 + l, 273 + l, 304 + l,
      334 + l, 365 + l] ! nat m"

definition MonthFromTime :: "int \<Rightarrow> int" where
  "MonthFromTime t = month_of_dwy (InLeapYear t) (DayWithinYear t)"

definition DateFromTime :: "int \<Rightarrow> int" where
  "DateFromTime t =
     DayWithinYear t - month_start (InLeapYear t) (MonthFromTime t) + 1"

definition WeekDay :: "int \<Rightarrow> int" where
  "WeekDay t = (Day t + 4) mod 7"

text \<open>
  \<open>MakeDay(year, month, date)\<close> (\<section>21.4.1.28): the day number of a calendar date;
  a month outside \<open>0..11\<close> carries into the year.
\<close>

definition MakeDay :: "int \<Rightarrow> int \<Rightarrow> int \<Rightarrow> int" where
  "MakeDay year month date =
     (let ym = year + month div 12; mn = month mod 12
      in DayFromYear ym + month_start (if DaysInYear ym = 366 then 1 else 0) mn + date - 1)"

text \<open>
  Local time (\<section>21.4.1.25): the time value shifted by the host's offset from UTC at
  that instant, an arbitrary function of the time value (time zone and daylight saving
  rules are host data).
\<close>

type_synonym tz_offset = "int \<Rightarrow> int"

definition LocalTime :: "tz_offset \<Rightarrow> int \<Rightarrow> int" where
  "LocalTime tz t = t + tz t"

text \<open>
  \<open>TimeClip\<close> (\<section>21.4.1.31), applied by \<open>new Date(value)\<close>: a time value outside
  \<open>\<plusminus>8.64 \<cdot> 10^15\<close> ms, or \<open>NaN\<close>, is the invalid date \<open>NaN\<close>.
\<close>

definition TimeClip :: "js_int \<Rightarrow> js_int" where
  "TimeClip v = (case v of None \<Rightarrow> None
                 | Some t \<Rightarrow> if \<bar>t\<bar> \<le> 8640000000000000 then Some t else None)"

subsection \<open>Year lengths and year starts\<close>

lemma DaysInYear_range: "365 \<le> DaysInYear y \<and> DaysInYear y \<le> 366"
  by (simp add: DaysInYear_def)

lemma mod_minus_mult_int: "(a - c * k) mod k = a mod (k::int)"
  using mod_mult_self1 [of a "- c" k] by simp

lemma DaysInYear_leap_counts:
  "DaysInYear y = 365 + (if y mod 4 = 0 then 1 else 0) - (if y mod 100 = 0 then 1 else 0)
                      + (if y mod 400 = 0 then 1 else 0)"
proof -
  have d4: "y mod 100 = 0 \<Longrightarrow> y mod 4 = 0"
    using dvd_trans [of "4::int" 100 y] by (auto simp flip: dvd_eq_mod_eq_0)
  have d100: "y mod 400 = 0 \<Longrightarrow> y mod 100 = 0"
    using dvd_trans [of "100::int" 400 y] by (auto simp flip: dvd_eq_mod_eq_0)
  show ?thesis
    using d4 d100 by (simp add: DaysInYear_def)
qed

lemma DayFromYear_Suc: "DayFromYear (y + 1) = DayFromYear y + DaysInYear y"
proof -
  define i4 :: int where "i4 = (if y mod 4 = 0 then 1 else 0)"
  define i100 :: int where "i100 = (if y mod 100 = 0 then 1 else 0)"
  define i400 :: int where "i400 = (if y mod 400 = 0 then 1 else 0)"
  have a: "(y + 1 - 1969) div 4 = (y - 1969) div 4 + i4"
    using div_succ_int [of 4 "y - 1969"] mod_minus_mult_int [of y 492 4]
    by (simp add: i4_def)
  have b: "(y + 1 - 1901) div 100 = (y - 1901) div 100 + i100"
    using div_succ_int [of 100 "y - 1901"] mod_minus_mult_int [of y 19 100]
    by (simp add: i100_def)
  have c: "(y + 1 - 1601) div 400 = (y - 1601) div 400 + i400"
    using div_succ_int [of 400 "y - 1601"] mod_minus_mult_int [of y 4 400]
    by (simp add: i400_def)
  have "DaysInYear y = 365 + i4 - i100 + i400"
    unfolding i4_def i100_def i400_def by (rule DaysInYear_leap_counts)
  then show ?thesis
    unfolding DayFromYear_def a b c by simp
qed

lemma DayFromYear_1970 [simp]: "DayFromYear 1970 = 0"
  by (simp add: DayFromYear_def)

lemma DayFromYear_cycles: "DayFromYear (y + 400 * q) = DayFromYear y + 146097 * q"
proof -
  have a: "(y + 400 * q - 1969) div 4 = (y - 1969) div 4 + 100 * q"
    using div_mult_self1 [of 4 "y - 1969" "100 * q"] by (simp add: algebra_simps)
  have b: "(y + 400 * q - 1901) div 100 = (y - 1901) div 100 + 4 * q"
    using div_mult_self1 [of 100 "y - 1901" "4 * q"] by (simp add: algebra_simps)
  have c: "(y + 400 * q - 1601) div 400 = (y - 1601) div 400 + q"
    using div_mult_self1 [of 400 "y - 1601" q] by (simp add: algebra_simps)
  show ?thesis using a b c by (simp add: DayFromYear_def algebra_simps)
qed

lemma DayFromYear_strict_mono:
  assumes "y < y'"
  shows "DayFromYear y < DayFromYear y'"
  using assms
proof (induction y' rule: int_gr_induct)
  case base
  show ?case using DayFromYear_Suc [of y] DaysInYear_range [of y] by simp
next
  case (step z)
  then show ?case using DayFromYear_Suc [of z] DaysInYear_range [of z] by simp
qed

lemma DayFromYear_le_iff: "DayFromYear y \<le> DayFromYear y' \<longleftrightarrow> y \<le> y'"
proof
  assume le: "DayFromYear y \<le> DayFromYear y'"
  show "y \<le> y'"
  proof (rule ccontr)
    assume "\<not> y \<le> y'"
    then have "DayFromYear y' < DayFromYear y" by (simp add: DayFromYear_strict_mono)
    with le show False by simp
  qed
next
  assume "y \<le> y'"
  then show "DayFromYear y \<le> DayFromYear y'"
    using DayFromYear_strict_mono [of y y'] by (cases "y = y'") simp_all
qed

subsection \<open>The year of a day\<close>

lemma year_scan_correct:
  assumes "DayFromYear y \<le> d" and "d < DayFromYear (y + int n)"
  shows "DayFromYear (year_scan d y n) \<le> d \<and> d < DayFromYear (year_scan d y n + 1)"
  using assms
proof (induction n arbitrary: y)
  case 0
  then show ?case by simp
next
  case (Suc n)
  show ?case
  proof (cases "DayFromYear (y + 1) \<le> d")
    case True
    moreover have "d < DayFromYear (y + 1 + int n)"
      using Suc.prems(2) by (simp add: add.assoc)
    ultimately show ?thesis using Suc.IH [of "y + 1"] by simp
  next
    case False
    then show ?thesis using Suc.prems by simp
  qed
qed

lemma YearFromDay_bounds:
  "DayFromYear (YearFromDay d) \<le> d \<and> d < DayFromYear (YearFromDay d + 1)"
proof -
  define q where "q = d div 146097"
  have lo: "DayFromYear (1970 + 400 * q) = 146097 * q"
    using DayFromYear_cycles [of 1970 q] by simp
  have hi: "DayFromYear (1970 + 400 * q + int 400) = 146097 * q + 146097"
    using DayFromYear_cycles [of 1970 "q + 1"] by (simp add: algebra_simps)
  have e: "146097 * q + d mod 146097 = d" unfolding q_def by (rule mult_div_mod_eq)
  have "0 \<le> d mod 146097" "d mod 146097 < 146097" by simp_all
  with e lo hi have "DayFromYear (1970 + 400 * q) \<le> d"
    and "d < DayFromYear (1970 + 400 * q + int 400)" by linarith+
  then show ?thesis
    unfolding YearFromDay_def q_def by (rule year_scan_correct)
qed

text \<open>
  \<open>YearFromDay d\<close> is the largest year that starts on or before day \<open>d\<close>: a year
  starts no later than \<open>d\<close> exactly when it is not after \<open>YearFromDay d\<close>.
\<close>

lemma YearFromDay_greatest: "DayFromYear y \<le> d \<longleftrightarrow> y \<le> YearFromDay d"
proof
  assume "DayFromYear y \<le> d"
  then have "DayFromYear y < DayFromYear (YearFromDay d + 1)"
    using YearFromDay_bounds [of d] by linarith
  then have "\<not> DayFromYear (YearFromDay d + 1) \<le> DayFromYear y" by simp
  then show "y \<le> YearFromDay d" by (simp add: DayFromYear_le_iff)
next
  assume "y \<le> YearFromDay d"
  then have "DayFromYear y \<le> DayFromYear (YearFromDay d)" by (simp add: DayFromYear_le_iff)
  then show "DayFromYear y \<le> d" using YearFromDay_bounds [of d] by linarith
qed

lemma YearFromDay_eqI:
  assumes "DayFromYear y \<le> d" and "d < DayFromYear (y + 1)"
  shows "YearFromDay d = y"
proof -
  have "y \<le> YearFromDay d" using assms(1) by (simp add: YearFromDay_greatest)
  moreover have "\<not> y + 1 \<le> YearFromDay d"
    using assms(2) by (simp add: YearFromDay_greatest [symmetric])
  ultimately show ?thesis by simp
qed

lemma msPerDay_pos [simp]: "0 < msPerDay"
  by (simp add: msPerDay_def)

lemma YearFromTime_bounds:
  "DayFromYear (YearFromTime t) \<le> Day t \<and> Day t < DayFromYear (YearFromTime t + 1)"
  unfolding YearFromTime_def by (rule YearFromDay_bounds)

subsection \<open>Month, date and weekday\<close>

lemma DayWithinYear_bounds:
  "0 \<le> DayWithinYear t \<and> DayWithinYear t < 365 + InLeapYear t"
  using YearFromTime_bounds [of t] DayFromYear_Suc [of "YearFromTime t"]
    DaysInYear_range [of "YearFromTime t"]
  by (auto simp: DayWithinYear_def InLeapYear_def)

lemma month_of_dwy_range: "0 \<le> month_of_dwy l d \<and> month_of_dwy l d \<le> 11"
  by (simp add: month_of_dwy_def)

lemma MonthFromTime_range: "0 \<le> MonthFromTime t \<and> MonthFromTime t \<le> 11"
  by (simp add: MonthFromTime_def month_of_dwy_range)

lemma WeekDay_range: "0 \<le> WeekDay t \<and> WeekDay t \<le> 6"
  unfolding WeekDay_def by simp

text \<open>The number of days of month \<open>m\<close> in a year with \<open>l\<close> leap days.\<close>

definition days_in_month :: "int \<Rightarrow> int \<Rightarrow> int" where
  "days_in_month l m = month_start l (m + 1) - month_start l m"

lemma month_range_cases:
  assumes "0 \<le> m" "m \<le> (11::int)"
  shows "m \<in> {0, 1, 2, 3, 4, 5, 6, 7, 8, 9, 10, 11}"
proof -
  have "nat m < 12" using assms by simp
  then have "nat m \<in> {0, 1, 2, 3, 4, 5, 6, 7, 8, 9, 10, 11}" by (auto simp: less_Suc_eq numeral_eq_Suc)
  then show ?thesis using assms(1) by (auto simp: nat_eq_iff)
qed

text \<open>The day of the year lies in the month \<open>month_of_dwy\<close> names.\<close>

lemma month_of_dwy_start:
  assumes "0 \<le> d" "d < 365 + l" "0 \<le> l" "l \<le> 1"
  shows "month_start l (month_of_dwy l d) \<le> d \<and>
         d < month_start l (month_of_dwy l d + 1)"
  using assms by (simp add: month_of_dwy_def month_start_def)

lemma DateFromTime_range:
  "1 \<le> DateFromTime t \<and>
   DateFromTime t \<le> days_in_month (InLeapYear t) (MonthFromTime t)"
proof -
  have l: "0 \<le> InLeapYear t" "InLeapYear t \<le> 1" by (simp_all add: InLeapYear_def)
  show ?thesis
    using month_of_dwy_start [OF _ _ l, of "DayWithinYear t"] DayWithinYear_bounds [of t]
    by (simp add: DateFromTime_def MonthFromTime_def days_in_month_def)
qed

lemma YearFromTime_greatest: "TimeFromYear y \<le> t \<longleftrightarrow> y \<le> YearFromTime t"
  by (simp add: TimeFromYear_def YearFromTime_def Day_def mult_le_iff_le_div_int
      YearFromDay_greatest)

lemma days_in_month_le_31:
  assumes "0 \<le> m" "m \<le> 11" "0 \<le> l" "l \<le> 1"
  shows "days_in_month l m \<le> 31"
  using month_range_cases [OF assms(1,2)] assms(3,4)
  by (auto simp: days_in_month_def month_start_def)

subsection \<open>Round trip through MakeDay\<close>

theorem MakeDay_components:
  "MakeDay (YearFromTime t) (MonthFromTime t) (DateFromTime t) = Day t"
proof -
  have m: "MonthFromTime t div 12 = 0" "MonthFromTime t mod 12 = MonthFromTime t"
    using MonthFromTime_range [of t] by simp_all
  show ?thesis
    by (simp add: MakeDay_def m DateFromTime_def DayWithinYear_def InLeapYear_def)
qed

end
