(* ===== verification/DateFormat.thy ===== *)
theory DateFormat
  imports Calendar
begin

text \<open>
  \<open>formatDate\<close> of \<^verbatim>\<open>src/src/index.ts\<close> (lines 39--44) with its two tables
  \<open>DAYS_OF_THE_WEEK\<close> and \<open>MONTH_OF_THE_YEAR\<close> (lines 5--19). It builds a \<open>Date\<close>
  from the timestamp (\<open>TimeClip\<close>), reads weekday, month, day of the month and year in
  local time, indexes the two tables with the first two and interpolates everything into
  \<open>"<Weekday>, <Month> <Day>, <Year>"\<close>. An index outside a table reads
  \<open>undefined\<close>, which the template prints as \<open>undefined\<close>; a getter of an invalid
  date returns \<open>NaN\<close>. The theory proves that a valid date never reaches either case,
  what an invalid one prints, that the printed text of a valid date reads back
  (\<open>read_formatted_date\<close>) to its weekday, month, day and year, and evaluates the
  function on fixed timestamps.
\<close>

definition DAYS_OF_THE_WEEK :: "js_string list" where
  "DAYS_OF_THE_WEEK = [''Sun'', ''Mon'', ''Tue'', ''Wed'', ''Thur'', ''Fri'', ''Sat'']"

definition MONTH_OF_THE_YEAR :: "js_string list" where
  "MONTH_OF_THE_YEAR =
     [''Jan'', ''Feb'', ''Mar'', ''Apr'', ''May'', ''Jun'', ''Jul'', ''Aug'', ''Sept'', ''Oct'',
      ''Nov'', ''Dec'']"

text \<open>\<open>arr[i]\<close> for a number \<open>i\<close>: \<open>None\<close> is \<open>undefined\<close>.\<close>

definition js_array_get :: "'a list \<Rightarrow> js_int \<Rightarrow> 'a option" where
  "js_array_get xs i =
     (case i of None \<Rightarrow> None
      | Some k \<Rightarrow> if 0 \<le> k \<and> k < int (length xs) then Some (xs ! nat k) else None)"

text \<open>\<open>${v}\<close> for a string or \<open>undefined\<close>.\<close>

definition js_str_of_opt :: "js_string option \<Rightarrow> js_string" where
  "js_str_of_opt v = (case v of None \<Rightarrow> ''undefined'' | Some s \<Rightarrow> s)"

text \<open>The four \<open>Date.prototype\<close> getters on a time value (\<open>None\<close> is \<open>NaN\<close>).\<close>

definition date_getDay :: "tz_offset \<Rightarrow> js_int \<Rightarrow> js_int" where
  "date_getDay tz tv = map_option (\<lambda>t. WeekDay (LocalTime tz t)) tv"

definition date_getMonth :: "tz_offset \<Rightarrow> js_int \<Rightarrow> js_int" where
  "date_getMonth tz tv = map_option (\<lambda>t. MonthFromTime (LocalTime tz t)) tv"

definition date_getDate :: "tz_offset \<Rightarrow> js_int \<Rightarrow> js_int" where
  "date_getDate tz tv = map_option (\<lambda>t. DateFromTime (LocalTime tz t)) tv"

definition date_getFullYear :: "tz_offset \<Rightarrow> js_int \<Rightarrow> js_int" where
  "date_getFullYear tz tv = map_option (\<lambda>t. YearFromTime (LocalTime tz t)) tv"

definition formatDate :: "tz_offset \<Rightarrow> js_int \<Rightarrow> js_string" where
  "formatDate tz timestamp =
     (let date = TimeClip timestamp
      in js_str_of_opt (js_array_get DAYS_OF_THE_WEEK (date_getDay tz date)) @ '', '' @
         js_str_of_opt (js_array_get MONTH_OF_THE_YEAR (date_getMonth tz date)) @ '' '' @
         js_num_str (date_getDate tz date) @ '', '' @
         js_num_str (date_getFullYear tz date))"

text \<open>
  Reading the printed date back (a reference reader, not code of the repository): the
  weekday name up to the comma, the month name up to the blank, the day up to the next
  comma and the year, the two names looked up in the tables.
\<close>

fun index_of :: "'a \<Rightarrow> 'a list \<Rightarrow> nat option" where
  "index_of x [] = None"
| "index_of x (y # ys) = (if x = y then Some 0 else map_option Suc (index_of x ys))"

definition read_int :: "string \<Rightarrow> int" where
  "read_int s = (if s \<noteq> [] \<and> hd s = CHR ''-'' then - int (read_digits (tl s)) else int (read_digits s))"

definition read_formatted_date :: "string \<Rightarrow> (int \<times> int \<times> int \<times> int) option" where
  "read_formatted_date s =
     (let w = takeWhile (\<lambda>c. c \<noteq> CHR '','') s; r1 = drop (length w + 2) s;
          m = takeWhile (\<lambda>c. c \<noteq> CHR '' '') r1; r2 = drop (length m + 1) r1;
          d = takeWhile (\<lambda>c. c \<noteq> CHR '','') r2; y = drop (length d + 2) r2
      in case (index_of w DAYS_OF_THE_WEEK, index_of m MONTH_OF_THE_YEAR) of
           (Some wi, Some mi) \<Rightarrow> Some (int wi, int mi, read_int d, read_int y)
         | _ \<Rightarrow> None)"

subsection \<open>Lemmas\<close>

lemma length_tables [simp]:
  "length DAYS_OF_THE_WEEK = 7" "length MONTH_OF_THE_YEAR = 12"
  by (simp_all add: DAYS_OF_THE_WEEK_def MONTH_OF_THE_YEAR_def)

lemma js_array_get_in_range:
  "0 \<le> k \<Longrightarrow> k < int (length xs) \<Longrightarrow> js_array_get xs (Some k) = Some (xs ! nat k)"
  by (simp add: js_array_get_def)

lemma weekday_lookup [simp]:
  "js_array_get DAYS_OF_THE_WEEK (Some (WeekDay t)) = Some (DAYS_OF_THE_WEEK ! nat (WeekDay t))"
  using WeekDay_range [of t] by (simp add: js_array_get_in_range)

lemma month_lookup [simp]:
  "js_array_get MONTH_OF_THE_YEAR (Some (MonthFromTime t)) =
     Some (MONTH_OF_THE_YEAR ! nat (MonthFromTime t))"
  using MonthFromTime_range [of t] by (simp add: js_array_get_in_range)

lemmas date_getters_def = date_getDay_def date_getMonth_def date_getDate_def date_getFullYear_def

lemma TimeClip_Some_iff:
  "TimeClip v = Some t \<longleftrightarrow> v = Some t \<and> \<bar>t\<bar> \<le> 8640000000000000"
  by (auto simp: TimeClip_def split: option.splits if_splits)

subsection \<open>What formatDate prints\<close>

text \<open>
  For a valid date every table index is in range: the weekday and month names are
  table entries, and the day and the year are printed as integers.
\<close>

lemma formatDate_valid:
  assumes "TimeClip ts = Some t"
  shows "formatDate tz ts =
           (let lt = LocalTime tz t
            in DAYS_OF_THE_WEEK ! nat (WeekDay lt) @ '', '' @
               MONTH_OF_THE_YEAR ! nat (MonthFromTime lt) @ '' '' @
               int_str (DateFromTime lt) @ '', '' @ int_str (YearFromTime lt))"
  using assms
  by (simp add: formatDate_def date_getters_def js_str_of_opt_def js_num_str_def Let_def)

text \<open>
  C26. For a timestamp that is not a valid date (\<open>undefined\<close>, or beyond
  \<open>8.64e15\<close> ms) every getter returns \<open>NaN\<close> and the date prints as
  \<open>undefined, undefined NaN, NaN\<close>; nothing is raised.
\<close>

theorem formatDate_invalid:
  assumes "TimeClip ts = None"
  shows "formatDate tz ts = ''undefined, undefined NaN, NaN''"
  using assms
  by (simp add: formatDate_def date_getters_def js_array_get_def js_str_of_opt_def
      js_num_str_def)

theorem formatDate_invalid_witness:
  "formatDate (\<lambda>_. 0) (Some 9000000000000000) = ''undefined, undefined NaN, NaN''"
  by (rule formatDate_invalid) (simp add: TimeClip_def)

text \<open>
  The month table spells September \<open>Sept\<close> and Thursday is \<open>Thur\<close>: the date of the
  specification's example prints as \<open>Sat, Sept 18, 2021\<close>, not \<open>Sat, Sep 18, 2021\<close>.
\<close>

theorem formatDate_examples:
  "formatDate (\<lambda>_. 0) (Some 1631923200000) = ''Sat, Sept 18, 2021'' \<and>
   formatDate (\<lambda>_. 0) (Some 0) = ''Thur, Jan 1, 1970''"
  by code_simp

subsection \<open>The calendar as the getters read it\<close>

text \<open>
  The year \<open>getFullYear\<close> returns is the one ECMA-262 defines: the largest year whose
  first instant is not after the local time.
\<close>

theorem getFullYear_greatest:
  assumes "date_getFullYear tz (Some t) = Some y"
  shows "TimeFromYear y' \<le> LocalTime tz t \<longleftrightarrow> y' \<le> y"
  using assms by (simp add: date_getFullYear_def YearFromTime_greatest)

theorem getFullYear_greatest_witness:
  "TimeFromYear 2021 \<le> LocalTime (\<lambda>_. 0) 1631923200000 \<and>
   \<not> TimeFromYear 2022 \<le> LocalTime (\<lambda>_. 0) 1631923200000"
proof -
  have y: "date_getFullYear (\<lambda>_. 0) (Some 1631923200000) = Some 2021"
    by code_simp
  show ?thesis
    using getFullYear_greatest [OF y, of 2021] getFullYear_greatest [OF y, of 2022] by simp
qed

text \<open>
  Year, month and day of the month that the getters return determine the day:
  \<open>MakeDay\<close> of the three is the local day number.
\<close>

theorem getters_MakeDay:
  assumes "date_getFullYear tz (Some t) = Some y" and "date_getMonth tz (Some t) = Some m"
    and "date_getDate tz (Some t) = Some d"
  shows "MakeDay y m d = Day (LocalTime tz t)"
  using assms MakeDay_components [of "LocalTime tz t"] by (simp add: date_getters_def)

theorem getters_MakeDay_witness:
  "MakeDay 2021 8 18 = Day (LocalTime (\<lambda>_. 0) 1631923200000)"
proof -
  have "date_getFullYear (\<lambda>_. 0) (Some 1631923200000) = Some 2021"
    "date_getMonth (\<lambda>_. 0) (Some 1631923200000) = Some 8"
    "date_getDate (\<lambda>_. 0) (Some 1631923200000) = Some 18"
    by code_simp+
  then show ?thesis by (rule getters_MakeDay)
qed

text \<open>The day \<open>getDate\<close> returns lies within the month \<open>getMonth\<close> returns.\<close>

theorem getDate_in_month:
  assumes "date_getMonth tz (Some t) = Some m" and "date_getDate tz (Some t) = Some d"
  shows "0 \<le> m \<and> m \<le> 11 \<and> 1 \<le> d \<and> d \<le> days_in_month (InLeapYear (LocalTime tz t)) m \<and> d \<le> 31"
proof -
  have l: "0 \<le> InLeapYear (LocalTime tz t)" "InLeapYear (LocalTime tz t) \<le> 1"
    by (simp_all add: InLeapYear_def)
  have m: "m = MonthFromTime (LocalTime tz t)" and d: "d = DateFromTime (LocalTime tz t)"
    using assms by (auto simp: date_getters_def)
  show ?thesis
    using MonthFromTime_range [of "LocalTime tz t"] DateFromTime_range [of "LocalTime tz t"]
      days_in_month_le_31 [OF _ _ l, of m] m d
    by auto
qed

theorem getDate_in_month_witness:
  "0 \<le> (1::int) \<and> (1::int) \<le> 11 \<and> 1 \<le> (29::int) \<and>
   (29::int) \<le> days_in_month (InLeapYear (LocalTime (\<lambda>_. 0) 951782400000)) 1 \<and> (29::int) \<le> 31"
proof -
  have "date_getMonth (\<lambda>_. 0) (Some 951782400000) = Some 1"
    "date_getDate (\<lambda>_. 0) (Some 951782400000) = Some 29"
    by code_simp+
  then show ?thesis by (rule getDate_in_month)
qed


text \<open>
  The date is printed in the host's time zone: the timestamp of the specification's
  example prints as the day before in UTC-5.
\<close>

theorem formatDate_time_zone:
  "formatDate (\<lambda>_. -18000000) (Some 1631923200000) = ''Fri, Sept 17, 2021''"
  by code_simp

text \<open>
  Consecutive days have consecutive weekdays: when the zone offset is the same a day
  later, \<open>getDay\<close> of the next day is the next index of \<open>DAYS_OF_THE_WEEK\<close>,
  modulo 7.
\<close>

theorem getDay_next_day:
  assumes "tz (t + msPerDay) = tz t"
  shows "date_getDay tz (Some (t + msPerDay)) = map_option (\<lambda>w. (w + 1) mod 7) (date_getDay tz (Some t))"
proof -
  define D where "D = (t + tz t) div msPerDay"
  have "(t + msPerDay + tz t) div msPerDay = D + 1"
    by (simp add: msPerDay_def D_def)
  moreover have "((D + 4) mod 7 + 1) mod 7 = (D + 1 + 4) mod 7"
    by (metis add.commute add.left_commute mod_add_right_eq)
  ultimately show ?thesis using assms
    by (simp add: date_getDay_def WeekDay_def LocalTime_def Day_def D_def add.commute add.left_commute)
qed

theorem getDay_next_day_witness:
  "date_getDay (\<lambda>_. 0) (Some (0 + msPerDay)) = map_option (\<lambda>w. (w + 1) mod 7) (date_getDay (\<lambda>_. 0) (Some 0))"
  by (rule getDay_next_day) simp


subsection \<open>Reading the date back\<close>

lemma index_of_nth: "distinct xs \<Longrightarrow> i < length xs \<Longrightarrow> index_of (xs ! i) xs = Some i"
proof (induction xs arbitrary: i)
  case Nil
  then show ?case by simp
next
  case (Cons y ys)
  then show ?case by (cases i) (auto simp: nth_mem)
qed

lemma takeWhile_upto: "c \<notin> set a \<Longrightarrow> takeWhile (\<lambda>x. x \<noteq> c) (a @ c # b) = a"
  by (induction a) auto

lemma int_str_no_sep: "x \<in> set (int_str i) \<Longrightarrow> x \<noteq> CHR '','' \<and> x \<noteq> CHR '' ''"
  by (auto simp: int_str_def is_digit_def dest!: digits_of_nat_digits split: if_splits)

lemma read_int_int_str: "read_int (int_str i) = i"
proof -
  have "digits_of_nat n \<noteq> [] \<and> hd (digits_of_nat n) \<noteq> CHR ''-''" for n
    using digits_of_nat_nonempty [of n] digits_of_nat_digits [of "hd (digits_of_nat n)" n]
    by (auto simp: is_digit_def)
  then show ?thesis by (auto simp: read_int_def int_str_def)
qed

lemma tables_no_sep:
  "\<forall>w \<in> set DAYS_OF_THE_WEEK. CHR '','' \<notin> set w \<and> CHR '' '' \<notin> set w"
  "\<forall>w \<in> set MONTH_OF_THE_YEAR. CHR '','' \<notin> set w \<and> CHR '' '' \<notin> set w"
  "distinct DAYS_OF_THE_WEEK" "distinct MONTH_OF_THE_YEAR"
  by (simp_all add: DAYS_OF_THE_WEEK_def MONTH_OF_THE_YEAR_def)

lemma read_formatted_date_parts:
  assumes "wi < 7" "mi < 12"
  shows "read_formatted_date (DAYS_OF_THE_WEEK ! wi @ '', '' @ MONTH_OF_THE_YEAR ! mi @ '' '' @
           int_str d @ '', '' @ int_str y) = Some (int wi, int mi, d, y)"
proof -
  let ?w = "DAYS_OF_THE_WEEK ! wi" and ?m = "MONTH_OF_THE_YEAR ! mi"
  have w: "CHR '','' \<notin> set ?w" using tables_no_sep(1) assms(1) by (simp add: nth_mem)
  have m: "CHR '' '' \<notin> set ?m" using tables_no_sep(2) assms(2) by (simp add: nth_mem)
  have d: "CHR '','' \<notin> set (int_str d)" using int_str_no_sep by blast
  have iw: "index_of ?w DAYS_OF_THE_WEEK = Some wi" using assms tables_no_sep(3) by (simp add: index_of_nth)
  have im: "index_of ?m MONTH_OF_THE_YEAR = Some mi" using assms tables_no_sep(4) by (simp add: index_of_nth)
  show ?thesis
    using w m d iw im
    by (simp add: read_formatted_date_def Let_def takeWhile_upto read_int_int_str)
qed

text \<open>
  C25. The printed date of a valid timestamp reads back: its weekday and month names are
  those at the indices \<open>getDay\<close> and \<open>getMonth\<close> return, and its day and year are
  those \<open>getDate\<close> and \<open>getFullYear\<close> return, so the string determines the local
  calendar day.
\<close>

theorem formatDate_read_back:
  assumes "TimeClip ts = Some t"
  shows "read_formatted_date (formatDate tz ts) =
           Some (WeekDay (LocalTime tz t), MonthFromTime (LocalTime tz t),
                 DateFromTime (LocalTime tz t), YearFromTime (LocalTime tz t))"
proof -
  let ?lt = "LocalTime tz t"
  have w: "nat (WeekDay ?lt) < 7" "int (nat (WeekDay ?lt)) = WeekDay ?lt"
    using WeekDay_range [of ?lt] by auto
  have m: "nat (MonthFromTime ?lt) < 12" "int (nat (MonthFromTime ?lt)) = MonthFromTime ?lt"
    using MonthFromTime_range [of ?lt] by auto
  show ?thesis
    using formatDate_valid [OF assms, of tz] read_formatted_date_parts [OF w(1) m(1)] w(2) m(2)
    by (simp add: Let_def)
qed

theorem formatDate_read_back_witness:
  "read_formatted_date (formatDate (\<lambda>_. 0) (Some 1631923200000)) =
     Some (WeekDay (LocalTime (\<lambda>_. 0) 1631923200000), MonthFromTime (LocalTime (\<lambda>_. 0) 1631923200000),
           DateFromTime (LocalTime (\<lambda>_. 0) 1631923200000), YearFromTime (LocalTime (\<lambda>_. 0) 1631923200000))"
  by (rule formatDate_read_back) (simp add: TimeClip_def)

end
