(* ===== verification/JsNumber.thy ===== *)
theory JsNumber
  imports Prelude
begin

text \<open>
  JavaScript numbers on integral values, as far as the \<open>Amount (no decimals)\<close> column
  needs them (ECMA-262, modelled from the standard). The amount of a response is a
  number: JSON.parse gives the integer literal's nearest binary64 value, rounding to a
  53-bit significand with ties to even (\<open>js_number_of_int\<close>); \<open>new bignumber(amount)\<close>
  reads the number through \<open>String(amount)\<close>, the shortest decimal that rounds back to
  the same number, the closest such decimal and the even one on a tie
  (Number::toString; \<open>number_string_value\<close> is the value that string denotes).
  Integers up to \<open>2^53\<close> are numbers and print exactly; above, both steps lose digits.
  The exponent range is not bounded: a literal beyond the largest finite number, which
  JSON.parse turns into \<open>Infinity\<close>, is not modelled.
\<close>

text \<open>The multiple of \<open>u\<close> nearest to \<open>n\<close>, the even multiple on a tie.\<close>

definition round_to_mult :: "nat \<Rightarrow> nat \<Rightarrow> nat" where
  "round_to_mult u n =
     (let q = n div u; r = n mod u
      in if u < 2 * r \<or> (2 * r = u \<and> odd q) then (q + 1) * u else q * u)"

text \<open>The number of binary digits of \<open>n\<close>.\<close>

fun bin_len :: "nat \<Rightarrow> nat" where
  "bin_len n = (if n = 0 then 0 else Suc (bin_len (n div 2)))"

declare bin_len.simps [simp del]

text \<open>
  The binary64 value nearest to \<open>n\<close>: below \<open>2^53\<close> every integer is one; a number of
  \<open>b\<close> bits keeps 53 of them, so it is rounded to a multiple of \<open>2^(b-53)\<close>.
\<close>

definition double_round_nat :: "nat \<Rightarrow> nat" where
  "double_round_nat n = (if n < 2 ^ 53 then n else round_to_mult (2 ^ (bin_len n - 53)) n)"

definition js_number_of_int :: "int \<Rightarrow> int" where
  "js_number_of_int i = sgn i * int (double_round_nat (nat \<bar>i\<bar>))"

text \<open>
  Number::toString of an integral number \<open>x\<close>: the multiples of \<open>10^p\<close> around
  \<open>x\<close> that round back to \<open>x\<close>, the closer one (the even quotient on a tie); the
  search starts with the largest \<open>p\<close>, so that the decimal has as few significant
  digits as possible.
\<close>

definition nearest_mult_valid :: "nat \<Rightarrow> nat \<Rightarrow> nat option" where
  "nearest_mult_valid u x =
     (let lo = x div u * u; hi = lo + u;
          ok_lo = (double_round_nat lo = x); ok_hi = (double_round_nat hi = x)
      in if ok_lo \<and> ok_hi
         then Some (if x - lo < hi - x then lo else if hi - x < x - lo then hi
                    else if even (x div u) then lo else hi)
         else if ok_lo then Some lo else if ok_hi then Some hi else None)"

fun shortest_from :: "nat \<Rightarrow> nat \<Rightarrow> nat" where
  "shortest_from 0 x = x"
| "shortest_from (Suc p) x =
     (case nearest_mult_valid (10 ^ Suc p) x of Some c \<Rightarrow> c | None \<Rightarrow> shortest_from p x)"

text \<open>The value of the decimal \<open>String(x)\<close> prints for the number nearest to \<open>i\<close>.\<close>

definition number_string_value :: "int \<Rightarrow> int" where
  "number_string_value i =
     (let x = double_round_nat (nat \<bar>i\<bar>) in sgn i * int (shortest_from (length (digits_of_nat x)) x))"

lemma shortest_from_numeral [simp]:
  "shortest_from (numeral k) x =
     (case nearest_mult_valid (10 ^ numeral k) x of Some c \<Rightarrow> c | None \<Rightarrow> shortest_from (pred_numeral k) x)"
  by (simp add: numeral_eq_Suc)

subsection \<open>Binary length\<close>

lemma bin_len_0 [simp]: "bin_len 0 = 0"
  by (simp add: bin_len.simps)

lemma bin_len_pos: "0 < n \<Longrightarrow> bin_len n = Suc (bin_len (n div 2))"
  by (simp add: bin_len.simps [of n])

lemma bin_len_1 [simp]: "bin_len (Suc 0) = 1"
  by (simp add: bin_len.simps [of "Suc 0"])

lemma bin_len_numeral [simp]: "bin_len (numeral k) = Suc (bin_len (numeral k div 2))"
  by (simp add: bin_len_pos)

lemma bin_len_bounds: "0 < n \<Longrightarrow> 2 ^ (bin_len n - 1) \<le> n \<and> n < 2 ^ bin_len n"
proof (induction n rule: bin_len.induct)
  case (1 n)
  show ?case
  proof (cases "n div 2 = 0")
    case True
    with "1.prems" have "n = 1" by linarith
    then show ?thesis by simp
  next
    case False
    then have "2 ^ (bin_len (n div 2) - 1) \<le> n div 2 \<and> n div 2 < 2 ^ bin_len (n div 2)"
      using "1.IH" "1.prems" by simp
    moreover have "0 < bin_len (n div 2)" using False by (simp add: bin_len_pos)
    ultimately show ?thesis using "1.prems"
      by (cases "bin_len (n div 2)") (auto simp: power_Suc bin_len_pos)
  qed
qed

lemma bin_len_eqI:
  assumes "2 ^ (b - 1) \<le> n" and "n < 2 ^ b" and "0 < b"
  shows "bin_len n = b"
proof -
  have "0 < (2::nat) ^ (b - 1)" by simp
  with assms(1) have n: "0 < n" by linarith
  note bl = bin_len_bounds [OF n]
  have "(2::nat) ^ (b - 1) < 2 ^ bin_len n" using assms(1) bl by linarith
  then have "b - 1 < bin_len n" by simp
  moreover have "(2::nat) ^ (bin_len n - 1) < 2 ^ b" using assms(2) bl by linarith
  then have "bin_len n - 1 < b" by simp
  ultimately show ?thesis using assms(3) by linarith
qed

lemma bin_len_ge: "2 ^ 53 \<le> n \<Longrightarrow> 54 \<le> bin_len n"
proof -
  assume n: "2 ^ 53 \<le> n"
  then have "(2::nat) ^ 53 < 2 ^ bin_len n" using bin_len_bounds [of n] by simp
  then have "53 < bin_len n" by (rule power_less_imp_less_exp [rotated]) simp
  then show ?thesis by simp
qed

subsection \<open>Rounding to a multiple\<close>

lemma round_to_mult_bounds:
  "n div u * u \<le> round_to_mult u n \<and> round_to_mult u n \<le> (n div u + 1) * u"
  by (simp add: round_to_mult_def Let_def)

lemma round_to_mult_mono:
  assumes "0 < u" and "n \<le> n'"
  shows "round_to_mult u n \<le> round_to_mult u n'"
proof (cases "n div u = n' div u")
  case True
  define q where "q = n div u"
  have "n = q * u + n mod u" by (simp add: q_def)
  moreover have "n' = q * u + n' mod u" using True by (simp add: q_def)
  ultimately have "n mod u \<le> n' mod u" using assms(2) by linarith
  with True show ?thesis by (auto simp: round_to_mult_def Let_def)
next
  case False
  then have "n div u + 1 \<le> n' div u" using div_le_mono [OF assms(2), of u] by linarith
  then have "(n div u + 1) * u \<le> n' div u * u" by (rule mult_le_mono1)
  then show ?thesis using round_to_mult_bounds [of n u] round_to_mult_bounds [of n' u] by linarith
qed

lemma round_to_mult_dvd: "0 < u \<Longrightarrow> u dvd n \<Longrightarrow> round_to_mult u n = n"
  by (simp add: round_to_mult_def Let_def)

lemma dvd_round_to_mult: "u dvd round_to_mult u n"
  by (simp add: round_to_mult_def Let_def)

subsection \<open>The nearest binary64 value\<close>

lemma double_round_nat_small [simp]: "n < 2 ^ 53 \<Longrightarrow> double_round_nat n = n"
  by (simp add: double_round_nat_def)

lemma double_round_nat_binade:
  assumes "2 ^ 53 \<le> n"
  shows "2 ^ (bin_len n - 1) \<le> double_round_nat n \<and> double_round_nat n \<le> 2 ^ bin_len n"
proof -
  let ?b = "bin_len n" and ?u = "2 ^ (bin_len n - 53) :: nat"
  have b: "54 \<le> ?b" using assms by (rule bin_len_ge)
  have n: "2 ^ (?b - 1) \<le> n \<and> n < 2 ^ ?b" using assms by (intro bin_len_bounds) simp
  have d1: "?u dvd 2 ^ (?b - 1)" and d2: "?u dvd 2 ^ ?b" using b by (simp_all add: le_imp_power_dvd)
  have "round_to_mult ?u (2 ^ (?b - 1)) \<le> round_to_mult ?u n"
    using n by (intro round_to_mult_mono) simp_all
  moreover have "round_to_mult ?u n \<le> round_to_mult ?u (2 ^ ?b)"
    using n by (intro round_to_mult_mono) simp_all
  moreover have "double_round_nat n = round_to_mult ?u n" using assms by (simp add: double_round_nat_def)
  ultimately show ?thesis using d1 d2 by (simp add: round_to_mult_dvd)
qed

lemma double_round_nat_ge: "2 ^ 53 \<le> n \<Longrightarrow> 2 ^ 53 \<le> double_round_nat n"
proof -
  assume n: "2 ^ 53 \<le> n"
  have "(2::nat) ^ 53 \<le> 2 ^ (bin_len n - 1)" using bin_len_ge [OF n] by (intro power_increasing) simp_all
  with double_round_nat_binade [OF n] show ?thesis by linarith
qed

lemma double_round_nat_mono:
  assumes "n \<le> n'"
  shows "double_round_nat n \<le> double_round_nat n'"
proof (cases "n' < 2 ^ 53")
  case True
  with assms show ?thesis by simp
next
  case n': False
  then have big': "2 ^ 53 \<le> n'" by simp
  note r' = double_round_nat_binade [OF big']
  have b': "54 \<le> bin_len n'" using big' by (rule bin_len_ge)
  show ?thesis
  proof (cases "n < 2 ^ 53")
    case True
    have "(2::nat) ^ 53 \<le> 2 ^ (bin_len n' - 1)" using b' by (intro power_increasing) simp_all
    with True r' show ?thesis by simp
  next
    case False
    then have big: "2 ^ 53 \<le> n" by simp
    note r = double_round_nat_binade [OF big]
    have bn: "2 ^ (bin_len n - 1) \<le> n" and bn': "n' < 2 ^ bin_len n'"
      using bin_len_bounds [of n] bin_len_bounds [of n'] big big' by simp_all
    then have "(2::nat) ^ (bin_len n - 1) < 2 ^ bin_len n'" using assms by linarith
    then have le: "bin_len n \<le> bin_len n'" by simp
    show ?thesis
    proof (cases "bin_len n = bin_len n'")
      case True
      with big big' assms show ?thesis
        by (simp add: double_round_nat_def round_to_mult_mono)
    next
      case False
      with le have "bin_len n \<le> bin_len n' - 1" by simp
      then have "(2::nat) ^ bin_len n \<le> 2 ^ (bin_len n' - 1)" by (simp add: power_increasing)
      with r r' show ?thesis by linarith
    qed
  qed
qed

lemma double_round_nat_idem [simp]: "double_round_nat (double_round_nat n) = double_round_nat n"
proof (cases "n < 2 ^ 53")
  case True
  then show ?thesis by simp
next
  case False
  let ?b = "bin_len n" and ?r = "double_round_nat n"
  have big: "2 ^ 53 \<le> n" using False by simp
  have b: "54 \<le> ?b" using big by (rule bin_len_ge)
  note bd = double_round_nat_binade [OF big]
  have r53: "\<not> ?r < 2 ^ 53" using double_round_nat_ge [OF big] by simp
  have dv: "2 ^ (?b - 53) dvd ?r"
    using False dvd_round_to_mult by (simp add: double_round_nat_def)
  have unf: "double_round_nat ?r = round_to_mult (2 ^ (bin_len ?r - 53)) ?r"
    unfolding double_round_nat_def [of ?r] using r53 by simp
  show ?thesis
  proof (cases "?r = 2 ^ ?b")
    case True
    have "bin_len ?r = Suc ?b" using True by (intro bin_len_eqI) simp_all
    moreover have "(2::nat) ^ (Suc ?b - 53) dvd 2 ^ ?b" using b by (simp add: le_imp_power_dvd)
    ultimately show ?thesis using unf True by (simp add: round_to_mult_dvd)
  next
    case False
    then have "?r < 2 ^ ?b" using bd by simp
    then have "bin_len ?r = ?b" using bd b by (intro bin_len_eqI) simp_all
    then show ?thesis using unf dv by (simp add: round_to_mult_dvd)
  qed
qed

subsection \<open>The shortest decimal\<close>

lemma nearest_mult_valid_ok: "nearest_mult_valid u x = Some c \<Longrightarrow> double_round_nat c = x"
  by (auto simp: nearest_mult_valid_def Let_def split: if_splits)

lemma shortest_from_valid: "double_round_nat x = x \<Longrightarrow> double_round_nat (shortest_from p x) = x"
  by (induction p) (auto split: option.splits dest: nearest_mult_valid_ok)

lemma shortest_from_safe:
  assumes "x < 2 ^ 53"
  shows "shortest_from p x = x"
proof -
  let ?c = "shortest_from p x"
  have c: "double_round_nat ?c = x" using shortest_from_valid assms by simp
  have "?c < 2 ^ 53"
  proof (rule ccontr)
    assume "\<not> ?c < 2 ^ 53"
    then have "2 ^ 53 \<le> double_round_nat ?c" by (intro double_round_nat_ge) simp
    with c assms show False by simp
  qed
  with c show ?thesis by simp
qed

subsection \<open>Integral values\<close>

lemma nat_abs_less_pow: "\<bar>i\<bar> < 2 ^ 53 \<Longrightarrow> nat \<bar>i\<bar> < 2 ^ 53"
  by (simp add: nat_less_iff)

lemma js_number_of_int_safe: "\<bar>i\<bar> < 2 ^ 53 \<Longrightarrow> js_number_of_int i = i"
  by (simp add: js_number_of_int_def nat_abs_less_pow sgn_mult_abs)

lemma number_string_value_safe: "\<bar>i\<bar> < 2 ^ 53 \<Longrightarrow> number_string_value i = i"
  by (simp add: number_string_value_def nat_abs_less_pow shortest_from_safe sgn_mult_abs)

text \<open>The number nearest to \<open>10^27\<close> lies above it and prints as \<open>1e+27\<close>.\<close>

lemma double_round_10_27:
  "double_round_nat 1000000000000000000000000000 = 1000000000000000013287555072"
  by (simp add: double_round_nat_def round_to_mult_def Let_def)

lemma shortest_10_27:
  "shortest_from (length (digits_of_nat 1000000000000000013287555072)) 1000000000000000013287555072 = 10 ^ 27"
proof -
  have "length (digits_of_nat 1000000000000000013287555072) = 28" by (simp add: length_digits_of_nat)
  then show ?thesis by (simp add: nearest_mult_valid_def double_round_nat_def round_to_mult_def Let_def)
qed

lemma number_string_value_large:
  assumes "10 ^ 27 \<le> \<bar>i\<bar>"
  shows "10 ^ 27 \<le> \<bar>number_string_value i\<bar>"
proof -
  define x where "x = double_round_nat (nat \<bar>i\<bar>)"
  define c where "c = shortest_from (length (digits_of_nat x)) x"
  have "10 ^ 27 \<le> nat \<bar>i\<bar>" using assms by (simp add: le_nat_iff)
  then have xm: "1000000000000000013287555072 \<le> x"
    using double_round_nat_mono [of "10 ^ 27" "nat \<bar>i\<bar>"] double_round_10_27 by (simp add: x_def)
  have cx: "double_round_nat c = x" using shortest_from_valid [of x] by (simp add: c_def x_def)
  have "10 ^ 27 \<le> c"
  proof (rule ccontr)
    assume lt: "\<not> 10 ^ 27 \<le> c"
    then have "double_round_nat c \<le> double_round_nat (10 ^ 27)" by (intro double_round_nat_mono) simp
    with cx xm have "x = 1000000000000000013287555072" by (simp add: double_round_10_27)
    with lt shortest_10_27 show False by (simp add: c_def)
  qed
  moreover have "i \<noteq> 0" using assms by auto
  ultimately show ?thesis
    by (simp add: number_string_value_def Let_def x_def [symmetric] c_def [symmetric] abs_mult)
qed

end
