(* ===== verification/Decimal.thy ===== *)
theory Decimal
  imports JsNumber
begin

text \<open>
  \<open>new bignumber(amount).dividedBy(bigDecimal).toString()\<close> with
  \<open>bigDecimal = new bignumber(10).exponentiatedBy(6)\<close>: the \<open>Amount (no decimals)\<close>
  column of \<^verbatim>\<open>src/src/index.ts\<close> (lines 82 and 88--90). The arithmetic is
  bignumber.js (a library, modelled from its documented behaviour): the quotient of an
  integer by \<open>10^6\<close> is exact (it has at most 6 decimals, below the default 20), and
  \<open>toString\<close> prints a number with coefficient digits \<open>c\<close> (no trailing zeros) and
  decimal exponent \<open>e\<close> in fixed-point notation when \<open>-7 < e < 21\<close> and in
  exponential notation otherwise (the default \<open>EXPONENTIAL_AT = [-7, 20]\<close>). The
  amount is a JavaScript number, and bignumber.js reads a number through
  \<open>String(amount)\<close> (\<open>number_string_value\<close> of \<open>JsNumber\<close>). An
  \<open>amount\<close> that is \<open>undefined\<close> gives \<open>NaN\<close>. The theory proves that below
  \<open>10^27\<close> the library's rendering equals the plain decimal rendering
  \<open>decimal_plain\<close> (integer part, point, fraction without trailing zeros), so that for
  a safe integer (below \<open>2^53\<close>) the column is that rendering of
  \<open>amount / 10^6\<close> and reads back to it exactly; from \<open>10^27\<close> on it is
  exponential. Between \<open>2^53\<close> and \<open>10^27\<close> the column renders the shortest
  decimal of the nearest number, not the amount.
\<close>

definition strip_zeros :: "string \<Rightarrow> string" where
  "strip_zeros s = rev (dropWhile (\<lambda>c. c = CHR ''0'') (rev s))"

text \<open>\<open>toFixedPoint(str, e, '0')\<close> of bignumber.js.\<close>

definition toFixedPoint :: "string \<Rightarrow> int \<Rightarrow> string" where
  "toFixedPoint str e =
     (if e < 0 then ''0.'' @ replicate (nat (- e - 1)) CHR ''0'' @ str
      else if int (length str) < e + 1 then str @ replicate (nat (e + 1 - int (length str))) CHR ''0''
      else if e + 1 < int (length str) then take (nat (e + 1)) str @ ''.'' @ drop (nat (e + 1)) str
      else str)"

text \<open>\<open>toExponential(str, e)\<close> of bignumber.js.\<close>

definition toExponential :: "string \<Rightarrow> int \<Rightarrow> string" where
  "toExponential str e =
     (if 1 < length str then [hd str] @ ''.'' @ tl str else str) @
     (if e < 0 then ''e'' else ''e+'') @ int_str e"

text \<open>
  \<open>toString()\<close> of the exact value \<open>m / 10^k\<close>: coefficient and exponent are those of
  the normalised value.
\<close>

definition bignumber_toString :: "int \<Rightarrow> nat \<Rightarrow> string" where
  "bignumber_toString m k =
     (if m = 0 then ''0''
      else let ds = digits_of_nat (nat \<bar>m\<bar>);
               c = strip_zeros ds;
               e = int (length ds) - 1 - int k;
               str = (if e \<le> -7 \<or> 21 \<le> e then toExponential c e else toFixedPoint c e)
           in if m < 0 then ''-'' @ str else str)"

text \<open>
  Lines 88--90: \<open>new bignumber(amount)\<close> of a number is the decimal \<open>String(amount)\<close>
  denotes; dividing it by \<open>10^6\<close> is exact; \<open>new bignumber(undefined)\<close> is
  \<open>NaN\<close>.
\<close>

definition no_decimal_amount :: "js_int \<Rightarrow> string" where
  "no_decimal_amount amount =
     (case amount of None \<Rightarrow> ''NaN'' | Some n \<Rightarrow> bignumber_toString (number_string_value n) 6)"

text \<open>
  The reference rendering of \<open>m / 10^k\<close>: the sign, the integer part, and the \<open>k\<close>
  fraction digits without their trailing zeros after a point when any remain.
\<close>

fun digits_fixed :: "nat \<Rightarrow> nat \<Rightarrow> string" where
  "digits_fixed 0 r = []"
| "digits_fixed (Suc k) r = digits_fixed k (r div 10) @ [digit_char (r mod 10)]"

definition decimal_plain :: "int \<Rightarrow> nat \<Rightarrow> string" where
  "decimal_plain m k =
     (let a = nat \<bar>m\<bar>; frac = strip_zeros (digits_fixed k (a mod 10 ^ k))
      in (if m < 0 then ''-'' else []) @ digits_of_nat (a div 10 ^ k) @
         (if frac = [] then [] else ''.'' @ frac))"

text \<open>Reading a decimal numeral back as the pair \<open>(m, k)\<close> that denotes \<open>m / 10^k\<close>.\<close>

definition read_decimal :: "string \<Rightarrow> int \<times> nat" where
  "read_decimal s =
     (let neg = (s \<noteq> [] \<and> hd s = CHR ''-'');
          body = (if neg then tl s else s);
          ip = takeWhile (\<lambda>c. c \<noteq> CHR ''.'') body;
          fp = drop 1 (dropWhile (\<lambda>c. c \<noteq> CHR ''.'') body);
          mag = int (read_digits (ip @ fp))
      in (if neg then - mag else mag, length fp))"

subsection \<open>Digits\<close>

lemma length_digits_fixed [simp]: "length (digits_fixed k r) = k"
  by (induction k arbitrary: r) simp_all

lemma digits_fixed_zero: "digits_fixed k 0 = replicate k CHR ''0''"
  by (induction k) (simp_all add: digit_char_def replicate_append_same)

lemma digits_of_nat_ge_10:
  "10 \<le> n \<Longrightarrow> digits_of_nat n = digits_of_nat (n div 10) @ [digit_char (n mod 10)]"
  by (simp add: digits_of_nat.simps [of n])

lemma digits_of_nat_concat:
  assumes "0 < q" "r < 10 ^ k"
  shows "digits_of_nat (q * 10 ^ k + r) = digits_of_nat q @ digits_fixed k r"
  using assms(2)
proof (induction k arbitrary: r)
  case 0
  then show ?case by simp
next
  case (Suc k)
  have "(10::nat) \<le> 10 ^ Suc k" by simp
  moreover have "1 * 10 ^ Suc k \<le> q * (10::nat) ^ Suc k"
    using assms(1) by (intro mult_le_mono1) simp
  ultimately have ge: "10 \<le> q * 10 ^ Suc k + r" by linarith
  have e: "q * 10 ^ Suc k + r = r + (q * 10 ^ k) * 10" by (simp add: algebra_simps)
  have dv: "(q * 10 ^ Suc k + r) div 10 = q * 10 ^ k + r div 10"
    unfolding e by simp
  have md: "(q * 10 ^ Suc k + r) mod 10 = r mod 10"
    unfolding e by simp
  have "r div 10 < 10 ^ k" using Suc.prems by (simp add: div_less_iff_less_mult power_Suc)
  then show ?case
    using ge dv md Suc.IH [of "r div 10"] by (simp add: digits_of_nat_ge_10)
qed

lemma digits_fixed_small:
  assumes "0 < a" "a < 10 ^ k"
  shows "digits_fixed k a = replicate (k - length (digits_of_nat a)) CHR ''0'' @ digits_of_nat a"
  using assms
proof (induction k arbitrary: a)
  case 0
  then show ?case by simp
next
  case (Suc k)
  show ?case
  proof (cases "a < 10")
    case True
    then show ?thesis
      by (simp add: digits_of_nat.simps [of a] digits_fixed_zero replicate_append_same)
  next
    case False
    then have "0 < a div 10" "a div 10 < 10 ^ k"
      using Suc.prems by (simp_all add: div_less_iff_less_mult power_Suc)
    with Suc.IH [of "a div 10"] False show ?thesis
      by (simp add: digits_of_nat_ge_10)
  qed
qed

lemma length_digits_of_nat_le:
  "n < 10 ^ j \<Longrightarrow> 0 < j \<Longrightarrow> length (digits_of_nat n) \<le> j"
proof (induction n arbitrary: j rule: digits_of_nat.induct)
  case (1 n)
  show ?case
  proof (cases "n < 10")
    case True
    with "1.prems" show ?thesis by (simp add: digits_of_nat.simps [of n])
  next
    case False
    have "\<not> j \<le> 1"
    proof
      assume "j \<le> 1"
      then have "(10::nat) ^ j \<le> 10 ^ 1" by (intro power_increasing) simp_all
      with "1.prems"(1) False show False by simp
    qed
    then obtain i where j: "j = Suc i" and i: "0 < i" by (cases j) auto
    then have "n div 10 < 10 ^ i"
      using "1.prems" by (simp add: div_less_iff_less_mult power_Suc mult.commute)
    with "1.IH" [OF False] i j False show ?thesis by (simp add: digits_of_nat_ge_10)
  qed
qed

lemma read_digits_append:
  "read_digits (xs @ ys) = read_digits xs * 10 ^ length ys + read_digits ys"
proof (induction ys rule: rev_induct)
  case Nil
  then show ?case by simp
next
  case (snoc y ys)
  then show ?case
    using read_digits_snoc [of "xs @ ys" y] read_digits_snoc [of ys y]
    by (simp add: algebra_simps)
qed

lemma read_digits_fixed: "read_digits (digits_fixed k r) = r mod 10 ^ k"
proof (induction k arbitrary: r)
  case 0
  then show ?case by simp
next
  case (Suc k)
  have "r mod 10 ^ Suc k = 10 * (r div 10 mod 10 ^ k) + r mod 10"
    by (simp add: power_Suc mod_mult2_eq mult.commute)
  with Suc.IH [of "r div 10"] show ?case by simp
qed

lemma read_digits_zeros: "read_digits (replicate j CHR ''0'') = 0"
proof (induction j)
  case 0
  then show ?case by simp
next
  case (Suc j)
  have "replicate (Suc j) CHR ''0'' = replicate j CHR ''0'' @ [CHR ''0'']"
    by (simp add: replicate_append_same)
  with Suc.IH show ?case by (simp add: digit_val_def)
qed

subsection \<open>Trailing zeros\<close>

lemma strip_zeros_Nil_iff: "strip_zeros xs = [] \<longleftrightarrow> (\<forall>c \<in> set xs. c = CHR ''0'')"
  by (simp add: strip_zeros_def dropWhile_eq_Nil_conv)

lemma strip_zeros_append:
  "strip_zeros (xs @ ys) = (if strip_zeros ys = [] then strip_zeros xs else xs @ strip_zeros ys)"
proof (cases "strip_zeros ys = []")
  case True
  then have z: "\<And>c. c \<in> set (rev ys) \<Longrightarrow> c = CHR ''0''" by (simp add: strip_zeros_Nil_iff)
  have "dropWhile (\<lambda>c. c = CHR ''0'') (rev ys @ rev xs) = dropWhile (\<lambda>c. c = CHR ''0'') (rev xs)"
    by (rule dropWhile_append2) (rule z)
  with True show ?thesis by (simp add: strip_zeros_def)
next
  case False
  then obtain c where c: "c \<in> set (rev ys)" "c \<noteq> CHR ''0''" by (auto simp: strip_zeros_Nil_iff)
  have "dropWhile (\<lambda>c. c = CHR ''0'') (rev ys @ rev xs) = dropWhile (\<lambda>c. c = CHR ''0'') (rev ys) @ rev xs"
    by (rule dropWhile_append1 [OF c(1)]) (simp add: c(2))
  then have "strip_zeros (xs @ ys) = xs @ strip_zeros ys" by (simp add: strip_zeros_def)
  with False show ?thesis by simp
qed

lemma strip_zeros_pad:
  "xs = strip_zeros xs @ replicate (length xs - length (strip_zeros xs)) CHR ''0''"
proof -
  let ?P = "\<lambda>c. c = CHR ''0''"
  let ?r = "rev xs"
  have split: "?r = takeWhile ?P ?r @ dropWhile ?P ?r" by simp
  have t: "takeWhile ?P ?r = replicate (length (takeWhile ?P ?r)) CHR ''0''"
    by (rule replicate_length_same [symmetric]) (auto dest: set_takeWhileD)
  have "xs = rev (dropWhile ?P ?r) @ rev (takeWhile ?P ?r)"
    using split by (metis rev_append rev_rev_ident)
  also have "\<dots> = strip_zeros xs @ replicate (length (takeWhile ?P ?r)) CHR ''0''"
    by (subst t) (simp add: strip_zeros_def)
  finally have e: "xs = strip_zeros xs @ replicate (length (takeWhile ?P ?r)) CHR ''0''" .
  then have "length xs = length (strip_zeros xs) + length (takeWhile ?P ?r)"
    by (metis length_append length_replicate)
  with e show ?thesis by simp
qed

lemma strip_zeros_length_le: "length (strip_zeros xs) \<le> length xs"
  unfolding strip_zeros_def by (metis length_dropWhile_le length_rev)

lemma digits_of_nat_not_zeros:
  assumes "0 < a"
  shows "strip_zeros (digits_of_nat a) \<noteq> []"
proof -
  obtain c cs where dc: "digits_of_nat a = c # cs"
    using digits_of_nat_nonempty [of a] by (cases "digits_of_nat a") auto
  have "c \<noteq> CHR ''0''" using digits_of_nat_hd_nonzero [OF assms] dc by simp
  then show ?thesis using dc by (simp add: strip_zeros_Nil_iff)
qed

subsection \<open>bignumber.js agrees with the plain rendering\<close>

lemma strip_zeros_replicate: "strip_zeros (replicate n CHR ''0'') = []"
  by (simp add: strip_zeros_Nil_iff)

text \<open>A value below one: \<open>toFixedPoint\<close> pads with zeros after \<open>0.\<close>.\<close>

lemma fixed_point_below_one:
  assumes "0 < a" "a < 10 ^ k"
  shows "toFixedPoint (strip_zeros (digits_of_nat a)) (int (length (digits_of_nat a)) - 1 - int k) =
         digits_of_nat (a div 10 ^ k) @ ''.'' @ strip_zeros (digits_fixed k (a mod 10 ^ k))"
proof -
  have kpos: "0 < k" using assms by (cases k) auto
  have L: "length (digits_of_nat a) \<le> k" using length_digits_of_nat_le [OF assms(2) kpos] .
  have frac: "strip_zeros (digits_fixed k (a mod 10 ^ k)) =
                replicate (k - length (digits_of_nat a)) CHR ''0'' @ strip_zeros (digits_of_nat a)"
    using assms digits_of_nat_not_zeros [OF assms(1)]
    by (simp add: digits_fixed_small strip_zeros_append)
  have e: "nat (- (int (length (digits_of_nat a)) - 1 - int k) - 1) = k - length (digits_of_nat a)"
    using L by simp
  have "digits_of_nat (a div 10 ^ k) = ''0''"
    using assms by (simp add: digits_of_nat.simps digit_char_def)
  with frac e L show ?thesis by (simp add: toFixedPoint_def)
qed

text \<open>A value of one or more: the integer digits, and the fraction when it is not zero.\<close>

lemma fixed_point_above_one:
  assumes "0 < q" "r < 10 ^ k"
  shows "toFixedPoint (strip_zeros (digits_of_nat q @ digits_fixed k r))
           (int (length (digits_of_nat q @ digits_fixed k r)) - 1 - int k) =
         digits_of_nat q @
           (if strip_zeros (digits_fixed k r) = [] then [] else ''.'' @ strip_zeros (digits_fixed k r))"
proof (cases "strip_zeros (digits_fixed k r) = []")
  case True
  let ?c = "strip_zeros (digits_of_nat q)"
  have pad: "digits_of_nat q = ?c @ replicate (length (digits_of_nat q) - length ?c) CHR ''0''"
    by (rule strip_zeros_pad)
  have le: "length ?c \<le> length (digits_of_nat q)" by (rule strip_zeros_length_le)
  show ?thesis
  proof (cases "length ?c < length (digits_of_nat q)")
    case less: True
    have "nat (int (length (digits_of_nat q)) - int (length ?c)) = length (digits_of_nat q) - length ?c"
      using less by simp
    with True less pad show ?thesis
      by (simp add: toFixedPoint_def strip_zeros_append)
  next
    case False
    with le have "length ?c = length (digits_of_nat q)" by simp
    with pad have "?c = digits_of_nat q" by (metis append_Nil2 cancel_comm_monoid_add_class.diff_cancel replicate_0)
    with True show ?thesis by (simp add: toFixedPoint_def strip_zeros_append)
  qed
next
  case False
  have "0 < length (digits_of_nat q)" by (simp add: length_greater_0_conv)
  with False show ?thesis
    by (simp add: toFixedPoint_def strip_zeros_append nat_diff_distrib)
qed

lemma digits_of_nat_0: "digits_of_nat 0 = ''0''"
  by (simp add: digits_of_nat.simps digit_char_def)

lemma unsigned_plain:
  assumes "k \<le> 6" "0 < a" "a < 10 ^ (21 + k)"
  shows "(let ds = digits_of_nat a; c = strip_zeros ds; e = int (length ds) - 1 - int k
          in if e \<le> -7 \<or> 21 \<le> e then toExponential c e else toFixedPoint c e) =
         (let frac = strip_zeros (digits_fixed k (a mod 10 ^ k))
          in digits_of_nat (a div 10 ^ k) @ (if frac = [] then [] else ''.'' @ frac))"
proof (cases "a < 10 ^ k")
  case True
  have kpos: "0 < k" using assms(2) True by (cases k) auto
  have L: "length (digits_of_nat a) \<le> k" using length_digits_of_nat_le [OF True kpos] .
  have L1: "1 \<le> length (digits_of_nat a)" by (simp add: Suc_le_eq length_greater_0_conv)
  have ne: "strip_zeros (digits_fixed k (a mod 10 ^ k)) \<noteq> []"
    using True assms(2) digits_of_nat_not_zeros [OF assms(2)]
    by (simp add: digits_fixed_small strip_zeros_append)
  show ?thesis
    using fixed_point_below_one [OF assms(2) True] L L1 assms(1) ne by (simp add: Let_def)
next
  case False
  define q where "q = a div 10 ^ k"
  define r where "r = a mod 10 ^ k"
  have q: "0 < q" using False by (simp add: q_def div_greater_zero_iff)
  have r: "r < 10 ^ k" by (simp add: r_def)
  have a: "a = q * 10 ^ k + r" unfolding q_def r_def by (rule div_mult_mod_eq [symmetric])
  have ds: "digits_of_nat a = digits_of_nat q @ digits_fixed k r"
    using digits_of_nat_concat [OF q r] a by simp
  have "q < 10 ^ 21"
    using assms(3) by (simp add: q_def div_less_iff_less_mult power_add mult.commute)
  then have Lq: "length (digits_of_nat q) \<le> 21" by (rule length_digits_of_nat_le) simp
  have Lq1: "1 \<le> length (digits_of_nat q)" by (simp add: Suc_le_eq length_greater_0_conv)
  show ?thesis
    using fixed_point_above_one [OF q r] Lq Lq1
    by (simp add: Let_def ds q_def [symmetric] r_def [symmetric])
qed

theorem bignumber_toString_plain:
  assumes "k \<le> 6" "nat \<bar>m\<bar> < 10 ^ (21 + k)"
  shows "bignumber_toString m k = decimal_plain m k"
proof (cases "m = 0")
  case True
  then show ?thesis
    by (simp add: bignumber_toString_def decimal_plain_def digits_fixed_zero
        strip_zeros_replicate digits_of_nat_0)
next
  case False
  define a where "a = nat \<bar>m\<bar>"
  have "0 < a" using False by (simp add: a_def)
  note u = unsigned_plain [OF assms(1) this assms(2) [folded a_def]]
  show ?thesis
    unfolding bignumber_toString_def decimal_plain_def a_def [symmetric]
    using u False by (simp add: Let_def)
qed

subsection \<open>Reading the rendering back\<close>

lemma is_digit_not_sep: "is_digit c \<Longrightarrow> c \<noteq> CHR ''.'' \<and> c \<noteq> CHR ''-''"
  by (auto simp: is_digit_def)

lemma digits_fixed_digits: "c \<in> set (digits_fixed k r) \<Longrightarrow> is_digit c"
  by (induction k arbitrary: r) auto

lemma strip_zeros_subset: "c \<in> set (strip_zeros xs) \<Longrightarrow> c \<in> set xs"
  by (auto simp: strip_zeros_def dest: set_dropWhileD)

lemma read_decimal_parts:
  assumes "dq \<noteq> []" "\<forall>c \<in> set dq. is_digit c" "\<forall>c \<in> set f. is_digit c"
  shows "read_decimal ((if neg then ''-'' else []) @ dq @ (if f = [] then [] else ''.'' @ f)) =
           (if neg then - int (read_digits (dq @ f)) else int (read_digits (dq @ f)), length f)"
proof -
  have nodot: "\<forall>c \<in> set dq. c \<noteq> CHR ''.''" and hd: "hd dq \<noteq> CHR ''-''"
    using assms(1,2) is_digit_not_sep by (auto simp: neq_Nil_conv)
  let ?tail = "if f = [] then [] else ''.'' @ f"
  have tw: "takeWhile (\<lambda>c. c \<noteq> CHR ''.'') (dq @ ?tail) = dq"
    using nodot by (simp add: takeWhile_append2)
  have dw: "drop 1 (dropWhile (\<lambda>c. c \<noteq> CHR ''.'') (dq @ ?tail)) = f"
    using nodot by (simp add: dropWhile_append2)
  have n0: "(dq @ ?tail \<noteq> [] \<and> hd (dq @ ?tail) = CHR ''-'') = False"
    using assms(1) hd by simp
  have n1: "(''-'' @ dq @ ?tail \<noteq> [] \<and> hd (''-'' @ dq @ ?tail) = CHR ''-'') = True"
    and t1: "tl (''-'' @ dq @ ?tail) = dq @ ?tail"
    by simp_all
  show ?thesis
  proof (cases neg)
    case True
    then show ?thesis
      by (simp only: read_decimal_def Let_def n1 t1 tw dw if_True)
  next
    case False
    then show ?thesis
      by (simp only: read_decimal_def Let_def n0 tw dw if_False append_Nil)
  qed
qed

lemma read_digits_strip_fixed:
  assumes "r < 10 ^ k"
  shows "read_digits (strip_zeros (digits_fixed k r)) * 10 ^ (k - length (strip_zeros (digits_fixed k r))) = r"
proof -
  let ?f = "strip_zeros (digits_fixed k r)"
  have "digits_fixed k r = ?f @ replicate (k - length ?f) CHR ''0''"
    using strip_zeros_pad [of "digits_fixed k r"] by simp
  then have "read_digits (digits_fixed k r) = read_digits ?f * 10 ^ (k - length ?f)"
    by (metis read_digits_append read_digits_zeros length_replicate add.right_neutral)
  with assms show ?thesis by (simp add: read_digits_fixed)
qed

theorem read_decimal_plain:
  "fst (read_decimal (decimal_plain m k)) * 10 ^ k = m * 10 ^ snd (read_decimal (decimal_plain m k))"
proof -
  define a where "a = nat \<bar>m\<bar>"
  define q where "q = a div 10 ^ k"
  define r where "r = a mod 10 ^ k"
  define f where "f = strip_zeros (digits_fixed k r)"
  have r: "r < 10 ^ k" by (simp add: r_def)
  have a: "a = q * 10 ^ k + r" unfolding q_def r_def by (rule div_mult_mod_eq [symmetric])
  have fk: "length f \<le> k"
    using strip_zeros_length_le [of "digits_fixed k r"] by (simp add: f_def)
  have rf: "read_digits f * 10 ^ (k - length f) = r"
    using read_digits_strip_fixed [OF r] by (simp add: f_def)
  have digs: "\<forall>c \<in> set (digits_of_nat q). is_digit c" "\<forall>c \<in> set f. is_digit c"
    using digits_of_nat_digits [of _ q] digits_fixed_digits [of _ k r] strip_zeros_subset
    by (auto simp: f_def)
  have dp: "decimal_plain m k =
              (if m < 0 then ''-'' else []) @ digits_of_nat q @ (if f = [] then [] else ''.'' @ f)"
    by (simp add: decimal_plain_def Let_def a_def q_def r_def f_def)
  have rd: "read_decimal (decimal_plain m k) =
              (if m < 0 then - int (read_digits (digits_of_nat q @ f))
               else int (read_digits (digits_of_nat q @ f)), length f)"
    unfolding dp by (rule read_decimal_parts) (simp_all add: digs)
  have mag: "read_digits (digits_of_nat q @ f) * 10 ^ k = a * 10 ^ length f"
  proof -
    have "read_digits (digits_of_nat q @ f) * 10 ^ k
            = (q * 10 ^ length f + read_digits f) * 10 ^ k"
      by (simp add: read_digits_append)
    also have "\<dots> = q * 10 ^ (k + length f) + read_digits f * 10 ^ (k - length f) * 10 ^ length f"
      using fk by (simp add: algebra_simps power_add [symmetric])
    also have "\<dots> = a * 10 ^ length f"
      using rf a by (simp add: algebra_simps power_add)
    finally show ?thesis .
  qed
  have "int (read_digits (digits_of_nat q @ f)) * 10 ^ k = \<bar>m\<bar> * 10 ^ length f"
    using arg_cong [OF mag, of int] by (simp add: a_def)
  then show ?thesis using rd by (cases "m < 0") simp_all
qed




lemma safe_below_bound: "\<bar>n\<bar> < 2 ^ 53 \<Longrightarrow> nat \<bar>n\<bar> < 10 ^ (21 + 6)"
  by (simp add: nat_less_iff)

lemma no_decimal_amount_safe:
  "\<bar>n\<bar> < 2 ^ 53 \<Longrightarrow> no_decimal_amount (Some n) = bignumber_toString n 6"
  by (simp add: no_decimal_amount_def number_string_value_safe)

declare no_decimal_amount_def [js_eval] bignumber_toString_def [js_eval] strip_zeros_def [js_eval]
  toFixedPoint_def [js_eval] toExponential_def [js_eval]

subsection \<open>The decimal column\<close>

text \<open>
  C17. For a safe integer amount (\<open>|amount| < 2^53\<close>, up to
  \<open>Number.MAX_SAFE_INTEGER\<close>) the \<open>Amount (no decimals)\<close> column is the plain
  decimal rendering of \<open>amount / 10^6\<close>: sign, integer part, and the fraction without
  trailing zeros.
\<close>

theorem no_decimal_amount_plain:
  assumes "\<bar>n\<bar> < 2 ^ 53"
  shows "no_decimal_amount (Some n) = decimal_plain n 6"
  using bignumber_toString_plain [OF _ safe_below_bound [OF assms]] no_decimal_amount_safe [OF assms]
  by simp

theorem no_decimal_amount_plain_witness:
  "no_decimal_amount (Some 1234567) = decimal_plain 1234567 6"
  by (rule no_decimal_amount_plain) simp

text \<open>
  C18. For a safe integer amount the column loses no precision: the string it prints, read
  back as a decimal numeral \<open>m / 10^k\<close>, is exactly \<open>amount / 10^6\<close>.
\<close>

theorem no_decimal_amount_exact:
  assumes "\<bar>n\<bar> < 2 ^ 53"
  shows "fst (read_decimal (no_decimal_amount (Some n))) * 10 ^ 6 =
           n * 10 ^ snd (read_decimal (no_decimal_amount (Some n)))"
  using bignumber_toString_plain [OF _ safe_below_bound [OF assms]] read_decimal_plain [of n 6]
    no_decimal_amount_safe [OF assms]
  by simp

theorem no_decimal_amount_exact_witness:
  "fst (read_decimal (no_decimal_amount (Some 1234567))) * 10 ^ 6 =
     1234567 * 10 ^ snd (read_decimal (no_decimal_amount (Some 1234567)))"
  by (rule no_decimal_amount_exact) simp



text \<open>
  The column on the specification's example and on a few others; above \<open>2^53\<close> it
  shows the digits of the number the amount became, not those of the amount:
  \<open>2^60 = 1152921504606846976\<close> prints \<open>1152921504606.847\<close>.
\<close>

lemma no_decimal_amount_examples:
  "no_decimal_amount (Some 1000000) = ''1''" "no_decimal_amount (Some 1234567) = ''1.234567''"
  "no_decimal_amount (Some 5) = ''0.000005''" "no_decimal_amount (Some (-2500000)) = ''-2.5''"
  "no_decimal_amount (Some 0) = ''0''" "no_decimal_amount None = ''NaN''"
  by (simp_all add: js_eval Let_def number_string_value_safe)

lemma no_decimal_amount_2_60:
  "no_decimal_amount (Some 1152921504606846976) = ''1152921504606.847''"
proof -
  have "number_string_value 1152921504606846976 = 1152921504606847000"
    by (simp add: number_string_value_def nearest_mult_valid_def double_round_nat_def
        round_to_mult_def Let_def length_digits_of_nat)
  then show ?thesis by (simp add: js_eval Let_def)
qed

end
