(* ===== verification/PromiseAll.thy ===== *)
theory PromiseAll
  imports Prelude
begin

text \<open>
  \<open>Promise.all\<close>, through which \<open>getTransactionById\<close> waits for its concurrent
  requests (\<^verbatim>\<open>src/src/index.ts\<close> line 59), modelled from ECMA-262 \<section>27.2.4.1
  (\<open>PerformPromiseAll\<close>; the builtin is not code of the repository). The promises of
  the input settle one at a time, in an order the network decides; a \<^emph>\<open>schedule\<close> is
  that order, a list of the input positions. The combinator keeps the values received so
  far, a count of the elements still to resolve, and its own outcome: the first rejection
  rejects it, and the last fulfilment fulfils it with the values in input order; a
  settlement after its outcome is decided is ignored. The state machine is
  \<open>all_step\<close>; \<open>promise_all\<close> runs it over a schedule. \<open>all_spec\<close> is the contract:
  the first rejection in settlement order, otherwise every value in input order. The
  refinement theorem says the machine implements the contract on every schedule that
  settles each promise once; the liveness theorem says such a schedule always decides
  the outcome.
\<close>

record ('e, 'a) all_state =
  all_values :: "'a option list"
  all_remaining :: nat
  all_outcome :: "('e + 'a list) option"

text \<open>
  The state after the synchronous loop over the input: no value yet, one pending count
  per element, and an empty input fulfilled at once.
\<close>

definition all_init :: "nat \<Rightarrow> ('e, 'a) all_state" where
  "all_init n =
     \<lparr>all_values = replicate n None, all_remaining = n,
      all_outcome = (if n = 0 then Some (Inr []) else None)\<rparr>"

text \<open>
  One settlement: element \<open>i\<close> rejected with \<open>e\<close> (\<open>Inl e\<close>), or fulfilled with \<open>v\<close>
  (\<open>Inr v\<close>, the resolve element function of \<section>27.2.4.1.3).
\<close>

fun all_step :: "('e, 'a) all_state \<Rightarrow> nat \<times> ('e + 'a) \<Rightarrow> ('e, 'a) all_state" where
  "all_step s (i, Inl e) =
     (if all_outcome s = None then s\<lparr>all_outcome := Some (Inl e)\<rparr> else s)"
| "all_step s (i, Inr v) =
     (let s' = s\<lparr>all_values := (all_values s)[i := Some v],
                 all_remaining := all_remaining s - 1\<rparr>
      in if all_remaining s' = 0 \<and> all_outcome s = None
         then s'\<lparr>all_outcome := Some (Inr (map the (all_values s')))\<rparr> else s')"

definition promise_all :: "('e + 'a) list \<Rightarrow> nat list \<Rightarrow> ('e + 'a list) option" where
  "promise_all rs sched =
     all_outcome (foldl all_step (all_init (length rs)) (map (\<lambda>i. (i, rs ! i)) sched))"

text \<open>A schedule settles every promise exactly once.\<close>

definition complete_schedule :: "nat \<Rightarrow> nat list \<Rightarrow> bool" where
  "complete_schedule n sched \<longleftrightarrow> distinct sched \<and> set sched = {..<n}"

definition all_spec :: "('e + 'a) list \<Rightarrow> nat list \<Rightarrow> 'e + 'a list" where
  "all_spec rs sched =
     (case List.find (\<lambda>i. isl (rs ! i)) sched of
        Some i \<Rightarrow> Inl (projl (rs ! i))
      | None \<Rightarrow> Inr (map projr rs))"

text \<open>
  The shape invariant of the combinator's state for \<open>n\<close> promises: one slot per
  promise, and an array of \<open>n\<close> values when it fulfils.
\<close>

definition all_wf :: "nat \<Rightarrow> ('e, 'a) all_state \<Rightarrow> bool" where
  "all_wf n s \<longleftrightarrow>
     length (all_values s) = n \<and> (\<forall>vs. all_outcome s = Some (Inr vs) \<longrightarrow> length vs = n)"

subsection \<open>The state after a prefix of the schedule\<close>

text \<open>Which elements have been fulfilled after the settlements \<open>p\<close>.\<close>

abbreviation fulfilled :: "('e + 'a) list \<Rightarrow> nat list \<Rightarrow> nat list" where
  "fulfilled rs p \<equiv> filter (\<lambda>i. \<not> isl (rs ! i)) p"

definition all_expect :: "('e + 'a) list \<Rightarrow> nat list \<Rightarrow> ('e, 'a) all_state" where
  "all_expect rs p =
     \<lparr>all_values = map (\<lambda>i. if i \<in> set p \<and> \<not> isl (rs ! i) then Some (projr (rs ! i)) else None)
                      [0..<length rs],
      all_remaining = length rs - length (fulfilled rs p),
      all_outcome =
        (case List.find (\<lambda>i. isl (rs ! i)) p of
           Some i \<Rightarrow> Some (Inl (projl (rs ! i)))
         | None \<Rightarrow> if length (fulfilled rs p) = length rs then Some (Inr (map projr rs)) else None)\<rparr>"

lemma all_expect_Nil: "all_expect rs [] = all_init (length rs)"
  by (simp add: all_expect_def all_init_def map_replicate_const)

lemma find_snoc:
  "List.find P (xs @ [x]) = (case List.find P xs of None \<Rightarrow> if P x then Some x else None | Some y \<Rightarrow> Some y)"
  by (induction xs) auto

text \<open>A distinct list of positions below \<open>n\<close> of length \<open>n\<close> holds all of them.\<close>

lemma distinct_full:
  assumes "distinct q" "set q \<subseteq> {..<n}" "length q = n"
  shows "set q = {..<n}"
proof -
  have "card (set q) = n" using assms(1,3) by (simp add: distinct_card)
  then show ?thesis using assms(2) by (metis card_lessThan card_subset_eq finite_lessThan)
qed

lemma all_expect_values_isl:
  "isl (rs ! i) \<Longrightarrow> all_values (all_expect rs (p @ [i])) = all_values (all_expect rs p)"
  by (auto simp: all_expect_def)

lemma all_expect_values_fulfil:
  assumes "i < length rs" "rs ! i = Inr v"
  shows "(all_values (all_expect rs p))[i := Some v] = all_values (all_expect rs (p @ [i]))"
proof (rule nth_equalityI)
  show "length ((all_values (all_expect rs p))[i := Some v]) =
        length (all_values (all_expect rs (p @ [i])))"
    by (simp add: all_expect_def)
next
  fix j
  assume "j < length ((all_values (all_expect rs p))[i := Some v])"
  then have j: "j < length rs" by (simp add: all_expect_def)
  show "(all_values (all_expect rs p))[i := Some v] ! j = all_values (all_expect rs (p @ [i])) ! j"
  proof (cases "j = i")
    case True
    with j assms show ?thesis by (simp add: all_expect_def)
  next
    case False
    with j show ?thesis by (simp add: all_expect_def)
  qed
qed

lemma schedule_prefix_facts:
  assumes "distinct (p @ [i])" "set (p @ [i]) \<subseteq> {..<n}"
  shows "i < n" "i \<notin> set p" "length (filter P p) < n"
proof -
  have "card (set (p @ [i])) \<le> n"
    using assms(2) by (metis card_lessThan card_mono finite_lessThan)
  then have "length p < n" using assms(1) by (simp add: distinct_card)
  moreover have "length (filter P p) \<le> length p" by simp
  ultimately show "length (filter P p) < n" by linarith
  show "i < n" "i \<notin> set p" using assms by auto
qed

text \<open>When every element has been fulfilled, the collected values are the inputs'.\<close>

lemma all_expect_values_complete:
  assumes "distinct q" "set q \<subseteq> {..<length rs}" "length (fulfilled rs q) = length rs"
  shows "map the (all_values (all_expect rs q)) = map projr rs"
proof -
  have "set (fulfilled rs q) = {..<length rs}"
    using assms by (intro distinct_full) auto
  then have all: "\<And>j. j < length rs \<Longrightarrow> j \<in> set q \<and> \<not> isl (rs ! j)" by auto
  show ?thesis
  proof (rule nth_equalityI)
    show "length (map the (all_values (all_expect rs q))) = length (map projr rs)"
      by (simp add: all_expect_def)
  next
    fix j
    assume "j < length (map the (all_values (all_expect rs q)))"
    then have j: "j < length rs" by (simp add: all_expect_def)
    with all [OF j] show "map the (all_values (all_expect rs q)) ! j = map projr rs ! j"
      by (simp add: all_expect_def)
  qed
qed

lemma all_step_expect:
  assumes d: "distinct (p @ [i])" and b: "set (p @ [i]) \<subseteq> {..<length rs}"
  shows "all_step (all_expect rs p) (i, rs ! i) = all_expect rs (p @ [i])"
proof -
  note f = schedule_prefix_facts [OF d b]
  have old_undecided: "List.find (\<lambda>i. isl (rs ! i)) p = None \<Longrightarrow> all_outcome (all_expect rs p) = None"
    using f(3) [of "\<lambda>i. \<not> isl (rs ! i)"] by (simp add: all_expect_def)
  show ?thesis
  proof (cases "rs ! i")
    case (Inl e)
    then show ?thesis
      using old_undecided all_expect_values_isl [of rs i p]
      by (cases "List.find (\<lambda>i. isl (rs ! i)) p")
         (simp_all add: all_expect_def find_snoc)
  next
    case (Inr v)
    have vals: "(all_values (all_expect rs p))[i := Some v] = all_values (all_expect rs (p @ [i]))"
      using all_expect_values_fulfil [OF f(1) Inr] .
    have rem: "all_remaining (all_expect rs p) - 1 = all_remaining (all_expect rs (p @ [i]))"
      using Inr by (simp add: all_expect_def)
    have cnt: "length (fulfilled rs (p @ [i])) = Suc (length (fulfilled rs p))"
      using Inr by simp
    show ?thesis
    proof (cases "List.find (\<lambda>i. isl (rs ! i)) p")
      case (Some j)
      then show ?thesis
        using Inr vals rem by (simp add: all_expect_def find_snoc)
    next
      case None
      show ?thesis
      proof (cases "length (fulfilled rs (p @ [i])) = length rs")
        case True
        then have "map the (all_values (all_expect rs (p @ [i]))) = map projr rs"
          using d b by (intro all_expect_values_complete) auto
        then show ?thesis
          using None True Inr vals rem old_undecided
          by (simp add: all_expect_def find_snoc)
      next
        case False
        then show ?thesis
          using None Inr vals rem old_undecided f(3) [of "\<lambda>i. \<not> isl (rs ! i)"]
          by (simp add: all_expect_def find_snoc)
      qed
    qed
  qed
qed

lemma foldl_all_step_expect:
  assumes "distinct p" "set p \<subseteq> {..<length rs}"
  shows "foldl all_step (all_init (length rs)) (map (\<lambda>i. (i, rs ! i)) p) = all_expect rs p"
  using assms
proof (induction p rule: rev_induct)
  case Nil
  then show ?case by (simp add: all_expect_Nil)
next
  case (snoc i p)
  then have "foldl all_step (all_init (length rs)) (map (\<lambda>i. (i, rs ! i)) p) = all_expect rs p"
    by (intro snoc.IH) auto
  then show ?case using all_step_expect [OF snoc.prems] by simp
qed

lemma promise_all_expect:
  "distinct p \<Longrightarrow> set p \<subseteq> {..<length rs} \<Longrightarrow> promise_all rs p = all_outcome (all_expect rs p)"
  by (simp add: promise_all_def foldl_all_step_expect)

lemma find_isl_None_complete:
  assumes "set sched = {..<length rs}" "List.find (\<lambda>i. isl (rs ! i)) sched = None"
  shows "fulfilled rs sched = sched"
  using assms by (auto simp: find_None_iff filter_id_conv)

subsection \<open>Refinement and schedules\<close>

text \<open>
  On every schedule that settles each promise once, the machine decides the outcome, and
  the outcome is the contract's: the first rejection in settlement order, or all values
  in input order.
\<close>

theorem promise_all_refines:
  assumes "complete_schedule (length rs) sched"
  shows "promise_all rs sched = Some (all_spec rs sched)"
proof -
  have d: "distinct sched" and s: "set sched = {..<length rs}"
    using assms by (simp_all add: complete_schedule_def)
  have len: "length sched = length rs"
    using d s by (metis card_lessThan distinct_card)
  show ?thesis
  proof (cases "List.find (\<lambda>i. isl (rs ! i)) sched")
    case None
    have "fulfilled rs sched = sched" using s None by (rule find_isl_None_complete)
    with None d s len show ?thesis
      by (simp add: promise_all_expect all_expect_def all_spec_def)
  next
    case (Some i)
    with d s show ?thesis
      by (simp add: promise_all_expect all_expect_def all_spec_def)
  qed
qed

text \<open>With at most one rejected promise, the settlement order does not matter.\<close>

lemma all_spec_unique_rejection:
  assumes "set s1 = {..<length rs}" "set s2 = {..<length rs}"
    and "\<forall>i < length rs. \<forall>j < length rs. isl (rs ! i) \<longrightarrow> isl (rs ! j) \<longrightarrow> i = j"
  shows "all_spec rs s1 = all_spec rs s2"
proof (cases "\<exists>i < length rs. isl (rs ! i)")
  case True
  then obtain i where i: "i < length rs" "isl (rs ! i)" by blast
  have "\<And>s. set s = {..<length rs} \<Longrightarrow> List.find (\<lambda>i. isl (rs ! i)) s = Some i"
  proof -
    fix s :: "nat list"
    assume s: "set s = {..<length rs}"
    show "List.find (\<lambda>i. isl (rs ! i)) s = Some i"
    proof (cases "List.find (\<lambda>i. isl (rs ! i)) s")
      case None
      with s i show ?thesis by (auto simp: find_None_iff)
    next
      case (Some j)
      then have "j \<in> set s" "isl (rs ! j)" by (auto simp: find_Some_iff)
      with s i assms(3) Some show ?thesis by auto
    qed
  qed
  then show ?thesis using assms(1,2) by (simp add: all_spec_def)
next
  case False
  then have "\<And>s. set s = {..<length rs} \<Longrightarrow> List.find (\<lambda>i. isl (rs ! i)) s = None"
    by (auto simp: find_None_iff)
  then show ?thesis using assms(1,2) by (simp add: all_spec_def)
qed

theorem promise_all_schedule_independent:
  assumes "complete_schedule (length rs) s1" "complete_schedule (length rs) s2"
    and "\<forall>i < length rs. \<forall>j < length rs. isl (rs ! i) \<longrightarrow> isl (rs ! j) \<longrightarrow> i = j"
  shows "promise_all rs s1 = promise_all rs s2"
  using assms all_spec_unique_rejection [of s1 rs s2]
  by (simp add: promise_all_refines complete_schedule_def)

text \<open>
  A promise that never settles keeps the combinator pending: a schedule that leaves one
  element out and rejects nothing leaves the outcome undecided (the call hangs).
\<close>

theorem promise_all_pending:
  assumes "distinct sched" "set sched \<subset> {..<length rs}"
    and "\<forall>i \<in> set sched. \<not> isl (rs ! i)"
  shows "promise_all rs sched = None"
proof -
  have "length sched < length rs"
    using assms(1,2) by (metis card_lessThan distinct_card finite_lessThan psubset_card_mono)
  moreover have "fulfilled rs sched = sched" using assms(3) by (simp add: filter_id_conv)
  moreover have "List.find (\<lambda>i. isl (rs ! i)) sched = None" using assms(3) by (simp add: find_None_iff)
  ultimately show ?thesis using assms(1,2)
    by (simp add: promise_all_expect all_expect_def)
qed

subsection \<open>The contract on particular inputs\<close>

lemma all_spec_all_fulfilled:
  assumes "\<forall>r \<in> set rs. \<not> isl r" "set sched \<subseteq> {..<length rs}"
  shows "all_spec rs sched = Inr (map projr rs)"
proof -
  have "\<not> isl (rs ! i)" if "i \<in> set sched" for i
    using that assms nth_mem [of i rs] by auto
  then have "List.find (\<lambda>i. isl (rs ! i)) sched = None" by (auto simp: find_None_iff)
  then show ?thesis by (simp add: all_spec_def)
qed

lemma all_spec_one_rejection:
  assumes "set sched = {..<length rs}" "i < length rs" "rs ! i = Inl e"
    and "\<forall>j < length rs. j \<noteq> i \<longrightarrow> \<not> isl (rs ! j)"
  shows "all_spec rs sched = Inl e"
proof -
  have "List.find (\<lambda>i. isl (rs ! i)) sched = Some i"
  proof (cases "List.find (\<lambda>i. isl (rs ! i)) sched")
    case None
    with assms(1-3) show ?thesis by (auto simp: find_None_iff)
  next
    case (Some j)
    then have "j \<in> set sched" "isl (rs ! j)" by (auto simp: find_Some_iff)
    with assms(1,4) Some show ?thesis by auto
  qed
  with assms(3) show ?thesis by (simp add: all_spec_def)
qed


text \<open>
  Once decided, the outcome never changes: later settlements (the rejection functions of
  \<section>27.2.4.1.3 find the promise already resolved) leave it as it is.
\<close>

lemma all_step_outcome_kept:
  "all_outcome s \<noteq> None \<Longrightarrow> all_outcome (all_step s x) = all_outcome s"
  by (cases "(s, x)" rule: all_step.cases) (simp_all add: Let_def)

lemma foldl_all_step_outcome_kept:
  "all_outcome s \<noteq> None \<Longrightarrow> all_outcome (foldl all_step s xs) = all_outcome s"
  by (induction xs arbitrary: s) (simp_all add: all_step_outcome_kept)

text \<open>
  \<open>Promise.all\<close> is fail-fast: when the first promise to settle rejects, the combinator
  rejects with that reason, whatever the others do later, or if they never settle.
\<close>

lemma promise_all_first_rejection:
  assumes "i < length rs" and "rs ! i = Inl e"
  shows "promise_all rs (i # rest) = Some (Inl e)"
proof -
  let ?s = "all_step (all_init (length rs)) (i, Inl e)"
  have ne: "rs \<noteq> []" using assms(1) by auto
  then have o: "all_outcome ?s = Some (Inl e)" by (simp add: all_init_def)
  have "promise_all rs (i # rest) = all_outcome (foldl all_step ?s (map (\<lambda>i. (i, rs ! i)) rest))"
    by (simp only: promise_all_def list.map foldl_Cons assms(2))
  also have "\<dots> = all_outcome ?s"
    using o by (metis foldl_all_step_outcome_kept option.distinct(1))
  also note o
  finally show ?thesis .
qed


subsection \<open>The shape invariant\<close>

lemma all_init_wf: "all_wf n (all_init n)"
  by (simp add: all_wf_def all_init_def)

lemma all_step_wf: "all_wf n s \<Longrightarrow> all_wf n (all_step s x)"
  by (cases "(s, x)" rule: all_step.cases) (auto simp: all_wf_def Let_def)

lemma foldl_all_step_wf: "all_wf n s \<Longrightarrow> all_wf n (foldl all_step s xs)"
  by (induction xs arbitrary: s) (simp_all add: all_step_wf)

lemma promise_all_length: "promise_all rs sched = Some (Inr vs) \<Longrightarrow> length vs = length rs"
  using foldl_all_step_wf [OF all_init_wf, of "length rs" "map (\<lambda>i. (i, rs ! i)) sched"]
  by (simp add: promise_all_def all_wf_def)

end
