(* ===== verification/Fetcher.thy ===== *)
theory Fetcher
  imports Ellipsify DateFormat Decimal PromiseAll
begin

text \<open>
  \<open>getTransactionById\<close> of \<^verbatim>\<open>src/src/index.ts\<close> (lines 51--105), the program's
  only entry point. It splits its argument on commas and keeps the pieces that are not
  blank (\<open>normalize_ids\<close>, line 56), posts one request per piece to \<open>API_URL\<close>
  with the body \<open>JSON.stringify({value: txId})\<close> (\<open>request_body\<close>, lines 62--67),
  turns each response into a formatted record, a \<open>null\<close> placeholder or an exception
  (\<open>tx_handler\<close>, lines 60--95), waits for all of them with \<open>Promise.all\<close>
  (\<open>promise_all\<close>), then optionally logs and returns \<open>{data}\<close> or, when anything
  threw, \<open>{error: message}\<close> (\<open>respond\<close>, lines 98--103).

  The network is a parameter: \<open>net url body\<close> is what \<open>axios.post\<close> settles with,
  a transport failure (\<open>Http_Failure\<close>, a rejection with its message) or the parsed
  JSON body (\<open>Http_OK\<close>). The order in which the requests settle is a schedule of
  positions. The time zone of the host is a parameter of the date formatting. The
  response JSON is a record per object level, each field an option (\<open>undefined\<close> when
  absent), so that every missing field the code can meet is a value of the model and every
  exception it raises is a value of \<open>fetch_error\<close>. Console output is a list of
  \<open>log_event\<close>s returned beside the result.
\<close>

subsection \<open>Data\<close>

record contract_value =
  amount :: js_int
  owner_address :: "js_string option"
  to_address :: "js_string option"

record contract_parameter =
  parameter_value :: "contract_value option"

record tron_contract =
  parameter :: "contract_parameter option"

record tx_raw_data =
  contract :: "tron_contract list option"
  timestamp :: js_int

record tron_response =
  Error :: "js_string option"
  txID :: "js_string option"
  raw_data :: "tx_raw_data option"

text \<open>The record each transaction is formatted into (lines 83--92).\<close>

record tx_data =
  HASH :: js_string
  From_Address :: "js_string option"
  To_Address :: "js_string option"
  Amount :: js_int
  Amount_no_decimals :: "js_string option"
  Time_of_Transaction :: js_string

record options =
  includeNoDecimalAmount :: bool
  log :: bool

datatype http_result = Http_Failure js_string | Http_OK tron_response

text \<open>The exceptions the handler can raise: \<open>TypeError\<close>s of the engine (V8's texts).\<close>

datatype type_error = Destructure_undefined | Read_undefined js_string

datatype fetch_error =
    Provider_Error js_string
  | Transport_Error js_string
  | TypeError type_error

fun error_message :: "fetch_error \<Rightarrow> js_string" where
  "error_message (Provider_Error m) = m"
| "error_message (Transport_Error m) = m"
| "error_message (TypeError Destructure_undefined) =
     ''Cannot destructure property amount of (intermediate value) as it is undefined.''"
| "error_message (TypeError (Read_undefined p)) =
     ''Cannot read properties of undefined (reading '' @ p @ '')''"

text \<open>
  The \<open>data\<close> of the result: \<open>txsData[0]\<close> (\<open>undefined\<close> for an empty list), or
  the whole list.
\<close>

datatype data_value = Undefined | One "tx_data option" | Many "tx_data option list"

datatype response = Data data_value | Failure js_string

datatype log_event = Table "tx_data option list" | Logged_error fetch_error

subsection \<open>Operations\<close>

definition API_URL :: js_string where
  "API_URL = ''https://api.trongrid.io/wallet/gettransactionbyid''"

definition request_body :: "js_string \<Rightarrow> js_string" where
  "request_body txId = ''{'' @ json_quote ''value'' @ '':'' @ json_quote txId @ ''}''"

definition normalize_ids :: "js_string \<Rightarrow> js_string list" where
  "normalize_ids transactionId = filter (\<lambda>tx. js_trim tx \<noteq> []) (js_split CHR '','' transactionId)"

text \<open>\<open>if (data.Error)\<close>: a non-empty string is truthy.\<close>

definition provider_error :: "tron_response \<Rightarrow> js_string option" where
  "provider_error data =
     (case Error data of None \<Rightarrow> None | Some m \<Rightarrow> if m = [] then None else Some m)"

text \<open>
  \<open>const {amount, owner_address, to_address} = data?.raw_data?.contract[0]?.parameter?.value\<close>
  (lines 76--80): optional chaining yields \<open>undefined\<close> at a missing link, except that
  \<open>contract[0]\<close> on a missing \<open>contract\<close> reads a property of \<open>undefined\<close>;
  destructuring \<open>undefined\<close> throws.
\<close>

definition contract_value_of :: "tron_response \<Rightarrow> fetch_error + tx_raw_data \<times> contract_value" where
  "contract_value_of data =
     (case raw_data data of
        None \<Rightarrow> Inl (TypeError Destructure_undefined)
      | Some rd \<Rightarrow>
          (case contract rd of
             None \<Rightarrow> Inl (TypeError (Read_undefined ''0''))
           | Some [] \<Rightarrow> Inl (TypeError Destructure_undefined)
           | Some (c # _) \<Rightarrow>
               (case parameter c of
                  None \<Rightarrow> Inl (TypeError Destructure_undefined)
                | Some p \<Rightarrow>
                    (case parameter_value p of
                       None \<Rightarrow> Inl (TypeError Destructure_undefined)
                     | Some v \<Rightarrow> Inr (rd, v)))))"

text \<open>The object literal of lines 83--92, built once \<open>data.txID\<close> is a string.\<close>

definition format_tx ::
  "options \<Rightarrow> tz_offset \<Rightarrow> tx_raw_data \<Rightarrow> contract_value \<Rightarrow> js_string \<Rightarrow> tx_data" where
  "format_tx opts tz rd v hash =
     \<lparr>HASH = ellipsify hash None,
      From_Address = owner_address v,
      To_Address = to_address v,
      Amount = amount v,
      Amount_no_decimals =
        (if includeNoDecimalAmount opts then Some (no_decimal_amount (amount v)) else None),
      Time_of_Transaction = formatDate tz (timestamp rd)\<rparr>"

text \<open>
  The async callback of lines 60--95 after its request settled: \<open>Inl\<close> is a rejection
  of its promise, \<open>Inr None\<close> the \<open>null\<close> placeholder. \<open>ntx\<close> is
  \<open>transactions.length\<close>. \<open>ellipsify(data.txID)\<close> reads \<open>length\<close> of
  \<open>undefined\<close> when the hash is missing.
\<close>

definition tx_handler ::
  "options \<Rightarrow> tz_offset \<Rightarrow> nat \<Rightarrow> http_result \<Rightarrow> fetch_error + tx_data option" where
  "tx_handler opts tz ntx r =
     (case r of
        Http_Failure m \<Rightarrow> Inl (Transport_Error m)
      | Http_OK data \<Rightarrow>
          (case provider_error data of
             Some m \<Rightarrow> if ntx \<le> 1 then Inl (Provider_Error m) else Inr None
           | None \<Rightarrow>
               (case contract_value_of data of
                  Inl err \<Rightarrow> Inl err
                | Inr (rd, v) \<Rightarrow>
                    (case txID data of
                       None \<Rightarrow> Inl (TypeError (Read_undefined ''length''))
                     | Some hash \<Rightarrow> Inr (Some (format_tx opts tz rd v hash))))))"

text \<open>
  Lines 98--103: what the call returns once \<open>Promise.all\<close> has settled, with what it
  prints. \<open>Inr\<close> is the fulfilled array (the \<open>try\<close> branch), \<open>Inl\<close> the
  rejection reason (the \<open>catch\<close> branch).
\<close>

definition respond :: "options \<Rightarrow> fetch_error + tx_data option list \<Rightarrow> response \<times> log_event list" where
  "respond opts r =
     (case r of
        Inr txsData \<Rightarrow>
          (Data (if length txsData \<le> 1
                 then (case txsData of [] \<Rightarrow> Undefined | t # _ \<Rightarrow> One t)
                 else Many txsData),
           if log opts then [Table txsData] else [])
      | Inl e \<Rightarrow> (Failure (error_message e), if log opts then [Logged_error e] else []))"

definition getTransactionById ::
  "(js_string \<Rightarrow> js_string \<Rightarrow> http_result) \<Rightarrow> tz_offset \<Rightarrow> nat list \<Rightarrow> js_string \<Rightarrow> options
   \<Rightarrow> (response \<times> log_event list) option" where
  "getTransactionById net tz sched transactionId opts =
     (let transactions = normalize_ids transactionId;
          results = map (\<lambda>txId. tx_handler opts tz (length transactions)
                                   (net API_URL (request_body txId))) transactions
      in map_option (respond opts) (promise_all results sched))"

subsection \<open>The handler of one response\<close>

lemma tx_handler_transport [simp]:
  "tx_handler opts tz ntx (Http_Failure m) = Inl (Transport_Error m)"
  by (simp add: tx_handler_def)

lemma tx_handler_provider_single:
  "provider_error d = Some m \<Longrightarrow> ntx \<le> 1 \<Longrightarrow>
   tx_handler opts tz ntx (Http_OK d) = Inl (Provider_Error m)"
  by (simp add: tx_handler_def)

lemma tx_handler_provider_batch:
  "provider_error d = Some m \<Longrightarrow> 2 \<le> ntx \<Longrightarrow> tx_handler opts tz ntx (Http_OK d) = Inr None"
  by (simp add: tx_handler_def)

lemma tx_handler_formatted:
  "provider_error d = None \<Longrightarrow> contract_value_of d = Inr (rd, v) \<Longrightarrow> txID d = Some h \<Longrightarrow>
   tx_handler opts tz ntx (Http_OK d) = Inr (Some (format_tx opts tz rd v h))"
  by (simp add: tx_handler_def)

text \<open>
  C14. In a batch, the handler yields the \<open>null\<close> placeholder exactly for a response that
  carries a provider error; every other response is a record or an exception.
\<close>

theorem tx_handler_null_iff:
  assumes "2 \<le> ntx"
  shows "tx_handler opts tz ntx r = Inr None \<longleftrightarrow>
           (\<exists>d. r = Http_OK d \<and> provider_error d \<noteq> None)"
  using assms
  by (auto simp: tx_handler_def split: http_result.splits option.splits sum.splits prod.splits)

theorem tx_handler_null_iff_witness:
  "tx_handler \<lparr>includeNoDecimalAmount = False, log = False\<rparr> (\<lambda>_. 0) 2
     (Http_OK \<lparr>Error = Some ''transaction not found'', txID = None, raw_data = None\<rparr>) = Inr None"
  using tx_handler_null_iff [of 2 "\<lparr>includeNoDecimalAmount = False, log = False\<rparr>" "\<lambda>_. 0"
      "Http_OK \<lparr>Error = Some ''transaction not found'', txID = None, raw_data = None\<rparr>"]
  by (simp add: provider_error_def)

text \<open>
  C15. A response without a timestamp or without an amount is not an error: the record is
  built, its date reads \<open>undefined, undefined NaN, NaN\<close> and its decimal column
  \<open>NaN\<close>.
\<close>

theorem tx_handler_missing_fields:
  assumes "provider_error d = None" and "contract_value_of d = Inr (rd, v)" and "txID d = Some h"
    and "timestamp rd = None" and "amount v = None" and "includeNoDecimalAmount opts"
  shows "\<exists>r. tx_handler opts tz ntx (Http_OK d) = Inr (Some r) \<and> Amount r = None \<and>
               Amount_no_decimals r = Some ''NaN'' \<and>
               Time_of_Transaction r = ''undefined, undefined NaN, NaN''"
proof -
  have "formatDate tz None = ''undefined, undefined NaN, NaN''"
    by (simp add: formatDate_def TimeClip_def date_getters_def js_array_get_def js_str_of_opt_def
        js_num_str_def)
  then show ?thesis
    using assms by (simp add: tx_handler_formatted format_tx_def no_decimal_amount_def)
qed

theorem tx_handler_missing_fields_witness:
  "\<exists>r. tx_handler \<lparr>includeNoDecimalAmount = True, log = False\<rparr> (\<lambda>_. 0) 1
          (Http_OK \<lparr>Error = None, txID = Some ''abc'',
             raw_data = Some \<lparr>contract = Some [\<lparr>parameter = Some \<lparr>parameter_value = Some
               \<lparr>amount = None, owner_address = None, to_address = None\<rparr>\<rparr>\<rparr>], timestamp = None\<rparr>\<rparr>)
        = Inr (Some r) \<and> Amount r = None \<and> Amount_no_decimals r = Some ''NaN'' \<and>
        Time_of_Transaction r = ''undefined, undefined NaN, NaN''"
  by (rule tx_handler_missing_fields) (simp add: provider_error_def contract_value_of_def)+

text \<open>
  C13. The request body carries the id exactly: read back as JSON, \<open>request_body tx\<close>
  is the object \<open>{"value": tx}\<close> for every string \<open>tx\<close>, quotes, backslashes and
  control characters included.
\<close>

theorem request_body_roundtrip: "read_value_object (request_body tx) = Some tx"
  by (simp add: request_body_def read_value_object_def json_string_quote)

subsection \<open>The whole call\<close>

abbreviation handled ::
  "(js_string \<Rightarrow> js_string \<Rightarrow> http_result) \<Rightarrow> tz_offset \<Rightarrow> js_string \<Rightarrow> options
   \<Rightarrow> (fetch_error + tx_data option) list" where
  "handled net tz s opts \<equiv>
     map (\<lambda>txId. tx_handler opts tz (length (normalize_ids s)) (net API_URL (request_body txId)))
         (normalize_ids s)"

end
