(* ===== verification/EventLoop.thy ===== *)
theory EventLoop
  imports Fetcher
begin

text \<open>
  The call of \<^verbatim>\<open>src/src/index.ts\<close> as the event loop runs it. After line 59 has
  started every request, the call is a state: the requests still in flight, the state
  of \<open>Promise.all\<close> (\<open>all_state\<close>), and the order in which requests settled so far.
  A step is one request settling, whichever is in flight: the choice of the network, so
  the steps are an inductive relation (\<open>settle\<close>) and the states the call can be in
  are its reachable states (\<open>loop_reach\<close>). What the call has answered in a state is
  \<open>respond\<close> (lines 98--103) applied to the outcome of \<open>Promise.all\<close>
  (\<open>call_answer\<close>; \<open>None\<close> while it has not answered).

  The theory proves, by rule induction over the reachable states, the bookkeeping
  invariant (settled and in-flight requests partition the requests, each settles once)
  and that the relational model and the functional one (\<open>getTransactionById\<close> with
  a settlement schedule) agree in every reachable state; from these: once the call has
  answered the answer never changes, a run that has settled every request has answered
  what the contract \<open>all_spec\<close> says, and a state with a request in flight can step.
\<close>

record ('e, 'a) loop_state =
  in_flight :: "nat set"
  combinator :: "('e, 'a) all_state"
  settled :: "nat list"

definition loop_init :: "nat \<Rightarrow> ('e, 'a) loop_state" where
  "loop_init n = \<lparr>in_flight = {..<n}, combinator = all_init n, settled = []\<rparr>"

text \<open>One request in flight settles with its handler's result \<open>rs ! i\<close>.\<close>

inductive settle :: "('e + 'a) list \<Rightarrow> ('e, 'a) loop_state \<Rightarrow> ('e, 'a) loop_state \<Rightarrow> bool"
  for rs where
  settle_one: "i \<in> in_flight st \<Longrightarrow>
     settle rs st \<lparr>in_flight = in_flight st - {i}, combinator = all_step (combinator st) (i, rs ! i),
                   settled = settled st @ [i]\<rparr>"

inductive loop_reach :: "('e + 'a) list \<Rightarrow> ('e, 'a) loop_state \<Rightarrow> bool" for rs where
  start: "loop_reach rs (loop_init (length rs))"
| step: "loop_reach rs st \<Longrightarrow> settle rs st st' \<Longrightarrow> loop_reach rs st'"

inductive_cases settle_cases: "settle rs st st'"

definition call_answer :: "options \<Rightarrow> (fetch_error, tx_data option) loop_state \<Rightarrow> (response \<times> log_event list) option" where
  "call_answer opts st = map_option (respond opts) (all_outcome (combinator st))"

text \<open>The invariant: a partition of the requests, and the combinator's state is the fold of
  the settlements so far.\<close>

definition loop_inv :: "('e + 'a) list \<Rightarrow> ('e, 'a) loop_state \<Rightarrow> bool" where
  "loop_inv rs st \<longleftrightarrow>
     distinct (settled st) \<and> set (settled st) \<inter> in_flight st = {} \<and>
     set (settled st) \<union> in_flight st = {..<length rs} \<and>
     combinator st = foldl all_step (all_init (length rs)) (map (\<lambda>i. (i, rs ! i)) (settled st))"

abbreviation call_reach ::
  "(js_string \<Rightarrow> js_string \<Rightarrow> http_result) \<Rightarrow> tz_offset \<Rightarrow> js_string \<Rightarrow> options
   \<Rightarrow> (fetch_error, tx_data option) loop_state \<Rightarrow> bool" where
  "call_reach net tz s opts \<equiv> loop_reach (handled net tz s opts)"

text \<open>The state after the first settlement, request \<open>i\<close>.\<close>

definition first_settled :: "('e + 'a) list \<Rightarrow> nat \<Rightarrow> ('e, 'a) loop_state" where
  "first_settled rs i =
     \<lparr>in_flight = {..<length rs} - {i}, combinator = all_step (all_init (length rs)) (i, rs ! i),
      settled = [i]\<rparr>"

text \<open>A network that is down, and options that print nothing, for the instances below.\<close>

abbreviation down_net :: "js_string \<Rightarrow> js_string \<Rightarrow> http_result" where
  "down_net \<equiv> \<lambda>_ _. Http_Failure ''Network Error''"

abbreviation quiet :: options where
  "quiet \<equiv> \<lparr>includeNoDecimalAmount = False, log = False\<rparr>"

subsection \<open>The invariant\<close>

lemma loop_init_inv: "loop_inv rs (loop_init (length rs))"
  by (simp add: loop_inv_def loop_init_def)

lemma settle_inv: "settle rs st st' \<Longrightarrow> loop_inv rs st \<Longrightarrow> loop_inv rs st'"
  by (induction rule: settle.induct) (auto simp: loop_inv_def)

lemma loop_reach_inv: "loop_reach rs st \<Longrightarrow> loop_inv rs st"
proof (induction rule: loop_reach.induct)
  case start
  show ?case by (rule loop_init_inv)
next
  case (step st st')
  then show ?case by (blast intro: settle_inv)
qed

lemma loop_reach_promise_all:
  "loop_reach rs st \<Longrightarrow> all_outcome (combinator st) = promise_all rs (settled st)"
  using loop_reach_inv [of rs st] by (simp add: loop_inv_def promise_all_def)

lemma loop_reach_complete:
  assumes "loop_reach rs st" and "in_flight st = {}"
  shows "complete_schedule (length rs) (settled st)"
  using loop_reach_inv [OF assms(1)] assms(2) by (simp add: loop_inv_def complete_schedule_def)


lemma loop_reach_first:
  assumes "i < length rs"
  shows "loop_reach rs (first_settled rs i)"
proof -
  have "settle rs (loop_init (length rs))
          \<lparr>in_flight = in_flight (loop_init (length rs)) - {i},
           combinator = all_step (combinator (loop_init (length rs))) (i, rs ! i),
           settled = settled (loop_init (length rs)) @ [i]\<rparr>"
    using settle_one [where st = "loop_init (length rs)" and i = i] assms by (simp add: loop_init_def)
  then have "settle rs (loop_init (length rs)) (first_settled rs i)"
    by (simp add: loop_init_def first_settled_def)
  with loop_reach.start show ?thesis by (rule loop_reach.step)
qed

lemma loop_reach_steps: "(settle rs)\<^sup>*\<^sup>* st st' \<Longrightarrow> loop_reach rs st \<Longrightarrow> loop_reach rs st'"
  by (induction rule: rtranclp_induct) (auto intro: loop_reach.step)

lemma settle_finishes:
  "finite (in_flight st) \<Longrightarrow> \<exists>st'. (settle rs)\<^sup>*\<^sup>* st st' \<and> in_flight st' = {}"
proof (induction "card (in_flight st)" arbitrary: st rule: less_induct)
  case less
  show ?case
  proof (cases "in_flight st = {}")
    case True
    then show ?thesis by blast
  next
    case False
    then obtain i where i: "i \<in> in_flight st" by blast
    let ?st = "\<lparr>in_flight = in_flight st - {i}, combinator = all_step (combinator st) (i, rs ! i),
                settled = settled st @ [i]\<rparr>"
    have s: "settle rs st ?st" using i by (rule settle_one)
    have "card (in_flight ?st) < card (in_flight st)"
      using card_Diff1_less [OF less.prems i] by simp
    moreover have "finite (in_flight ?st)" using less.prems by simp
    ultimately obtain st' where "(settle rs)\<^sup>*\<^sup>* ?st st'" "in_flight st' = {}"
      using less.hyps by blast
    with s show ?thesis by (blast intro: converse_rtranclp_into_rtranclp)
  qed
qed

lemma loop_reach_finite: "loop_reach rs st \<Longrightarrow> finite (in_flight st)"
proof -
  assume "loop_reach rs st"
  then have "in_flight st \<subseteq> {..<length rs}" using loop_reach_inv by (auto simp: loop_inv_def)
  then show ?thesis by (rule finite_subset) simp
qed

lemma all_outcome_steps:
  "(settle rs)\<^sup>*\<^sup>* st st' \<Longrightarrow> all_outcome (combinator st) \<noteq> None \<Longrightarrow>
   all_outcome (combinator st') = all_outcome (combinator st)"
proof (induction rule: rtranclp_induct)
  case base
  then show ?case by simp
next
  case (step y z)
  from step.hyps(2) show ?case
    by (cases rule: settle.cases) (use step in \<open>simp add: all_step_outcome_kept\<close>)
qed

subsection \<open>Properties of the call\<close>

text \<open>
  In every state the call can reach, each request has settled at most once, and the
  settled requests and those in flight are, together, exactly the requests made.
\<close>

theorem call_reach_partition:
  assumes "call_reach net tz s opts st"
  shows "distinct (settled st) \<and> set (settled st) \<inter> in_flight st = {} \<and>
         set (settled st) \<union> in_flight st = {..<length (normalize_ids s)}"
  using loop_reach_inv [OF assms] by (simp add: loop_inv_def)

lemma ab_ids: "normalize_ids ''a,b'' = [''a'', ''b'']" "normalize_ids ''a'' = [''a'']"
  by (simp_all add: normalize_ids_def js_trim_def is_js_space_def)

lemma ab_first: "i < 2 \<Longrightarrow> call_reach down_net (\<lambda>_. 0) ''a,b'' quiet (first_settled (handled down_net (\<lambda>_. 0) ''a,b'' quiet) i)"
  by (rule loop_reach_first) (simp add: ab_ids)

theorem call_reach_partition_witness:
  "settled (first_settled (handled down_net (\<lambda>_. 0) ''a,b'' quiet) 1) = [1] \<and>
   in_flight (first_settled (handled down_net (\<lambda>_. 0) ''a,b'' quiet) 1) = {0} \<and>
   distinct (settled (first_settled (handled down_net (\<lambda>_. 0) ''a,b'' quiet) 1)) \<and>
   set (settled (first_settled (handled down_net (\<lambda>_. 0) ''a,b'' quiet) 1)) \<inter>
     in_flight (first_settled (handled down_net (\<lambda>_. 0) ''a,b'' quiet) 1) = {} \<and>
   set (settled (first_settled (handled down_net (\<lambda>_. 0) ''a,b'' quiet) 1)) \<union>
     in_flight (first_settled (handled down_net (\<lambda>_. 0) ''a,b'' quiet) 1) = {..<length (normalize_ids ''a,b'')}"
proof -
  have two: "{..<Suc (Suc 0)} - {Suc 0} = {0}" by auto
  from call_reach_partition [OF ab_first [of 1]] show ?thesis
    by (simp add: first_settled_def ab_ids two)
qed

text \<open>
  The relational model and the functional one agree: in every state the call can
  reach, what it has answered is what \<open>getTransactionById\<close> answers for the
  settlement order so far (\<open>None\<close> when it is still waiting).
\<close>

theorem call_answer_agrees:
  assumes "call_reach net tz s opts st"
  shows "call_answer opts st = getTransactionById net tz (settled st) s opts"
  using loop_reach_promise_all [OF assms] by (simp add: call_answer_def getTransactionById_def Let_def)

theorem call_answer_agrees_witness:
  "call_answer quiet (first_settled (handled down_net (\<lambda>_. 0) ''a,b'' quiet) 1) =
     getTransactionById down_net (\<lambda>_. 0) [1] ''a,b'' quiet \<and>
   call_answer quiet (first_settled (handled down_net (\<lambda>_. 0) ''a,b'' quiet) 1) =
     Some (Failure ''Network Error'', [])"
proof -
  have "call_answer quiet (first_settled (handled down_net (\<lambda>_. 0) ''a,b'' quiet) 1) =
          Some (Failure ''Network Error'', [])"
    by (simp add: call_answer_def first_settled_def ab_ids all_init_def respond_def)
  with call_answer_agrees [OF ab_first [of 1]] show ?thesis by (simp add: first_settled_def)
qed

text \<open>
  Refinement of the contract: a run that has settled every request has answered,
  and its answer is \<open>respond\<close> of what \<open>all_spec\<close> prescribes for that settlement
  order (the first rejection to settle, or every value in the order of the ids).
\<close>

theorem call_answer_contract:
  assumes "call_reach net tz s opts st" and "in_flight st = {}"
  shows "call_answer opts st = Some (respond opts (all_spec (handled net tz s opts) (settled st)))"
  using loop_reach_promise_all [OF assms(1)] promise_all_refines [OF loop_reach_complete [OF assms]]
  by (simp add: call_answer_def)

theorem call_answer_contract_witness:
  "call_answer quiet (first_settled (handled down_net (\<lambda>_. 0) ''a'' quiet) 0) =
     Some (respond quiet (all_spec (handled down_net (\<lambda>_. 0) ''a'' quiet)
                            (settled (first_settled (handled down_net (\<lambda>_. 0) ''a'' quiet) 0))))"
proof (rule call_answer_contract)
  show "call_reach down_net (\<lambda>_. 0) ''a'' quiet (first_settled (handled down_net (\<lambda>_. 0) ''a'' quiet) 0)"
    by (rule loop_reach_first) (simp add: ab_ids)
  show "in_flight (first_settled (handled down_net (\<lambda>_. 0) ''a'' quiet) 0) = {}"
    by (auto simp: first_settled_def ab_ids)
qed

text \<open>
  Once the call has answered, its answer never changes, whatever settles afterwards:
  a later rejection or fulfilment finds \<open>Promise.all\<close> already settled.
\<close>

theorem call_answer_stable:
  assumes "(settle (handled net tz s opts))\<^sup>*\<^sup>* st st'" and "call_answer opts st = Some a"
  shows "call_answer opts st' = Some a"
  using all_outcome_steps [OF assms(1)] assms(2) by (auto simp: call_answer_def)

theorem call_answer_stable_witness:
  "call_answer quiet
     \<lparr>in_flight = in_flight (first_settled (handled down_net (\<lambda>_. 0) ''a,b'' quiet) 1) - {0},
      combinator = all_step (combinator (first_settled (handled down_net (\<lambda>_. 0) ''a,b'' quiet) 1))
                     (0, handled down_net (\<lambda>_. 0) ''a,b'' quiet ! 0),
      settled = settled (first_settled (handled down_net (\<lambda>_. 0) ''a,b'' quiet) 1) @ [0]\<rparr> =
   Some (Failure ''Network Error'', [])"
proof (rule call_answer_stable)
  show "(settle (handled down_net (\<lambda>_. 0) ''a,b'' quiet))\<^sup>*\<^sup>*
          (first_settled (handled down_net (\<lambda>_. 0) ''a,b'' quiet) 1)
          \<lparr>in_flight = in_flight (first_settled (handled down_net (\<lambda>_. 0) ''a,b'' quiet) 1) - {0},
           combinator = all_step (combinator (first_settled (handled down_net (\<lambda>_. 0) ''a,b'' quiet) 1))
                          (0, handled down_net (\<lambda>_. 0) ''a,b'' quiet ! 0),
           settled = settled (first_settled (handled down_net (\<lambda>_. 0) ''a,b'' quiet) 1) @ [0]\<rparr>"
    by (rule r_into_rtranclp, rule settle_one) (simp add: first_settled_def ab_ids)
  show "call_answer quiet (first_settled (handled down_net (\<lambda>_. 0) ''a,b'' quiet) 1) =
          Some (Failure ''Network Error'', [])"
    by (simp add: call_answer_def first_settled_def ab_ids all_init_def respond_def)
qed

text \<open>
  From every state the call can reach, letting the requests in flight settle leads to
  a state where none is in flight and the call has answered: with every request
  settling, the call returns.
\<close>

theorem call_eventually_answers:
  assumes "call_reach net tz s opts st"
  shows "\<exists>st'. (settle (handled net tz s opts))\<^sup>*\<^sup>* st st' \<and> in_flight st' = {} \<and>
                call_answer opts st' \<noteq> None"
proof -
  obtain st' where p: "(settle (handled net tz s opts))\<^sup>*\<^sup>* st st'" and e: "in_flight st' = {}"
    using settle_finishes [OF loop_reach_finite [OF assms]] by blast
  have r: "call_reach net tz s opts st'" using loop_reach_steps [OF p assms] .
  have "call_answer opts st' \<noteq> None"
    using loop_reach_promise_all [OF r] promise_all_refines [OF loop_reach_complete [OF r e]]
    by (simp add: call_answer_def)
  with p e show ?thesis by blast
qed

theorem call_eventually_answers_witness:
  "\<exists>st'. (settle (handled down_net (\<lambda>_. 0) ''a,b'' quiet))\<^sup>*\<^sup>*
           (loop_init (length (handled down_net (\<lambda>_. 0) ''a,b'' quiet))) st' \<and>
         in_flight st' = {} \<and> call_answer quiet st' \<noteq> None"
  by (rule call_eventually_answers) (rule loop_reach.start)

end
