(* ===== verification/TestSuite.thy ===== *)
theory TestSuite
  imports EventLoop
begin

text \<open>
  The repository's test suite, \<^verbatim>\<open>src/test/index.test.ts\<close>, as predicates on the
  result of \<open>getTransactionById\<close>. It has three Jest tests against the live endpoint:
  \<^item> one random hash of the fixture \<open>hashes\<close> with \<open>{log: true}\<close>: \<open>data\<close> is an
    object containing a string \<open>HASH\<close>, string addresses, a number \<open>Amount\<close> and a
    string date (\<open>test_get_single\<close>, lines 5--21);
  \<^item> all hashes joined with commas, no options: \<open>data\<close> is an array containing a record
    equal to one with exactly those five fields, \<open>toEqual\<close> ignoring the undefined
    decimal column (\<open>test_get_multiple\<close>, lines 23--40);
  \<^item> the first hash with \<open>0z\<close> appended: \<open>data\<close> is undefined and \<open>error\<close> a string
    (\<open>test_invalid_id\<close>, lines 42--47).
  The fixture \<^verbatim>\<open>test/hashes\<close> is not in the repository and the endpoint is not the
  model's to give, so the theorem of this theory states what the suite presumes of them:
  at least two hashes, each without comma or blank, each answered with a complete
  transaction (\<open>answers_transaction\<close>), and the altered hash answered with something the
  handler raises on. Under these the program passes all three tests, whatever the order in
  which the batch's requests settle.
\<close>

text \<open>No options: \<open>options?.log\<close> and \<open>options?.includeNoDecimalAmount\<close> are undefined.\<close>

definition no_options :: options where
  "no_options = \<lparr>includeNoDecimalAmount = False, log = False\<rparr>"

text \<open>\<open>expect.objectContaining\<close> of lines 11--20; \<open>HASH\<close> and the date are strings in
  every record the handler builds.\<close>

fun test_record :: "tx_data option \<Rightarrow> bool" where
  "test_record None = False"
| "test_record (Some t) \<longleftrightarrow> From_Address t \<noteq> None \<and> To_Address t \<noteq> None \<and> Amount t \<noteq> None"

text \<open>\<open>toEqual\<close> with the object literal of lines 30--37: the same five fields, no other
  defined one.\<close>

fun test_exact_record :: "tx_data option \<Rightarrow> bool" where
  "test_exact_record t \<longleftrightarrow> test_record t \<and> (case t of None \<Rightarrow> False | Some x \<Rightarrow> Amount_no_decimals x = None)"

definition test_get_single :: "(response \<times> log_event list) option \<Rightarrow> bool" where
  "test_get_single r = (case r of Some (Data (One t), _) \<Rightarrow> test_record t | _ \<Rightarrow> False)"

definition test_get_multiple :: "(response \<times> log_event list) option \<Rightarrow> bool" where
  "test_get_multiple r = (case r of Some (Data (Many l), _) \<Rightarrow> list_ex test_exact_record l | _ \<Rightarrow> False)"

definition test_invalid_id :: "(response \<times> log_event list) option \<Rightarrow> bool" where
  "test_invalid_id r = (case r of Some (Failure m, _) \<Rightarrow> True | _ \<Rightarrow> False)"

text \<open>What the suite presumes of the endpoint for a hash of the fixture.\<close>

fun answers_transaction :: "http_result \<Rightarrow> bool" where
  "answers_transaction (Http_Failure m) = False"
| "answers_transaction (Http_OK d) \<longleftrightarrow>
     provider_error d = None \<and>
     (case contract_value_of d of
        Inl _ \<Rightarrow> False
      | Inr (rd, v) \<Rightarrow> txID d \<noteq> None \<and> owner_address v \<noteq> None \<and> to_address v \<noteq> None \<and> amount v \<noteq> None)"

definition plain_hash :: "js_string \<Rightarrow> bool" where
  "plain_hash h \<longleftrightarrow> CHR '','' \<notin> set h \<and> js_trim h \<noteq> []"

subsection \<open>Lemmas\<close>

lemma normalize_ids_plain: "plain_hash h \<Longrightarrow> normalize_ids h = [h]"
  by (simp add: plain_hash_def normalize_ids_def js_split_no_sep)

lemma normalize_ids_join:
  assumes "hs \<noteq> []" and "\<forall>h \<in> set hs. plain_hash h"
  shows "normalize_ids (js_join CHR '','' hs) = hs"
  using assms js_split_join [OF assms(1), of "CHR '',''"]
  by (simp add: normalize_ids_def plain_hash_def filter_id_conv)

lemma plain_hash_suffix: "plain_hash h \<Longrightarrow> plain_hash (h @ ''0z'')"
  by (simp add: plain_hash_def js_trim_empty_iff is_js_space_def)

lemma answers_transaction_handler:
  assumes "answers_transaction r"
  shows "\<exists>t. tx_handler opts tz n r = Inr (Some t) \<and> test_record (Some t) \<and>
             (\<not> includeNoDecimalAmount opts \<longrightarrow> Amount_no_decimals t = None)"
proof -
  obtain d rd v h where d: "r = Http_OK d" "provider_error d = None" "contract_value_of d = Inr (rd, v)"
      "txID d = Some h" "owner_address v \<noteq> None" "to_address v \<noteq> None" "amount v \<noteq> None"
    using assms by (cases r) (auto split: sum.splits)
  then show ?thesis by (simp add: tx_handler_formatted format_tx_def)
qed

lemma single_fulfilled:
  "promise_all [Inr x] [0] = Some (Inr [x])" "promise_all [Inl e] [0] = Some (Inl e)"
  by (simp_all add: promise_all_def all_init_def)


lemma handled_join:
  assumes "hs \<noteq> []" and "\<forall>h \<in> set hs. plain_hash h \<and> answers_transaction (net API_URL (request_body h))"
  shows "length (handled net tz (js_join CHR '','' hs) no_options) = length hs \<and>
         (\<forall>i < length hs. \<exists>t. handled net tz (js_join CHR '','' hs) no_options ! i = Inr (Some t) \<and>
                              test_exact_record (Some t))"
proof -
  have ids: "normalize_ids (js_join CHR '','' hs) = hs" using assms by (simp add: normalize_ids_join)
  have "\<exists>t. handled net tz (js_join CHR '','' hs) no_options ! i = Inr (Some t) \<and> test_exact_record (Some t)"
    if "i < length hs" for i
  proof -
    have "answers_transaction (net API_URL (request_body (hs ! i)))" using assms(2) that by auto
    from answers_transaction_handler [OF this, of no_options tz "length hs"]
    show ?thesis using that by (auto simp: ids no_options_def)
  qed
  then show ?thesis by (simp add: ids)
qed

subsection \<open>The suite passes\<close>

text \<open>
  C27. For a fixture of at least two hashes, none with a comma or blank, that the endpoint
  answers with complete transactions, and an altered hash it answers with something the
  handler raises on, the three tests of \<^verbatim>\<open>src/test/index.test.ts\<close> pass: each hash
  alone gives one complete record; the joined hashes give an array holding a record with
  exactly the five expected fields, for every settlement order; the altered hash gives an
  error and no data.
\<close>

theorem repository_tests_pass:
  assumes n: "2 \<le> length hashes"
    and ok: "\<forall>h \<in> set hashes. plain_hash h \<and> answers_transaction (net API_URL (request_body h))"
    and bad: "isl (tx_handler no_options tz 1 (net API_URL (request_body (hd hashes @ ''0z''))))"
  shows "(\<forall>h \<in> set hashes.
            test_get_single (getTransactionById net tz [0] h \<lparr>includeNoDecimalAmount = False, log = True\<rparr>)) \<and>
         (\<forall>sched. complete_schedule (length hashes) sched \<longrightarrow>
            test_get_multiple (getTransactionById net tz sched (js_join CHR '','' hashes) no_options)) \<and>
         test_invalid_id (getTransactionById net tz [0] (hd hashes @ ''0z'') no_options)"
proof (intro conjI ballI allI impI)
  fix h
  assume "h \<in> set hashes"
  then have p: "plain_hash h" and a: "answers_transaction (net API_URL (request_body h))"
    using ok by auto
  obtain t where t: "tx_handler \<lparr>includeNoDecimalAmount = False, log = True\<rparr> tz 1 (net API_URL (request_body h))
                       = Inr (Some t)" "test_record (Some t)"
    using answers_transaction_handler [OF a] by blast
  then show "test_get_single (getTransactionById net tz [0] h \<lparr>includeNoDecimalAmount = False, log = True\<rparr>)"
    by (simp add: getTransactionById_def normalize_ids_plain [OF p] single_fulfilled respond_def
        test_get_single_def)
next
  fix sched
  assume s: "complete_schedule (length hashes) sched"
  let ?rs = "handled net tz (js_join CHR '','' hashes) no_options"
  have ne: "hashes \<noteq> []" using n by auto
  from handled_join [where net = net and tz = tz, OF ne ok]
  have len: "length ?rs = length hashes"
    and each: "\<forall>i < length hashes. \<exists>t. ?rs ! i = Inr (Some t) \<and> test_exact_record (Some t)"
    by blast+
  have "\<forall>r \<in> set ?rs. \<not> isl r" using each len by (fastforce simp: in_set_conv_nth)
  moreover have "set sched \<subseteq> {..<length ?rs}" using s len by (simp add: complete_schedule_def)
  ultimately have "promise_all ?rs sched = Some (Inr (map projr ?rs))"
    using s len by (simp add: promise_all_refines all_spec_all_fulfilled)
  moreover obtain t0 where "?rs ! 0 = Inr (Some t0)" "test_exact_record (Some t0)"
    using each n by fastforce
  moreover have "?rs \<noteq> []" using len ne by (metis length_0_conv)
  ultimately show "test_get_multiple (getTransactionById net tz sched (js_join CHR '','' hashes) no_options)"
    using len n by (auto simp: getTransactionById_def respond_def test_get_multiple_def list_ex_iff
        neq_Nil_conv simp del: test_exact_record.simps)
next
  have "hashes \<noteq> []" using n by auto
  then have "plain_hash (hd hashes)" using ok by simp
  then have "plain_hash (hd hashes @ ''0z'')" by (rule plain_hash_suffix)
  moreover obtain e where "tx_handler no_options tz 1 (net API_URL (request_body (hd hashes @ ''0z''))) = Inl e"
    using bad by (cases "tx_handler no_options tz 1 (net API_URL (request_body (hd hashes @ ''0z'')))") auto
  ultimately show "test_invalid_id (getTransactionById net tz [0] (hd hashes @ ''0z'') no_options)"
    by (simp add: getTransactionById_def normalize_ids_plain single_fulfilled respond_def test_invalid_id_def)
qed

end
