(* ===== verification/Axios.thy ===== *)
theory Axios
  imports Fetcher
begin

text \<open>
  What \<open>await axios.post(API_URL, body)\<close> (lines 62--67 of \<^verbatim>\<open>src/src/index.ts\<close>)
  settles with, from the server's reply, modelled from axios's documented defaults (the
  library is not code of the repository): a request that gets no response rejects with the
  transport's message; a response is accepted when \<open>validateStatus\<close> holds
  (\<open>200 \<le> status < 300\<close>) and rejected otherwise with the message
  \<open>"Request failed with status code <status>"\<close>; the default \<open>transformResponse\<close>
  parses a JSON body and leaves any other body as the string it is. The handler reads a
  string's \<open>Error\<close>, \<open>raw_data\<close> and \<open>txID\<close> as \<open>undefined\<close>, which is the
  response with every field absent (\<open>text_as_response\<close>).

  With the network as \<open>axios_post\<close> of a server, the theory shows what the call answers
  for one id when the status is not 2xx and when a 2xx body is not JSON.
\<close>

datatype http_body = Json_Body tron_response | Text_Body js_string

datatype server_reply = No_Response js_string | Reply int http_body

definition text_as_response :: tron_response where
  "text_as_response = \<lparr>Error = None, txID = None, raw_data = None\<rparr>"

definition axios_post :: "server_reply \<Rightarrow> http_result" where
  "axios_post r =
     (case r of
        No_Response m \<Rightarrow> Http_Failure m
      | Reply status body \<Rightarrow>
          if 200 \<le> status \<and> status < 300
          then Http_OK (case body of Json_Body d \<Rightarrow> d | Text_Body _ \<Rightarrow> text_as_response)
          else Http_Failure (''Request failed with status code '' @ int_str status))"

text \<open>A server for the instance below: a 500 for one id, an HTML page for every other.\<close>

definition demo_server :: "js_string \<Rightarrow> js_string \<Rightarrow> server_reply" where
  "demo_server url body =
     (if body = request_body ''t500'' then Reply 500 (Text_Body ''Internal Server Error'')
      else Reply 200 (Text_Body ''<html></html>''))"

subsection \<open>Lemmas\<close>

lemma axios_post_status:
  "\<not> (200 \<le> status \<and> status < 300) \<Longrightarrow>
   axios_post (Reply status body) = Http_Failure (''Request failed with status code '' @ int_str status)"
  by (simp add: axios_post_def)

lemma axios_post_text:
  "200 \<le> status \<Longrightarrow> status < 300 \<Longrightarrow> axios_post (Reply status (Text_Body x)) = Http_OK text_as_response"
  by (simp add: axios_post_def)

lemma tx_handler_text:
  "tx_handler opts tz ntx (Http_OK text_as_response) = Inl (TypeError Destructure_undefined)"
  by (simp add: tx_handler_def text_as_response_def provider_error_def contract_value_of_def)

lemma single_request:
  assumes "normalize_ids s = [tx]" and "tx_handler opts tz 1 (net API_URL (request_body tx)) = r"
  shows "getTransactionById net tz [0] s opts = map_option (respond opts) (promise_all [r] [0])"
  using assms by (simp add: getTransactionById_def)

subsection \<open>HTTP errors reach the caller\<close>

text \<open>
  C16. For one id, a reply whose status is not 2xx fails the call with axios's message
  \<open>Request failed with status code <status>\<close>; a 2xx reply whose body is not JSON
  fails it with the \<open>TypeError\<close> of the destructuring on line 76, not with a parse error.
\<close>

theorem getTransactionById_http_errors:
  assumes "normalize_ids s = [tx]" and "server API_URL (request_body tx) = Reply status body"
  shows "(\<not> (200 \<le> status \<and> status < 300) \<longrightarrow>
            getTransactionById (\<lambda>u b. axios_post (server u b)) tz [0] s opts =
              Some (Failure (''Request failed with status code '' @ int_str status),
                    if log opts then [Logged_error (Transport_Error (''Request failed with status code '' @ int_str status))]
                    else [])) \<and>
         (200 \<le> status \<and> status < 300 \<and> (\<exists>x. body = Text_Body x) \<longrightarrow>
            getTransactionById (\<lambda>u b. axios_post (server u b)) tz [0] s opts =
              Some (Failure (error_message (TypeError Destructure_undefined)),
                    if log opts then [Logged_error (TypeError Destructure_undefined)] else []))"
proof (intro conjI impI)
  assume "\<not> (200 \<le> status \<and> status < 300)"
  then have "tx_handler opts tz 1 (axios_post (server API_URL (request_body tx))) =
               Inl (Transport_Error (''Request failed with status code '' @ int_str status))"
    using assms(2) by (simp add: axios_post_status)
  from single_request [where net = "\<lambda>u b. axios_post (server u b)", OF assms(1) this] show "getTransactionById (\<lambda>u b. axios_post (server u b)) tz [0] s opts =
      Some (Failure (''Request failed with status code '' @ int_str status),
            if log opts then [Logged_error (Transport_Error (''Request failed with status code '' @ int_str status))]
            else [])"
    by (simp add: promise_all_def all_init_def respond_def)
next
  assume "200 \<le> status \<and> status < 300 \<and> (\<exists>x. body = Text_Body x)"
  then have "tx_handler opts tz 1 (axios_post (server API_URL (request_body tx))) =
               Inl (TypeError Destructure_undefined)"
    using assms(2) by (auto simp: axios_post_text tx_handler_text)
  from single_request [where net = "\<lambda>u b. axios_post (server u b)", OF assms(1) this] show "getTransactionById (\<lambda>u b. axios_post (server u b)) tz [0] s opts =
      Some (Failure (error_message (TypeError Destructure_undefined)),
            if log opts then [Logged_error (TypeError Destructure_undefined)] else [])"
    by (simp add: promise_all_def all_init_def respond_def)
qed

lemma demo_server_ids: "normalize_ids ''t500'' = [''t500'']" "normalize_ids ''t200'' = [''t200'']"
  by (simp_all add: normalize_ids_def js_trim_def is_js_space_def)

theorem getTransactionById_http_errors_witness:
  "getTransactionById (\<lambda>u b. axios_post (demo_server u b)) (\<lambda>_. 0) [0] ''t500''
     \<lparr>includeNoDecimalAmount = False, log = False\<rparr> =
     Some (Failure ''Request failed with status code 500'', []) \<and>
   getTransactionById (\<lambda>u b. axios_post (demo_server u b)) (\<lambda>_. 0) [0] ''t200''
     \<lparr>includeNoDecimalAmount = False, log = False\<rparr> =
     Some (Failure (error_message (TypeError Destructure_undefined)), [])"
proof -
  have r: "demo_server API_URL (request_body ''t500'') = Reply 500 (Text_Body ''Internal Server Error'')"
    "demo_server API_URL (request_body ''t200'') = Reply 200 (Text_Body ''<html></html>'')"
    by (simp_all add: demo_server_def request_body_def json_quote_def json_escape_char_def dquote_def)
  have s: "int_str 500 = ''500''" by (simp add: js_eval)
  from getTransactionById_http_errors [where server = demo_server and tz = "\<lambda>_. 0"
         and opts = "\<lparr>includeNoDecimalAmount = False, log = False\<rparr>", OF demo_server_ids(1) r(1)]
       getTransactionById_http_errors [where server = demo_server and tz = "\<lambda>_. 0"
         and opts = "\<lparr>includeNoDecimalAmount = False, log = False\<rparr>", OF demo_server_ids(2) r(2)]
  show ?thesis by (simp add: s)
qed

end
