(* ===== verification/Spec2Isabelle.thy ===== *)
theory Spec2Isabelle
  imports TestSuite Axios
begin

text \<open>
  \<^bold>\<open>A verification library for tron-tx-reader.\<close>

  \<^bold>\<open>The program.\<close> \<^verbatim>\<open>src/src/index.ts\<close> exports one asynchronous function,
  \<open>getTransactionById(transactionId, options)\<close>. It splits its argument on commas,
  keeps the pieces that are not blank, posts one request per piece to the TronGrid
  endpoint, all at once, and waits for them with \<open>Promise.all\<close>. Each response is
  formatted into a record by two helpers, \<open>ellipsify\<close> (the shortened hash) and
  \<open>formatDate\<close> (the date of the transaction), with an optional column computed by
  bignumber.js. A provider error fails the call when one id was asked for and becomes
  \<open>null\<close> in a batch; any other exception fails the call with its message.
  \<^verbatim>\<open>src/test/index.test.ts\<close> runs the function against the live endpoint on a
  fixture of hashes that is not in the repository; its three expectations are modelled
  (\<open>TestSuite\<close>) and proved to hold under what they presume of fixture and endpoint.

  \<^bold>\<open>The theories.\<close>
  \<^item> \<open>Prelude\<close>: the model's types (\<open>js_string\<close>, \<open>js_int\<close> for a number that may be
    \<open>NaN\<close> or \<open>undefined\<close>), decimal digits with their read-back, floor and ceiling
    division.
  \<^item> \<open>JsString\<close>: the builtins \<open>String.prototype.slice\<close>, \<open>split\<close>, \<open>trim\<close>
    and \<open>JSON.stringify\<close> of a string, from ECMA-262; the split/join round trip.
  \<^item> \<open>Ellipsify\<close>: \<open>ellipsify\<close> (lines 27--32), its pad (\<open>ellipsify_pad\<close>), the
    shape and length of its result, the soft cap on the pad, a pad beyond the string.
  \<^item> \<open>Calendar\<close>: the ECMA-262 date arithmetic behind the \<open>Date\<close> getters (year,
    month, day, weekday, \<open>MakeDay\<close>, local time, \<open>TimeClip\<close>); the year computed by
    a scan bounded by one 400-year cycle (400 steps are enough because a cycle has
    146097 days and the scan starts at the cycle holding the day) is proved to be the
    largest year starting on or before the day, as the standard defines it.
  \<^item> \<open>DateFormat\<close>: \<open>formatDate\<close> (lines 39--44) and its tables (lines 5--19); a valid
    date prints table entries and integers, an invalid one prints
    \<open>undefined, undefined NaN, NaN\<close>; a reader \<open>read_formatted_date\<close> gets
    weekday, month, day and year of a valid date back from the printed text.
  \<^item> \<open>JsNumber\<close>: JavaScript numbers on integral values, from ECMA-262: the number
    JSON.parse makes of an integer (the nearest binary64 value, \<open>js_number_of_int\<close>,
    rounding to a multiple of \<open>2^(b-53)\<close> for a \<open>b\<close>-bit integer, ties to even)
    and the value of \<open>String(x)\<close> (\<open>number_string_value\<close>, the shortest decimal
    that rounds back, found by a search over the powers of ten bounded by the number of
    digits). Proved: the rounding is monotone and idempotent, the decimal found rounds
    back, both are the identity below \<open>2^53\<close>, and values from \<open>10^27\<close> print as
    at least \<open>10^27\<close>.
  \<^item> \<open>Decimal\<close>: the \<open>Amount (no decimals)\<close> column (lines 82, 88--90), bignumber.js's
    \<open>toString\<close> of \<open>String(amount) / 10^6\<close>. Below \<open>10^27\<close> bignumber.js
    prints the plain decimal rendering \<open>decimal_plain\<close> (an equivalence proof against a
    reference definition); for a safe integer amount (below \<open>2^53\<close>) the column is
    that rendering of \<open>amount / 10^6\<close> and reads back (\<open>read_decimal\<close>) to it
    exactly; above \<open>2^53\<close> it shows the digits of the rounded number
    (\<open>2^60\<close> prints \<open>1152921504606.847\<close>); from \<open>10^27\<close> on it is exponential.
  \<^item> \<open>PromiseAll\<close>: \<open>Promise.all\<close> as a state machine over a settlement schedule,
    refined to its contract \<open>all_spec\<close> (the first rejection in settlement order, or
    all values in input order); schedule independence with at most one rejection; a
    pending promise keeps the call pending; the first settled rejection decides.
  \<^item> \<open>Fetcher\<close>: the response records, \<open>normalize_ids\<close> (line 56), \<open>request_body\<close>
    (lines 62--67, read back exactly by the JSON reader of \<open>JsString\<close>),
    \<open>contract_value_of\<close> (lines 76--80), \<open>format_tx\<close> (lines 82--92), \<open>tx_handler\<close>
    (lines 60--95), \<open>respond\<close> (lines 98--103) and \<open>getTransactionById\<close> (lines
    51--105), which composes them with \<open>promise_all\<close> over a settlement schedule.
  \<^item> \<open>EventLoop\<close>: a cross-check of the schedule-based model, not a claim about the
    code: the same call as a state machine of the event loop: an inductive step
    relation \<open>settle\<close> (one request in flight settles), its reachable states
    \<open>loop_reach\<close>, and \<open>call_answer\<close> (what the awaited \<open>Promise.all\<close> has
    answered, through \<open>respond\<close>). By rule induction: the invariant that settled and
    in-flight requests partition the requests, agreement with \<open>getTransactionById\<close>
    in every reachable state, refinement of the contract \<open>all_spec\<close> in every
    finished state, stability of an answer once given, and that from every reachable
    state the call answers once the requests in flight settle (induction on their
    number).
  \<^item> \<open>TestSuite\<close>: the three Jest tests of \<^verbatim>\<open>src/test/index.test.ts\<close> as
    predicates on the result (\<open>test_get_single\<close>, \<open>test_get_multiple\<close>,
    \<open>test_invalid_id\<close>) and the theorem that the program passes them on every fixture
    of comma-free hashes the endpoint answers with complete transactions.
  \<^item> \<open>Axios\<close>: what \<open>axios.post\<close> settles with (\<open>axios_post\<close>), from a
    server's reply, modelled from axios's documented defaults: no response rejects with
    its message, a status outside 2xx rejects with
    \<open>Request failed with status code <status>\<close>, a body that is not JSON is
    passed on as a string. For one id, what the call answers in either case.
  \<^item> This theory: the properties of the whole call, stated over the network as a function
    \<open>net url body\<close> (what \<open>axios.post\<close> settles with), the host's time zone offset
    \<open>tz\<close> and the settlement schedule \<open>sched\<close> (the order in which the requests
    finish, a list of positions).

  \<^bold>\<open>How the state and the effects are modelled.\<close> The function keeps no state across
  calls; within a call the only interleaving is the order of settlement, which is the
  schedule, and the only shared structure is \<open>Promise.all\<close>'s state (collected values,
  pending count, outcome), a record threaded by \<open>all_step\<close>. Exceptions are values of
  \<open>fetch_error\<close>; the result is \<open>(response \<times> log_event list) option\<close>, where
  \<open>None\<close> is a call that never returns (a request that never settles) and the list is
  what \<open>console.table\<close>/\<open>console.log\<close> print.

  \<^bold>\<open>What is proved.\<close> Of the whole call (this theory): the shape of the result for a
  batch, for one id, for a provider error, for a transport failure, for an input with no
  id; independence of the settlement order when at most one request raises, and its
  failure otherwise (the message is that of the first rejection); fail-fast behaviour;
  a hang when a request never settles; termination for every complete settlement order;
  the shape of \<open>data\<close> (\<open>shape_ok\<close>: nothing, one record, or one entry per id), from
  the shape invariant \<open>all_wf\<close> of \<open>Promise.all\<close>; a malformed response is fatal;
  how ids are split and that they are not trimmed; what the call prints with and
  without \<open>log\<close>.
  Of the handler (\<open>Fetcher\<close>): when it yields \<open>null\<close>, and that missing fields do
  not raise. Of the helpers: the properties listed above per theory, each with a concrete
  instance evaluated by \<open>simp\<close> or \<open>code_simp\<close>.

  \<^bold>\<open>Bounds and fuel.\<close> No definition runs on fuel. The only bounded search is the
  year scan of \<open>Calendar\<close> (400 steps, enough as said above, and proved so). A call
  that may not return is modelled by the schedule: a schedule that leaves a request out
  makes \<open>getTransactionById\<close> return \<open>None\<close>, and one that settles every request
  makes it return \<open>Some\<close> (\<open>promise_all_refines\<close>). The bound \<open>10^27\<close> of the
  decimal column is bignumber.js's \<open>EXPONENTIAL_AT = 20\<close> plus the six decimals.
  The digit search of \<open>number_string_value\<close> is structural recursion on the exponent,
  started at the number of decimal digits, above which no multiple rounds back.

  \<^bold>\<open>Not modelled.\<close> The HTTP transport of axios below its settled value: sockets,
  timeouts, redirects and their messages (the parameter \<open>net\<close> stands for them;
  \<open>Axios\<close> models only status validation and body parsing, not a JSON body that is
  not an object), the engine's exact \<open>TypeError\<close> texts (V8's are
  used), IEEE doubles beyond integral values (an amount is an integer, rounded as
  JSON.parse rounds it, without overflow to \<open>Infinity\<close>; a timestamp is an integer),
  characters beyond one byte (a \<open>char\<close> is one UTF-16 code unit below 256), the
  hashes fixture of the tests (absent from the repository), and the text
  \<open>console.table\<close> and \<open>console.log\<close> print: the model records which value each
  prints (\<open>log_event\<close>), the layout is Node's.
\<close>

subsection \<open>The shape of a result\<close>

text \<open>
  What the specification promises of \<open>data\<close> for \<open>n\<close> requested ids: nothing for
  none, the single record (or \<open>null\<close>) for one, an array of \<open>n\<close> entries otherwise.
\<close>

fun shape_ok :: "nat \<Rightarrow> data_value \<Rightarrow> bool" where
  "shape_ok n Undefined \<longleftrightarrow> n = 0"
| "shape_ok n (One t) \<longleftrightarrow> n = 1"
| "shape_ok n (Many l) \<longleftrightarrow> 2 \<le> n \<and> length l = n"

subsection \<open>Fixtures\<close>

text \<open>Responses of the endpoint used by the concrete instances below.\<close>

definition demo_value :: contract_value where
  "demo_value = \<lparr>amount = Some 1000000, owner_address = Some ''TFrom'', to_address = Some ''TTo''\<rparr>"

definition demo_raw :: tx_raw_data where
  "demo_raw = \<lparr>contract = Some [\<lparr>parameter = Some \<lparr>parameter_value = Some demo_value\<rparr>\<rparr>],
               timestamp = Some 0\<rparr>"

definition demo_found :: tron_response where
  "demo_found = \<lparr>Error = None, txID = Some ''abcdefghijklmno'', raw_data = Some demo_raw\<rparr>"

definition demo_missing :: tron_response where
  "demo_missing = \<lparr>Error = Some ''transaction not found'', txID = None, raw_data = None\<rparr>"

definition demo_malformed :: tron_response where
  "demo_malformed = \<lparr>Error = None, txID = Some ''tx5'', raw_data = None\<rparr>"

definition demo_net :: "js_string \<Rightarrow> js_string \<Rightarrow> http_result" where
  "demo_net url body =
     (if body = request_body ''tx1'' then Http_OK demo_found
      else if body = request_body ''tx2'' then Http_OK demo_missing
      else if body = request_body ''tx3'' then Http_Failure ''timeout of 1000ms exceeded''
      else if body = request_body ''tx5'' then Http_OK demo_malformed
      else Http_Failure ''Network Error'')"

definition demo_opts :: options where
  "demo_opts = \<lparr>includeNoDecimalAmount = True, log = False\<rparr>"


lemma demo_net_answers:
  "demo_net API_URL (request_body ''tx1'') = Http_OK demo_found"
  "demo_net API_URL (request_body ''tx2'') = Http_OK demo_missing"
  "demo_net API_URL (request_body ''tx3'') = Http_Failure ''timeout of 1000ms exceeded''"
  "demo_net API_URL (request_body ''tx4'') = Http_Failure ''Network Error''"
  "demo_net API_URL (request_body ''tx5'') = Http_OK demo_malformed"
  by (simp_all add: demo_net_def request_body_def json_quote_def json_escape_char_def dquote_def)

lemma demo_responses:
  "provider_error demo_found = None"
  "contract_value_of demo_found = Inr (demo_raw, demo_value)"
  "txID demo_found = Some ''abcdefghijklmno''"
  "provider_error demo_missing = Some ''transaction not found''"
  by (simp_all add: demo_found_def demo_missing_def demo_raw_def provider_error_def
      contract_value_of_def)

lemmas demo_simps = demo_net_answers demo_responses tx_handler_formatted tx_handler_provider_batch
  complete_schedule_def normalize_ids_def js_trim_def is_js_space_def

lemma demo_ids: "normalize_ids ''tx1,tx3,tx2'' = [''tx1'', ''tx3'', ''tx2'']"
  "normalize_ids ''tx1,tx5'' = [''tx1'', ''tx5'']"
  "normalize_ids ''tx1,tx2'' = [''tx1'', ''tx2'']" "normalize_ids ''tx3,tx1'' = [''tx3'', ''tx1'']"
  by (simp_all add: normalize_ids_def js_trim_def is_js_space_def)

lemma handled_all_fulfilled:
  assumes "complete_schedule (length (normalize_ids s)) sched"
    and "\<forall>tx \<in> set (normalize_ids s).
           \<not> isl (tx_handler opts tz (length (normalize_ids s)) (net API_URL (request_body tx)))"
  shows "promise_all (handled net tz s opts) sched = Some (Inr (map projr (handled net tz s opts)))"
proof -
  have "set sched \<subseteq> {..<length (handled net tz s opts)}"
    using assms(1) by (simp add: complete_schedule_def)
  with assms show ?thesis
    by (simp add: promise_all_refines all_spec_all_fulfilled)
qed

text \<open>Exactly one response raises: the call fails with its message.\<close>

lemma one_raising_fails:
  assumes "complete_schedule (length (normalize_ids s)) sched" and "i < length (normalize_ids s)"
    and "handled net tz s opts ! i = Inl e"
    and "\<forall>j < length (normalize_ids s). j \<noteq> i \<longrightarrow> \<not> isl (handled net tz s opts ! j)"
  shows "getTransactionById net tz sched s opts =
           Some (Failure (error_message e), if log opts then [Logged_error e] else [])"
proof -
  have "all_spec (handled net tz s opts) sched = Inl e"
    using assms by (intro all_spec_one_rejection) (auto simp: complete_schedule_def)
  then have "promise_all (handled net tz s opts) sched = Some (Inl e)"
    using assms(1) by (simp add: promise_all_refines)
  then show ?thesis by (simp add: getTransactionById_def respond_def Let_def)
qed

subsection \<open>A batch\<close>

text \<open>
  C1. For two or more ids and responses that raise nothing, the call returns the list of
  formatted records and \<open>null\<close> placeholders, one per non-blank id and in the order of
  the ids, whatever order the requests finish in; with \<open>log\<close> the same list is printed.
\<close>

theorem getTransactionById_batch:
  assumes "complete_schedule (length (normalize_ids s)) sched"
    and "2 \<le> length (normalize_ids s)"
    and "\<forall>tx \<in> set (normalize_ids s).
           \<not> isl (tx_handler opts tz (length (normalize_ids s)) (net API_URL (request_body tx)))"
  shows "getTransactionById net tz sched s opts =
           Some (Data (Many (map projr (handled net tz s opts))),
                 if log opts then [Table (map projr (handled net tz s opts))] else [])"
proof -
  have "promise_all (handled net tz s opts) sched = Some (Inr (map projr (handled net tz s opts)))"
    using assms(1,3) by (rule handled_all_fulfilled)
  with assms(2) show ?thesis by (simp add: getTransactionById_def respond_def Let_def)
qed

theorem getTransactionById_batch_witness:
  "getTransactionById demo_net (\<lambda>_. 0) [1, 0] ''tx1,tx2'' demo_opts =
     Some (Data (Many (map projr (handled demo_net (\<lambda>_. 0) ''tx1,tx2'' demo_opts))),
           if log demo_opts then [Table (map projr (handled demo_net (\<lambda>_. 0) ''tx1,tx2'' demo_opts))]
           else [])"
  by (rule getTransactionById_batch) (auto simp: demo_simps)

subsection \<open>A single id\<close>

text \<open>
  C2. For one non-blank id whose response is a transaction, the call returns that one
  record, not wrapped in a list: the hash shortened, the addresses and the amount copied,
  the decimal column when asked for, and the formatted date.
\<close>

theorem getTransactionById_single:
  assumes "normalize_ids s = [tx]"
    and "net API_URL (request_body tx) = Http_OK d"
    and "provider_error d = None" and "contract_value_of d = Inr (rd, v)" and "txID d = Some h"
  shows "getTransactionById net tz [0] s opts =
           Some (Data (One (Some (format_tx opts tz rd v h))),
                 if log opts then [Table [Some (format_tx opts tz rd v h)]] else [])"
  using assms
  by (simp add: getTransactionById_def respond_def tx_handler_formatted promise_all_def all_init_def)

theorem getTransactionById_single_witness:
  "getTransactionById demo_net (\<lambda>_. 0) [0] ''tx1'' demo_opts =
     Some (Data (One (Some (format_tx demo_opts (\<lambda>_. 0) demo_raw demo_value ''abcdefghijklmno''))),
           if log demo_opts
           then [Table [Some (format_tx demo_opts (\<lambda>_. 0) demo_raw demo_value ''abcdefghijklmno'')]]
           else [])"
  by (rule getTransactionById_single [where tx = "''tx1''" and d = demo_found])
     (simp_all add: demo_simps)

text \<open>
  C3. For one id that the provider rejects, the whole call fails with the provider's
  message (and prints the error when \<open>log\<close> is set).
\<close>

theorem getTransactionById_single_provider_error:
  assumes "normalize_ids s = [tx]"
    and "net API_URL (request_body tx) = Http_OK d" and "provider_error d = Some m"
  shows "getTransactionById net tz [0] s opts =
           Some (Failure m, if log opts then [Logged_error (Provider_Error m)] else [])"
  using assms
  by (simp add: getTransactionById_def respond_def tx_handler_provider_single promise_all_def all_init_def)

theorem getTransactionById_single_provider_error_witness:
  "getTransactionById demo_net (\<lambda>_. 0) [0] ''tx2'' demo_opts =
     Some (Failure ''transaction not found'',
           if log demo_opts then [Logged_error (Provider_Error ''transaction not found'')] else [])"
  by (rule getTransactionById_single_provider_error [where tx = "''tx2''" and d = demo_missing])
     (simp_all add: demo_simps)

subsection \<open>Failures in a batch\<close>

text \<open>
  C4. In a batch, a request that fails in transport is not turned into a placeholder: if
  it is the only response that raises, the whole call fails with the transport's message,
  whatever the settlement order.
\<close>

theorem getTransactionById_batch_transport_failure:
  assumes "complete_schedule (length (normalize_ids s)) sched"
    and "2 \<le> length (normalize_ids s)" and "i < length (normalize_ids s)"
    and "net API_URL (request_body (normalize_ids s ! i)) = Http_Failure m"
    and "\<forall>j < length (normalize_ids s). j \<noteq> i \<longrightarrow>
           \<not> isl (tx_handler opts tz (length (normalize_ids s))
                   (net API_URL (request_body (normalize_ids s ! j))))"
  shows "getTransactionById net tz sched s opts =
           Some (Failure m, if log opts then [Logged_error (Transport_Error m)] else [])"
proof -
  have "handled net tz s opts ! i = Inl (Transport_Error m)" using assms(3,4) by simp
  moreover have "\<forall>j < length (normalize_ids s). j \<noteq> i \<longrightarrow> \<not> isl (handled net tz s opts ! j)"
    using assms(5) by simp
  ultimately show ?thesis using one_raising_fails [OF assms(1,3)] by simp
qed

theorem getTransactionById_batch_transport_failure_witness:
  "getTransactionById demo_net (\<lambda>_. 0) [2, 0, 1] ''tx1,tx3,tx2'' demo_opts =
     Some (Failure ''timeout of 1000ms exceeded'',
           if log demo_opts then [Logged_error (Transport_Error ''timeout of 1000ms exceeded'')]
           else [])"
proof (rule getTransactionById_batch_transport_failure [where i = 1])
  have ids: "normalize_ids ''tx1,tx3,tx2'' = [''tx1'', ''tx3'', ''tx2'']"
    by (simp add: normalize_ids_def js_trim_def is_js_space_def)
  show "complete_schedule (length (normalize_ids ''tx1,tx3,tx2'')) [2, 0, 1]"
    by (auto simp: ids complete_schedule_def less_Suc_eq eval_nat_numeral)
  show "2 \<le> length (normalize_ids ''tx1,tx3,tx2'')" "1 < length (normalize_ids ''tx1,tx3,tx2'')"
    by (simp_all add: ids)
  show "demo_net API_URL (request_body (normalize_ids ''tx1,tx3,tx2'' ! 1)) =
          Http_Failure ''timeout of 1000ms exceeded''"
    by (simp add: ids demo_net_answers)
  show "\<forall>j < length (normalize_ids ''tx1,tx3,tx2''). j \<noteq> 1 \<longrightarrow>
          \<not> isl (tx_handler demo_opts (\<lambda>_. 0) (length (normalize_ids ''tx1,tx3,tx2''))
                  (demo_net API_URL (request_body (normalize_ids ''tx1,tx3,tx2'' ! j))))"
    by (auto simp: ids less_Suc_eq demo_net_answers demo_responses tx_handler_formatted
        tx_handler_provider_batch)
qed

text \<open>
  C9. A response that is neither a provider error nor a transaction (no \<open>raw_data\<close>)
  makes the destructuring of line 76 throw; if it is the only response that raises, the
  whole call fails with that \<open>TypeError\<close>, for one id as for a batch.
\<close>

theorem getTransactionById_malformed_fatal:
  assumes "complete_schedule (length (normalize_ids s)) sched" and "i < length (normalize_ids s)"
    and "net API_URL (request_body (normalize_ids s ! i)) = Http_OK d"
    and "provider_error d = None" and "raw_data d = None"
    and "\<forall>j < length (normalize_ids s). j \<noteq> i \<longrightarrow> \<not> isl (handled net tz s opts ! j)"
  shows "getTransactionById net tz sched s opts =
           Some (Failure (error_message (TypeError Destructure_undefined)),
                 if log opts then [Logged_error (TypeError Destructure_undefined)] else [])"
proof -
  have h: "handled net tz s opts ! i = Inl (TypeError Destructure_undefined)"
    using assms(2-5) by (simp add: tx_handler_def contract_value_of_def)
  from assms(1,2) h assms(6) show ?thesis by (rule one_raising_fails)
qed

theorem getTransactionById_malformed_fatal_witness:
  "getTransactionById demo_net (\<lambda>_. 0) [1, 0] ''tx1,tx5'' demo_opts =
     Some (Failure (error_message (TypeError Destructure_undefined)),
           if log demo_opts then [Logged_error (TypeError Destructure_undefined)] else [])"
proof (rule getTransactionById_malformed_fatal [where i = 1 and d = demo_malformed])
  show "complete_schedule (length (normalize_ids ''tx1,tx5'')) [1, 0]"
    by (auto simp: demo_ids complete_schedule_def less_Suc_eq)
  show "1 < length (normalize_ids ''tx1,tx5'')"
    "demo_net API_URL (request_body (normalize_ids ''tx1,tx5'' ! 1)) = Http_OK demo_malformed"
    "provider_error demo_malformed = None" "raw_data demo_malformed = None"
    by (simp_all add: demo_ids demo_net_answers demo_malformed_def provider_error_def)
  show "\<forall>j < length (normalize_ids ''tx1,tx5''). j \<noteq> 1 \<longrightarrow>
          \<not> isl (handled demo_net (\<lambda>_. 0) ''tx1,tx5'' demo_opts ! j)"
    by (auto simp: demo_ids less_Suc_eq demo_net_answers demo_responses tx_handler_formatted)
qed

text \<open>
  The call returns once every request has settled: for every complete settlement
  order there is a result.
\<close>

theorem getTransactionById_terminates:
  assumes "complete_schedule (length (normalize_ids s)) sched"
  shows "\<exists>r. getTransactionById net tz sched s opts = Some r"
  using assms by (simp add: getTransactionById_def promise_all_refines Let_def)

theorem getTransactionById_terminates_witness:
  "\<exists>r. getTransactionById demo_net (\<lambda>_. 0) [1, 2, 0] ''tx1,tx3,tx2'' demo_opts = Some r"
  by (rule getTransactionById_terminates) (auto simp: demo_ids complete_schedule_def less_Suc_eq eval_nat_numeral)

text \<open>
  C8. Whatever the responses and the settlement order, the \<open>data\<close> of a successful call
  has the shape the specification gives: \<open>undefined\<close> for no id, one record (or
  \<open>null\<close>) for one id, an array with one entry per id for two or more.
\<close>

theorem getTransactionById_data_shape:
  assumes "getTransactionById net tz sched s opts = Some (Data d, out)"
  shows "shape_ok (length (normalize_ids s)) d"
proof -
  obtain r where p: "promise_all (handled net tz s opts) sched = Some r"
    and r: "respond opts r = (Data d, out)"
    using assms by (auto simp: getTransactionById_def Let_def)
  then obtain vs where v: "r = Inr vs"
    and d: "d = (if length vs \<le> 1 then (case vs of [] \<Rightarrow> Undefined | t # _ \<Rightarrow> One t) else Many vs)"
    by (cases r) (auto simp: respond_def)
  have "length vs = length (normalize_ids s)" using promise_all_length p v by fastforce
  then show ?thesis using d by (cases vs) (auto simp: le_Suc_eq)
qed

theorem getTransactionById_data_shape_witness:
  "shape_ok 2 (Many [Some (format_tx demo_opts (\<lambda>_. 0) demo_raw demo_value ''abcdefghijklmno''), None])"
proof -
  have ids: "normalize_ids ''tx1,tx2'' = [''tx1'', ''tx2'']" by (simp add: demo_ids)
  have "getTransactionById demo_net (\<lambda>_. 0) [1, 0] ''tx1,tx2'' demo_opts =
          Some (Data (Many [Some (format_tx demo_opts (\<lambda>_. 0) demo_raw demo_value ''abcdefghijklmno''), None]), [])"
    by (simp add: getTransactionById_def respond_def ids demo_net_answers demo_responses
        tx_handler_formatted tx_handler_provider_batch promise_all_def all_init_def demo_opts_def)
  from getTransactionById_data_shape [OF this] show ?thesis by (simp add: ids)
qed

subsection \<open>Concurrency\<close>

text \<open>
  C5. When at most one response raises, the result does not depend on the order in which
  the requests settle: any two complete settlement orders give the same result and the
  same console output.
\<close>

theorem getTransactionById_order_independent:
  assumes "complete_schedule (length (normalize_ids s)) s1"
    and "complete_schedule (length (normalize_ids s)) s2"
    and "\<forall>i < length (normalize_ids s). \<forall>j < length (normalize_ids s).
           isl (handled net tz s opts ! i) \<longrightarrow> isl (handled net tz s opts ! j) \<longrightarrow> i = j"
  shows "getTransactionById net tz s1 s opts = getTransactionById net tz s2 s opts"
proof -
  have "promise_all (handled net tz s opts) s1 = promise_all (handled net tz s opts) s2"
    using assms by (intro promise_all_schedule_independent) simp_all
  then show ?thesis by (simp add: getTransactionById_def respond_def Let_def)
qed

theorem getTransactionById_order_independent_witness:
  "getTransactionById demo_net (\<lambda>_. 0) [0, 1, 2] ''tx1,tx3,tx2'' demo_opts =
     getTransactionById demo_net (\<lambda>_. 0) [2, 0, 1] ''tx1,tx3,tx2'' demo_opts"
proof (rule getTransactionById_order_independent)
  show "complete_schedule (length (normalize_ids ''tx1,tx3,tx2'')) [0, 1, 2]"
    "complete_schedule (length (normalize_ids ''tx1,tx3,tx2'')) [2, 0, 1]"
    by (auto simp: demo_ids complete_schedule_def less_Suc_eq eval_nat_numeral)
  show "\<forall>i < length (normalize_ids ''tx1,tx3,tx2''). \<forall>j < length (normalize_ids ''tx1,tx3,tx2'').
          isl (handled demo_net (\<lambda>_. 0) ''tx1,tx3,tx2'' demo_opts ! i) \<longrightarrow>
          isl (handled demo_net (\<lambda>_. 0) ''tx1,tx3,tx2'' demo_opts ! j) \<longrightarrow> i = j"
    by (auto simp: demo_ids less_Suc_eq demo_net_answers demo_responses tx_handler_formatted
        tx_handler_provider_batch)
qed

text \<open>
  C6. The call has no timeout: if one request never settles and none of those that do
  raises, the call never returns.
\<close>

theorem getTransactionById_hangs:
  assumes "distinct sched" and "set sched \<subset> {..<length (normalize_ids s)}"
    and "\<forall>i \<in> set sched. \<not> isl (handled net tz s opts ! i)"
  shows "getTransactionById net tz sched s opts = None"
proof -
  have "promise_all (handled net tz s opts) sched = None"
    using assms by (intro promise_all_pending) simp_all
  then show ?thesis by (simp add: getTransactionById_def respond_def Let_def)
qed

theorem getTransactionById_hangs_witness:
  "getTransactionById demo_net (\<lambda>_. 0) [0] ''tx1,tx2'' demo_opts = None"
proof (rule getTransactionById_hangs)
  show "distinct [0::nat]" by simp
  show "set [0] \<subset> {..<length (normalize_ids ''tx1,tx2'')}"
    by (auto simp: demo_ids)
  show "\<forall>i \<in> set [0]. \<not> isl (handled demo_net (\<lambda>_. 0) ''tx1,tx2'' demo_opts ! i)"
    by (simp add: demo_ids demo_net_answers demo_responses tx_handler_formatted)
qed

text \<open>
  C7. The call is fail-fast, not all-settled: when the first request to settle raises,
  the call fails with its message at once, whatever the other requests do, even if they
  never settle.
\<close>

theorem getTransactionById_fail_fast:
  assumes "i < length (normalize_ids s)" and "handled net tz s opts ! i = Inl e"
  shows "getTransactionById net tz (i # rest) s opts =
           Some (Failure (error_message e), if log opts then [Logged_error e] else [])"
proof -
  have "promise_all (handled net tz s opts) (i # rest) = Some (Inl e)"
    using assms by (intro promise_all_first_rejection) simp_all
  then show ?thesis by (simp add: getTransactionById_def respond_def Let_def)
qed

theorem getTransactionById_fail_fast_witness:
  "getTransactionById demo_net (\<lambda>_. 0) [0] ''tx3,tx1'' demo_opts =
     Some (Failure (error_message (Transport_Error ''timeout of 1000ms exceeded'')),
           if log demo_opts then [Logged_error (Transport_Error ''timeout of 1000ms exceeded'')]
           else [])"
  by (rule getTransactionById_fail_fast) (simp_all add: demo_ids demo_net_answers)

text \<open>
  When several requests raise, the message the call returns is that of the request that
  settled first (\<open>getTransactionById_fail_fast\<close>): the same input fails with different
  messages under different settlement orders.
\<close>

theorem getTransactionById_error_depends_on_order:
  "getTransactionById demo_net (\<lambda>_. 0) [0, 1] ''tx3,tx4'' demo_opts =
     Some (Failure ''timeout of 1000ms exceeded'', []) \<and>
   getTransactionById demo_net (\<lambda>_. 0) [1, 0] ''tx3,tx4'' demo_opts =
     Some (Failure ''Network Error'', [])"
proof -
  have ids: "normalize_ids ''tx3,tx4'' = [''tx3'', ''tx4'']"
    by (simp add: normalize_ids_def js_trim_def is_js_space_def)
  show ?thesis
    by (simp add: getTransactionById_def respond_def ids demo_net_answers promise_all_def all_init_def
        demo_opts_def)
qed

subsection \<open>The shape of the input\<close>

text \<open>
  C10. An input with no non-blank id (the empty string, or only commas and blanks) makes no
  request and returns \<open>{data: undefined}\<close>: neither a record nor an error.
\<close>

theorem getTransactionById_empty:
  assumes "normalize_ids s = []"
  shows "getTransactionById net tz [] s opts =
           Some (Data Undefined, if log opts then [Table []] else [])"
  using assms by (simp add: getTransactionById_def respond_def promise_all_def all_init_def)

theorem getTransactionById_empty_witness:
  "getTransactionById demo_net (\<lambda>_. 0) [] '' , ,'' demo_opts =
     Some (Data Undefined, if log demo_opts then [Table []] else [])"
  by (rule getTransactionById_empty) (simp add: normalize_ids_def js_trim_def is_js_space_def)

text \<open>
  C11. The ids requested are the comma-separated pieces of the input that contain a
  character other than white space, in input order and exactly as written: blanks
  around an id are not trimmed and reach the request body.
\<close>

theorem normalize_ids_untrimmed:
  "normalize_ids s = filter (\<lambda>tx. \<exists>c \<in> set tx. \<not> is_js_space c) (js_split CHR '','' s) \<and>
   normalize_ids '' tx1 , tx2'' = ['' tx1 '', '' tx2''] \<and>
   request_body '' tx2'' = ''{'' @ [dquote] @ ''value'' @ [dquote] @ '':'' @ [dquote] @ '' tx2'' @ [dquote] @ ''}''"
proof (intro conjI)
  show "normalize_ids s = filter (\<lambda>tx. \<exists>c \<in> set tx. \<not> is_js_space c) (js_split CHR '','' s)"
    by (simp add: normalize_ids_def js_trim_empty_iff)
  show "normalize_ids '' tx1 , tx2'' = ['' tx1 '', '' tx2'']"
    by (simp add: normalize_ids_def js_trim_def is_js_space_def)
  show "request_body '' tx2'' = ''{'' @ [dquote] @ ''value'' @ [dquote] @ '':'' @ [dquote] @ '' tx2'' @ [dquote] @ ''}''"
    by (simp add: request_body_def json_quote_def json_escape_char_def dquote_def)
qed

subsection \<open>Console output\<close>



subsection \<open>The repository's tests on the fixtures\<close>

text \<open>The test suite's theorem at a fixture of two copies of a hash the network answers with
  a transaction, the altered hash meeting a network error.\<close>

theorem repository_tests_pass_witness:
  "test_get_single (getTransactionById demo_net (\<lambda>_. 0) [0] ''tx1'' \<lparr>includeNoDecimalAmount = False, log = True\<rparr>) \<and>
   test_get_multiple (getTransactionById demo_net (\<lambda>_. 0) [1, 0] (js_join CHR '','' [''tx1'', ''tx1'']) no_options) \<and>
   test_invalid_id (getTransactionById demo_net (\<lambda>_. 0) [0] (hd [''tx1'', ''tx1''] @ ''0z'') no_options)"
proof -
  have "2 \<le> length [''tx1'', ''tx1'']" by simp
  moreover have "\<forall>h \<in> set [''tx1'', ''tx1'']. plain_hash h \<and> answers_transaction (demo_net API_URL (request_body h))"
    by (simp add: plain_hash_def js_trim_def is_js_space_def demo_net_answers demo_responses demo_value_def)
  moreover have "isl (tx_handler no_options (\<lambda>_. 0) 1 (demo_net API_URL (request_body (hd [''tx1'', ''tx1''] @ ''0z''))))"
    by (simp add: demo_net_def request_body_def json_quote_def json_escape_char_def dquote_def)
  ultimately have t: "(\<forall>h \<in> set [''tx1'', ''tx1''].
      test_get_single (getTransactionById demo_net (\<lambda>_. 0) [0] h \<lparr>includeNoDecimalAmount = False, log = True\<rparr>)) \<and>
   (\<forall>sched. complete_schedule (length [''tx1'', ''tx1'']) sched \<longrightarrow>
      test_get_multiple (getTransactionById demo_net (\<lambda>_. 0) sched (js_join CHR '','' [''tx1'', ''tx1'']) no_options)) \<and>
   test_invalid_id (getTransactionById demo_net (\<lambda>_. 0) [0] (hd [''tx1'', ''tx1''] @ ''0z'') no_options)"
    by (rule repository_tests_pass)
  have "complete_schedule (length [''tx1'', ''tx1'']) [1, 0]"
    by (auto simp: complete_schedule_def less_Suc_eq)
  with t show ?thesis by simp
qed

end
